(* ===== verification/Prelude.thy ===== *)
theory Prelude
  imports Main
begin

text \<open>
  Shared vocabulary of the development.

  The program is C. What the C abstract machine leaves undefined, or what ends the process,
  is a value of \<open>fault\<close>; an operation that may go wrong returns
  \<open>fault + 'a\<close>, abbreviated \<open>'a run\<close>, and \<open>and_then\<close> sequences two such
  operations the way two C statements follow each other: the second one is reached only if the
  first one completed. A NULL result that the code tests for is an ordinary value and is an
  \<open>option\<close>, never a fault.
\<close>

section \<open>Runs that may fault\<close>

text \<open>
  \<open>Null_Deref\<close>: a NULL pointer is dereferenced.
  \<open>Out_Of_Bounds\<close>: an access outside an object.
  \<open>Use_After_Free\<close>: an access to a freed object.
  \<open>Type_Confusion\<close>: an object is accessed through a pointer to an unrelated type.
  \<open>Program_Exit\<close>: the code calls \<open>exit(1)\<close>.
\<close>

datatype fault = Null_Deref | Out_Of_Bounds | Use_After_Free | Type_Confusion | Program_Exit

type_synonym 'a run = "fault + 'a"

named_theorems run_simps \<open>rewriting of sequenced runs\<close>
named_theorems wf_rules \<open>every operation keeps the well-formedness of its component\<close>

definition and_then :: "'a run \<Rightarrow> ('a \<Rightarrow> 'b run) \<Rightarrow> 'b run" where
  "and_then m k = (case m of Inl e \<Rightarrow> Inl e | Inr x \<Rightarrow> k x)"

lemma and_then_Inl [simp]: "and_then (Inl e) k = Inl e"
  by (simp add: and_then_def)

lemma and_then_Inr [simp]: "and_then (Inr x) k = k x"
  by (simp add: and_then_def)

lemma and_then_eq_Inr [run_simps]:
  "and_then m k = Inr y \<longleftrightarrow> (\<exists>x. m = Inr x \<and> k x = Inr y)"
  by (cases m) simp_all

lemma and_then_eq_Inl [run_simps]:
  "and_then m k = Inl e \<longleftrightarrow> m = Inl e \<or> (\<exists>x. m = Inr x \<and> k x = Inl e)"
  by (cases m) simp_all

lemma and_then_cong [fundef_cong]:
  "m = m' \<Longrightarrow> (\<And>x. m' = Inr x \<Longrightarrow> k x = k' x) \<Longrightarrow> and_then m k = and_then m' k'"
  by (cases m') simp_all

lemma and_then_assoc:
  "and_then (and_then m k) h = and_then m (\<lambda>x. and_then (k x) h)"
  by (cases m) simp_all

text \<open>A pointer that the code dereferences without a test.\<close>

definition deref :: "'a option \<Rightarrow> 'a run" where
  "deref p = (case p of None \<Rightarrow> Inl Null_Deref | Some x \<Rightarrow> Inr x)"

lemma deref_simps [simp]: "deref None = Inl Null_Deref" "deref (Some x) = Inr x"
  by (simp_all add: deref_def)

lemma deref_eq_Inr [run_simps]: "deref p = Inr x \<longleftrightarrow> p = Some x"
  by (cases p) simp_all

section \<open>Lists\<close>

lemma take_Suc_append_drop:
  "n < length xs \<Longrightarrow> take n xs @ xs ! n # drop (Suc n) xs = xs"
  by (metis id_take_nth_drop)

lemma dropWhile_length_le: "length (dropWhile P xs) \<le> length xs"
  by (induction xs) auto

lemma takeWhile_all: "(\<forall>x \<in> set xs. P x) \<Longrightarrow> takeWhile P xs = xs"
  by (induction xs) auto

lemma takeWhile_append_stop:
  "(\<forall>x \<in> set xs. P x) \<Longrightarrow> \<not> P y \<Longrightarrow> takeWhile P (xs @ y # ys) = xs"
  by (induction xs) auto

lemma dropWhile_append_stop:
  "(\<forall>x \<in> set xs. P x) \<Longrightarrow> \<not> P y \<Longrightarrow> dropWhile P (xs @ y # ys) = y # ys"
  by (induction xs) auto

lemma dropWhile_all: "(\<forall>x \<in> set xs. P x) \<Longrightarrow> dropWhile P xs = []"
  by (induction xs) auto

lemma drop_Cons_Cons:
  "drop i xs = x # y # zs \<Longrightarrow> xs ! i = x \<and> xs ! (i + 1) = y \<and> drop (i + 2) xs = zs"
  by (metis add_2_eq_Suc' Suc_eq_plus1 drop_Suc list.sel(3) nth_via_drop tl_drop)

text \<open>The sequence of elements separated by a separator, as a joining loop builds it.\<close>

fun join :: "'a list \<Rightarrow> 'a list list \<Rightarrow> 'a list" where
  "join sep [] = []"
| "join sep [x] = x"
| "join sep (x # y # xs) = x @ sep @ join sep (y # xs)"

lemma join_Cons: "join sep (x # xs) = (if xs = [] then x else x @ sep @ join sep xs)"
  by (cases xs) simp_all

lemma join_snoc: "join sep (xs @ [x]) = (if xs = [] then x else join sep xs @ sep @ x)"
  by (induction xs) (auto simp: join_Cons)

lemma join_append:
  "xs \<noteq> [] \<Longrightarrow> ys \<noteq> [] \<Longrightarrow> join sep (xs @ ys) = join sep xs @ sep @ join sep ys"
  by (induction xs) (auto simp: join_Cons)

section \<open>Folding a partial operation over a list\<close>

fun fold_run :: "('a \<Rightarrow> 's \<Rightarrow> 's run) \<Rightarrow> 'a list \<Rightarrow> 's \<Rightarrow> 's run" where
  "fold_run f [] s = Inr s"
| "fold_run f (x # xs) s = and_then (f x s) (fold_run f xs)"

lemma fold_run_Nil [simp]: "fold_run f [] = Inr"
  by (simp add: fun_eq_iff)

lemma fold_run_append:
  "fold_run f (xs @ ys) s = and_then (fold_run f xs s) (fold_run f ys)"
proof (induction xs arbitrary: s)
  case (Cons x xs)
  have "fold_run f (xs @ ys) = (\<lambda>t. and_then (fold_run f xs t) (fold_run f ys))"
    using Cons by (rule ext)
  then show ?case by (simp add: and_then_assoc)
qed simp

lemma and_then_Inr_right [simp]: "and_then m Inr = m"
  by (cases m) simp_all

lemma fold_run_map: "fold_run f (map g xs) s = fold_run (\<lambda>x. f (g x)) xs s"
  by (induction xs arbitrary: s) (auto intro!: and_then_cong)

lemma fold_run_cong:
  "(\<And>x s. x \<in> set xs \<Longrightarrow> f x s = g x s) \<Longrightarrow> fold_run f xs s = fold_run g xs s"
  by (induction xs arbitrary: s) (auto intro!: and_then_cong)

lemma fold_run_invariant:
  assumes "\<And>x s s'. x \<in> set xs \<Longrightarrow> I s \<Longrightarrow> f x s = Inr s' \<Longrightarrow> I s'"
    and "I s" and "fold_run f xs s = Inr s'"
  shows "I s'"
  using assms
proof (induction xs arbitrary: s)
  case (Cons x xs)
  then obtain t where "f x s = Inr t" "fold_run f xs t = Inr s'"
    by (auto simp: run_simps)
  moreover have "I t" using Cons.prems calculation by (meson list.set_intros(1))
  ultimately show ?case using Cons by (metis list.set_intros(2))
qed simp

end
