(* ===== verification/C_String.thy ===== *)
theory C_String
  imports Prelude "HOL-Library.Char_ord" "HOL-Library.List_Lexorder"
begin

text \<open>
  The part of the C library on strings that the program uses. A C string is the list of its
  bytes without the terminating NUL. A block of memory is the list of its bytes, and reading a
  C string from it stops at the first NUL; a block that holds none is read on past its end, so
  the reader takes the allocator's \<open>slack\<close> as a parameter: the bytes that follow the block,
  up to the next NUL.
\<close>

definition NUL :: char where "NUL = CHR 0x00"

definition nul_free :: "string \<Rightarrow> bool" where
  "nul_free s \<longleftrightarrow> NUL \<notin> set s"

lemma nul_free_Nil [simp]: "nul_free []"
  by (simp add: nul_free_def)

lemma nul_free_Cons [simp]: "nul_free (c # s) \<longleftrightarrow> c \<noteq> NUL \<and> nul_free s"
  by (auto simp: nul_free_def)

lemma nul_free_append [simp]: "nul_free (s @ t) \<longleftrightarrow> nul_free s \<and> nul_free t"
  by (auto simp: nul_free_def)

section \<open>Blocks of memory\<close>

type_synonym slack = "string \<Rightarrow> string"

definition read_cstr :: "slack \<Rightarrow> string \<Rightarrow> string" where
  "read_cstr slack b = (if NUL \<in> set b then takeWhile (\<lambda>c. c \<noteq> NUL) b else b @ slack b)"

text \<open>\<open>memcpy(dst, s, n)\<close> from a C string; every call of the program has \<open>n \<le> strlen(s) + 1\<close>.\<close>

definition copy_str :: "string \<Rightarrow> nat \<Rightarrow> string" where
  "copy_str s n = take n (s @ [NUL])"

text \<open>\<open>calloc(n, n)\<close> followed by a copy of \<open>n\<close> bytes.\<close>

definition calloc_copy :: "string \<Rightarrow> nat \<Rightarrow> string" where
  "calloc_copy s n = copy_str s n @ replicate (n * n - n) NUL"

lemma read_cstr_terminated [simp]:
  "nul_free s \<Longrightarrow> read_cstr slack (s @ NUL # t) = s"
  by (auto simp: read_cstr_def nul_free_def intro!: takeWhile_append_stop)

lemma read_cstr_unterminated [simp]:
  "nul_free s \<Longrightarrow> read_cstr slack s = s @ slack s"
  by (simp add: read_cstr_def nul_free_def)

lemma copy_str_full [simp]: "copy_str s (Suc (length s)) = s @ [NUL]"
  by (simp add: copy_str_def)

lemma copy_str_bare [simp]: "copy_str s (length s) = s"
  by (simp add: copy_str_def)

lemma read_copy_full [simp]:
  "nul_free s \<Longrightarrow> read_cstr slack (copy_str s (Suc (length s))) = s"
  by simp

lemma read_calloc_full [simp]:
  "nul_free s \<Longrightarrow> read_cstr slack (calloc_copy s (Suc (length s))) = s"
  by (simp add: calloc_copy_def)

text \<open>
  A copy of \<open>strlen\<close> bytes lacks the terminator, but the block is \<open>n * n\<close> bytes long and
  zeroed, so from two bytes on the string is still terminated.
\<close>

lemma read_calloc_bare:
  assumes "nul_free s" and "2 \<le> length s"
  shows "read_cstr slack (calloc_copy s (length s)) = s"
proof -
  have "length s < length s * length s" using assms(2) by (cases "length s") auto
  then obtain k where "length s * length s - length s = Suc k"
    by (metis Suc_pred zero_less_diff)
  then have "calloc_copy s (length s) = s @ NUL # replicate k NUL"
    by (simp add: calloc_copy_def)
  then show ?thesis using assms(1) by simp
qed

lemma read_calloc_single:
  "c \<noteq> NUL \<Longrightarrow> read_cstr slack (calloc_copy [c] 1) = c # slack [c]"
  by (simp add: calloc_copy_def copy_str_def)

lemma read_calloc_bare_slackless:
  assumes "nul_free s" and "\<And>b. slack b = []"
  shows "read_cstr slack (calloc_copy s (length s)) = s"
proof (cases "2 \<le> length s")
  case True
  then show ?thesis using assms(1) by (rule read_calloc_bare [rotated])
next
  case False
  then consider "s = []" | c where "s = [c]"
    by (cases s) (auto simp: Suc_le_eq)
  then show ?thesis using assms by cases (auto simp: calloc_copy_def copy_str_def)
qed

section \<open>strcmp\<close>

text \<open>
  Only the sign of \<open>strcmp\<close> is specified, and only the sign is used; bytes compare as
  unsigned chars.
\<close>

fun strcmp :: "string \<Rightarrow> string \<Rightarrow> int" where
  "strcmp [] [] = 0"
| "strcmp [] (y # ys) = -1"
| "strcmp (x # xs) [] = 1"
| "strcmp (x # xs) (y # ys) =
     (if x = y then strcmp xs ys
      else if (of_char x :: nat) < of_char y then -1 else 1)"

lemma strcmp_order: "strcmp s t = (if s < t then -1 else if t < s then 1 else 0)"
proof (induction s t rule: strcmp.induct)
  case (4 x xs y ys)
  have "(of_char x :: nat) < of_char y \<longleftrightarrow> x < y" by (simp add: less_char_def)
  with 4 show ?case by auto
qed auto

lemma strcmp_zero [simp]: "strcmp s t = 0 \<longleftrightarrow> s = t"
  by (auto simp: strcmp_order)

lemma strcmp_pos: "strcmp s t > 0 \<longleftrightarrow> t < s"
  by (auto simp: strcmp_order)

lemma strcmp_neg: "strcmp s t < 0 \<longleftrightarrow> s < t"
  by (auto simp: strcmp_order)

section \<open>strtok\<close>

text \<open>
  \<open>strtok\<close> keeps a pointer to the rest of the string. One call skips leading delimiters and
  returns NULL when nothing is left, otherwise the token up to the next delimiter, leaving the
  rest behind that delimiter.
\<close>

definition strtok :: "string \<Rightarrow> string \<Rightarrow> string option \<times> string" where
  "strtok delims rest =
     (let s = dropWhile (\<lambda>c. c \<in> set delims) rest
      in if s = [] then (None, [])
         else (Some (takeWhile (\<lambda>c. c \<notin> set delims) s),
               drop 1 (dropWhile (\<lambda>c. c \<notin> set delims) s)))"

lemma strtok_rest_length:
  "strtok d s = (Some t, r) \<Longrightarrow> length r < length s"
proof -
  assume a: "strtok d s = (Some t, r)"
  let ?s = "dropWhile (\<lambda>c. c \<in> set d) s"
  have ne: "?s \<noteq> []" and r: "r = drop 1 (dropWhile (\<lambda>c. c \<notin> set d) ?s)"
    using a by (auto simp: strtok_def Let_def split: if_splits)
  have "hd ?s \<notin> set d" using hd_dropWhile [OF ne] by simp
  then have "length r < length ?s"
    using ne r dropWhile_length_le [of "\<lambda>c. c \<notin> set d" "tl ?s"]
    by (cases ?s) (auto simp: less_Suc_eq_le intro: diff_le_self order_trans)
  also have "\<dots> \<le> length s" by (rule dropWhile_length_le)
  finally show ?thesis .
qed

lemma strtok_token:
  "strtok d s = (Some t, r) \<Longrightarrow> t \<noteq> [] \<and> set t \<inter> set d = {} \<and> set t \<subseteq> set s \<and> set r \<subseteq> set s"
proof -
  assume a: "strtok d s = (Some t, r)"
  let ?s = "dropWhile (\<lambda>c. c \<in> set d) s"
  have ne: "?s \<noteq> []" and t: "t = takeWhile (\<lambda>c. c \<notin> set d) ?s"
    and r: "r = drop 1 (dropWhile (\<lambda>c. c \<notin> set d) ?s)"
    using a by (auto simp: strtok_def Let_def split: if_splits)
  have "hd ?s \<notin> set d" using hd_dropWhile [OF ne] by simp
  then have "t \<noteq> []" using ne t by (cases ?s) auto
  moreover have "set t \<inter> set d = {}" using t by (auto dest: set_takeWhileD)
  moreover have "set t \<subseteq> set s" using t by (auto dest: set_takeWhileD set_dropWhileD)
  moreover have "set r \<subseteq> set s" using r by (auto dest: in_set_dropD set_dropWhileD)
  ultimately show ?thesis by simp
qed

text \<open>The loop \<open>tok = strtok(s, d); while (tok) { ...; tok = strtok(NULL, d); }\<close>.\<close>

function strtok_all :: "string \<Rightarrow> string \<Rightarrow> string list" where
  "strtok_all d s = (case strtok d s of (None, r) \<Rightarrow> [] | (Some t, r) \<Rightarrow> t # strtok_all d r)"
  by pat_completeness auto
termination
  by (relation "measure (\<lambda>(d, s). length s)") (auto dest: strtok_rest_length [OF sym])

declare strtok_all.simps [simp del]

lemma strtok_all_Nil [simp]: "strtok_all d [] = []"
  by (subst strtok_all.simps) (simp add: strtok_def)

lemma strtok_all_tokens:
  "t \<in> set (strtok_all d s) \<Longrightarrow> t \<noteq> [] \<and> set t \<inter> set d = {} \<and> set t \<subseteq> set s"
proof (induction d s rule: strtok_all.induct)
  case (1 d s)
  show ?case
  proof (cases "strtok d s")
    case (Pair p r)
    show ?thesis
    proof (cases p)
      case None
      with 1 Pair show ?thesis by (subst (asm) (2) strtok_all.simps) simp
    next
      case (Some u)
      with Pair have eq: "strtok d s = (Some u, r)" by simp
      from strtok_token [OF eq] have u: "u \<noteq> []" "set u \<inter> set d = {}" "set u \<subseteq> set s" "set r \<subseteq> set s"
        by auto
      have "t = u \<or> t \<in> set (strtok_all d r)"
        using 1(2) eq by (subst (asm) strtok_all.simps) simp
      then show ?thesis using u 1(1) [OF eq [symmetric] refl] by blast
    qed
  qed
qed

lemma strtok_token_delim:
  assumes "t \<noteq> []" and "set t \<inter> set d = {}" and "c \<in> set d"
  shows "strtok d (t @ c # s) = (Some t, s)"
proof -
  have 1: "dropWhile (\<lambda>c. c \<in> set d) (t @ c # s) = t @ c # s"
    using assms by (cases t) auto
  have all: "\<forall>x \<in> set t. x \<notin> set d" using assms(2) by auto
  show ?thesis using assms
    by (simp add: strtok_def 1 takeWhile_append_stop [OF all] dropWhile_append_stop [OF all])
qed

lemma strtok_token_end:
  assumes "t \<noteq> []" and "set t \<inter> set d = {}"
  shows "strtok d t = (Some t, [])"
proof -
  have 1: "dropWhile (\<lambda>c. c \<in> set d) t = t"
    using assms by (cases t) auto
  have all: "\<forall>x \<in> set t. x \<notin> set d" using assms(2) by auto
  show ?thesis using assms
    by (simp add: strtok_def 1 takeWhile_all [OF all] dropWhile_all [OF all])
qed

lemma strtok_empty_delims: "strtok [] s = (if s = [] then (None, []) else (Some s, []))"
  by (auto simp: strtok_def takeWhile_all dropWhile_all)

lemma strtok_all_join:
  assumes "\<forall>t \<in> set ts. t \<noteq> [] \<and> set t \<inter> set d = {}" and "c \<in> set d"
  shows "strtok_all d (join [c] ts) = ts"
  using assms(1)
proof (induction ts rule: induct_list012)
  case (2 t)
  then show ?case
    by (subst strtok_all.simps) (simp add: strtok_token_end)
next
  case (3 t u ts)
  then have "strtok d (t @ c # join [c] (u # ts)) = (Some t, join [c] (u # ts))"
    using assms(2) by (intro strtok_token_delim) auto
  with 3 show ?case by (subst strtok_all.simps) simp
qed simp

section \<open>Decimal conversion\<close>

fun show_nat :: "nat \<Rightarrow> string" where
  "show_nat n = (if n < 10 then [char_of (48 + n)] else show_nat (n div 10) @ [char_of (48 + n mod 10)])"

declare show_nat.simps [simp del]

text \<open>\<open>sprintf(buf, "%ld", i)\<close>.\<close>

definition show_int :: "int \<Rightarrow> string" where
  "show_int i = (if i < 0 then CHR ''-'' # show_nat (nat (- i)) else show_nat (nat i))"

definition is_digit :: "char \<Rightarrow> bool" where
  "is_digit c \<longleftrightarrow> 48 \<le> (of_char c :: nat) \<and> (of_char c :: nat) \<le> 57"

definition is_space :: "char \<Rightarrow> bool" where
  "is_space c \<longleftrightarrow> (of_char c :: nat) = 32 \<or> 9 \<le> (of_char c :: nat) \<and> (of_char c :: nat) \<le> 13"

fun read_digits :: "nat \<Rightarrow> string \<Rightarrow> nat" where
  "read_digits acc [] = acc"
| "read_digits acc (c # s) =
     (if is_digit c then read_digits (10 * acc + (of_char c - 48)) s else acc)"

text \<open>\<open>strtol(s, NULL, 10)\<close> before it is brought into the range of the result type.\<close>

definition read_int :: "string \<Rightarrow> int" where
  "read_int s =
     (case dropWhile is_space s of
        [] \<Rightarrow> 0
      | c # r \<Rightarrow> if c = CHR ''-'' then - int (read_digits 0 r)
                else if c = CHR ''+'' then int (read_digits 0 r)
                else int (read_digits 0 (c # r)))"

text \<open>A 64-bit number stored in an \<open>int\<close>, and the wrap-around of an \<open>int\<close>.\<close>

definition int32 :: "int \<Rightarrow> int" where
  "int32 i = (i + 2 ^ 31) mod 2 ^ 32 - 2 ^ 31"

lemma int32_id: "- (2 ^ 31) \<le> i \<Longrightarrow> i < 2 ^ 31 \<Longrightarrow> int32 i = i"
  by (simp add: int32_def)

lemma int32_idem: "int32 (int32 i) = int32 i"
proof -
  have "- (2 ^ 31) \<le> int32 i" "int32 i < 2 ^ 31"
    using pos_mod_bound [of "2 ^ 32" "i + 2 ^ 31"] pos_mod_sign [of "2 ^ 32" "i + 2 ^ 31"]
    unfolding int32_def by simp_all
  then show ?thesis by (rule int32_id)
qed

text \<open>
  \<open>atol\<close> saturates at the ends of a 64-bit \<open>long\<close>, and \<open>atoi\<close> converts that to a 32-bit
  \<open>int\<close>, as the C library of the platform does.
\<close>

definition atol :: "string \<Rightarrow> int" where
  "atol s = max (- (2 ^ 63)) (min (2 ^ 63 - 1) (read_int s))"

definition atoi :: "string \<Rightarrow> int" where
  "atoi s = (atol s + 2 ^ 31) mod 2 ^ 32 - 2 ^ 31"

lemma atoi_range: "- (2 ^ 31) \<le> atoi s \<and> atoi s < 2 ^ 31"
  using pos_mod_bound [of "2 ^ 32 :: int" "atol s + 2 ^ 31"]
    pos_mod_sign [of "2 ^ 32 :: int" "atol s + 2 ^ 31"]
  unfolding atoi_def by simp

lemma of_char_digit: "d < 10 \<Longrightarrow> (of_char (char_of (48 + d) :: char) :: nat) = 48 + d"
  by simp

lemma is_digit_digit: "d < 10 \<Longrightarrow> is_digit (char_of (48 + d :: nat))"
  unfolding is_digit_def by (simp add: of_char_digit)

lemma show_nat_digits: "c \<in> set (show_nat n) \<Longrightarrow> is_digit c"
proof (induction n rule: show_nat.induct)
  case (1 n)
  then show ?case
    using is_digit_digit [of n] is_digit_digit [of "n mod 10"]
    by (subst (asm) (2) show_nat.simps) (auto split: if_splits)
qed

lemma show_nat_ne [simp]: "show_nat n \<noteq> []"
  by (subst show_nat.simps) simp

lemma read_digits_snoc:
  "(\<forall>c \<in> set s. is_digit c) \<Longrightarrow> is_digit d \<Longrightarrow>
   read_digits acc (s @ [d]) = 10 * read_digits acc s + (of_char d - 48)"
  by (induction s arbitrary: acc) auto

lemma read_digits_show_nat: "read_digits 0 (show_nat n) = n"
proof (induction n rule: show_nat.induct)
  case (1 n)
  show ?case
  proof (cases "n < 10")
    case True
    then show ?thesis using is_digit_digit [OF True]
      by (subst show_nat.simps) (simp del: of_char_of add: of_char_digit)
  next
    case False
    have m: "n mod 10 < 10" by simp
    have "read_digits 0 (show_nat n) = 10 * (n div 10) + (48 + n mod 10 - 48)"
      using False 1 is_digit_digit [OF m]
      by (subst show_nat.simps)
        (simp del: of_char_of add: read_digits_snoc show_nat_digits of_char_digit [OF m])
    then show ?thesis by simp
  qed
qed

lemma digit_not_space_sign:
  "is_digit c \<Longrightarrow> \<not> is_space c \<and> c \<noteq> CHR ''-'' \<and> c \<noteq> CHR ''+''"
  by (auto simp: is_digit_def is_space_def)

lemma read_int_show_int: "read_int (show_int i) = i"
proof (cases "i < 0")
  case True
  then show ?thesis
    by (simp add: show_int_def read_int_def is_space_def read_digits_show_nat)
next
  case False
  obtain c r where cr: "show_nat (nat i) = c # r" by (cases "show_nat (nat i)") auto
  then have "is_digit c" using show_nat_digits [of c "nat i"] by simp
  then have "dropWhile is_space (c # r) = c # r" "c \<noteq> CHR ''-''" "c \<noteq> CHR ''+''"
    using digit_not_space_sign by auto
  then have "read_int (show_int i) = int (read_digits 0 (show_nat (nat i)))"
    using False cr by (simp add: show_int_def read_int_def)
  then show ?thesis using False by (simp add: read_digits_show_nat)
qed

lemma atol_show_int:
  "- (2 ^ 63) \<le> i \<Longrightarrow> i < 2 ^ 63 \<Longrightarrow> atol (show_int i) = i"
  by (simp add: atol_def read_int_show_int)

lemma digit_not_nul: "is_digit c \<Longrightarrow> c \<noteq> NUL"
  by (auto simp: is_digit_def NUL_def)

lemma nul_free_show_nat [simp]: "nul_free (show_nat n)"
  using show_nat_digits digit_not_nul unfolding nul_free_def by blast

lemma nul_free_show_int [simp]: "nul_free (show_int i)"
  by (simp add: show_int_def NUL_def)

lemma length_show_nat_le: "n < 10 ^ k \<Longrightarrow> 0 < k \<Longrightarrow> length (show_nat n) \<le> k"
proof (induction n arbitrary: k rule: show_nat.induct)
  case (1 n)
  show ?case
  proof (cases "n < 10")
    case True
    then show ?thesis using 1(3) by (subst show_nat.simps) simp
  next
    case False
    with 1(2,3) obtain j where j: "k = Suc j" "0 < j"
      by (cases k; cases "k - 1") auto
    with 1(2) have "n div 10 < 10 ^ j" by (simp add: less_mult_imp_div_less mult.commute)
    then have "length (show_nat (n div 10)) \<le> j" using 1(1) False j(2) by simp
    with False j show ?thesis by (subst show_nat.simps) simp
  qed
qed

lemma length_show_nat_ge: "10 ^ k \<le> n \<Longrightarrow> k < length (show_nat n)"
proof (induction k arbitrary: n)
  case 0
  show ?case by (subst show_nat.simps) simp
next
  case (Suc k)
  then have "10 ^ k \<le> n div 10" by (simp add: less_eq_div_iff_mult_less_eq mult.commute)
  then have "k < length (show_nat (n div 10))" by (rule Suc.IH)
  moreover have "\<not> n < 10" using Suc.prems
    by (metis linorder_not_less not_less_eq_eq one_le_numeral order_trans power_Suc self_le_power
        zero_less_Suc power_increasing le_add2 plus_1_eq_Suc power_one_right)
  ultimately show ?case by (subst show_nat.simps) simp
qed

section \<open>The setting\<close>

text \<open>The directory of the uploaded files.\<close>

definition UPLOAD_DIR :: string where "UPLOAD_DIR = ''./upload''"

end
