(* ===== verification/Sql_Tables.thy ===== *)
theory Sql_Tables
  imports C_String
begin

text \<open>
  The tables of \<open>create_table.sql\<close> and what the SQL statements of \<open>src/model/*.c\<close> do to them: an
  insertion fails (None) when it violates a UNIQUE or FOREIGN KEY constraint of the schema, a
  deletion cascades along the foreign keys declared \<open>ON DELETE CASCADE\<close>, primary keys are
  AUTOINCREMENT. Rows are in the order of their primary keys, the order in which a SELECT without
  ORDER BY returns them. The random defaults (\<open>hex(randomblob(n))\<close>) and the time are arguments.

  \<open>db_wf\<close> says that the tables satisfy the schema; every statement keeps it.
\<close>

section \<open>Rows\<close>

record user =
  uid :: int
  display_name :: string
  username :: string
  password :: string
  ustatus :: int

record session =
  sid :: int
  suser :: int
  stoken :: string
  screated :: string

record group =
  gid :: int
  gname :: string
  gdescription :: "string option"
  gavatar :: "string option"
  gowner :: int
  gstatus :: int
  gcode :: string
  gcreated :: string

record member =
  mgroup :: int
  muser :: int

record directory =
  did :: int
  dname :: string
  dpermission :: int
  dpath :: string
  dparent :: "int option"
  dgroup :: int
  downer :: int
  dcreated :: string
  dupdated :: string

record file_row =
  fid :: int
  fname :: string
  fsize :: int
  fpermission :: int
  fpath :: string
  fdirectory :: "int option"
  fgroup :: int
  fowner :: int
  fmodified :: "int option"
  fcreated :: string
  fupdated :: string

record db =
  users :: "user list"
  sessions :: "session list"
  groups :: "group list"
  group_members :: "member list"
  directories :: "directory list"
  files :: "file_row list"
  next_user :: int
  next_session :: int
  next_group :: int
  next_member :: int
  next_directory :: int
  next_file :: int
  last_rowid :: int

definition empty_db :: db where
  "empty_db = \<lparr>users = [], sessions = [], groups = [], group_members = [], directories = [],
     files = [], next_user = 1, next_session = 1, next_group = 1, next_member = 1, next_directory = 1,
     next_file = 1, last_rowid = 0\<rparr>"

section \<open>Insertions\<close>

definition has_user :: "db \<Rightarrow> int \<Rightarrow> bool" where
  "has_user d i \<longleftrightarrow> i \<in> uid ` set (users d)"

definition has_group :: "db \<Rightarrow> int \<Rightarrow> bool" where
  "has_group d i \<longleftrightarrow> i \<in> gid ` set (groups d)"

definition has_dir :: "db \<Rightarrow> int \<Rightarrow> bool" where
  "has_dir d i \<longleftrightarrow> i \<in> did ` set (directories d)"

definition insert_user :: "string \<Rightarrow> string \<Rightarrow> string \<Rightarrow> db \<Rightarrow> db option" where
  "insert_user dn un pw d =
     (if un \<in> username ` set (users d) then None
      else Some (d\<lparr>users := users d @ [\<lparr>uid = next_user d, display_name = dn, username = un,
                                     password = pw, ustatus = 1\<rparr>],
                  next_user := next_user d + 1, last_rowid := next_user d\<rparr>))"

definition insert_session :: "int \<Rightarrow> string \<Rightarrow> string \<Rightarrow> db \<Rightarrow> db option" where
  "insert_session u token now d =
     (if \<not> has_user d u \<or> token \<in> stoken ` set (sessions d) then None
      else Some (d\<lparr>sessions := sessions d @ [\<lparr>sid = next_session d, suser = u, stoken = token,
                                           screated = now\<rparr>],
                  next_session := next_session d + 1, last_rowid := next_session d\<rparr>))"

definition insert_group ::
  "string \<Rightarrow> string option \<Rightarrow> string option \<Rightarrow> int \<Rightarrow> int \<Rightarrow> string \<Rightarrow> string \<Rightarrow> db \<Rightarrow> db option" where
  "insert_group nm desc av ow st code now d =
     (if nm \<in> gname ` set (groups d) \<or> code \<in> gcode ` set (groups d) \<or> \<not> has_user d ow then None
      else Some (d\<lparr>groups := groups d @ [\<lparr>gid = next_group d, gname = nm, gdescription = desc,
                     gavatar = av, gowner = ow, gstatus = st, gcode = code, gcreated = now\<rparr>],
                  next_group := next_group d + 1, last_rowid := next_group d\<rparr>))"

definition insert_member :: "int \<Rightarrow> int \<Rightarrow> db \<Rightarrow> db option" where
  "insert_member g u d =
     (if \<lparr>mgroup = g, muser = u\<rparr> \<in> set (group_members d) \<or> \<not> has_group d g \<or> \<not> has_user d u then None
      else Some (d\<lparr>group_members := group_members d @ [\<lparr>mgroup = g, muser = u\<rparr>],
                  next_member := next_member d + 1, last_rowid := next_member d\<rparr>))"

text \<open>A NULL parent is different from every other NULL in a UNIQUE constraint.\<close>

definition dir_key :: "directory \<Rightarrow> string \<times> int option \<times> int" where
  "dir_key r = (dname r, dparent r, dgroup r)"

definition insert_directory ::
  "string \<Rightarrow> int \<Rightarrow> int \<Rightarrow> int option \<Rightarrow> string \<Rightarrow> int \<Rightarrow> string \<Rightarrow> db \<Rightarrow> db option" where
  "insert_directory nm ow g parent path perm now d =
     (if parent \<noteq> None \<and> (nm, parent, g) \<in> dir_key ` set (directories d) \<or>
         \<not> has_group d g \<or> \<not> has_user d ow \<or> (\<exists>p \<in> set_option parent. \<not> has_dir d p) then None
      else Some (d\<lparr>directories := directories d @ [\<lparr>did = next_directory d, dname = nm,
                     dpermission = perm, dpath = path, dparent = parent, dgroup = g, downer = ow,
                     dcreated = now, dupdated = now\<rparr>],
                  next_directory := next_directory d + 1, last_rowid := next_directory d\<rparr>))"

text \<open>
  Two unique keys: (name, directory, group), where NULL directories differ, and the index on
  (name, group) for the rows whose directory is NULL. Together: the triple is unique.
\<close>

definition file_key :: "file_row \<Rightarrow> string \<times> int option \<times> int" where
  "file_key r = (fname r, fdirectory r, fgroup r)"

definition insert_file ::
  "string \<Rightarrow> int \<Rightarrow> int \<Rightarrow> string \<Rightarrow> int option \<Rightarrow> int \<Rightarrow> int \<Rightarrow> int \<Rightarrow> string \<Rightarrow> db \<Rightarrow> db option" where
  "insert_file nm sz perm path dir g ow md now d =
     (if (nm, dir, g) \<in> file_key ` set (files d) \<or> \<not> has_group d g \<or> \<not> has_user d ow \<or>
         \<not> has_user d md \<or> (\<exists>p \<in> set_option dir. \<not> has_dir d p) then None
      else Some (d\<lparr>files := files d @ [\<lparr>fid = next_file d, fname = nm, fsize = sz,
                     fpermission = perm, fpath = path, fdirectory = dir, fgroup = g, fowner = ow,
                     fmodified = Some md, fcreated = now, fupdated = now\<rparr>],
                  next_file := next_file d + 1, last_rowid := next_file d\<rparr>))"

section \<open>Updates\<close>

definition update_user_row :: "user \<Rightarrow> db \<Rightarrow> db option" where
  "update_user_row u d =
     (if \<exists>r \<in> set (users d). username r = username u \<and> uid r \<noteq> uid u \<and> has_user d (uid u) then None
      else Some (d\<lparr>users := map (\<lambda>r. if uid r = uid u then u else r) (users d)\<rparr>))"

definition update_group_row ::
  "string \<Rightarrow> string option \<Rightarrow> string option \<Rightarrow> int \<Rightarrow> int \<Rightarrow> db \<Rightarrow> db option" where
  "update_group_row nm desc av st i d =
     (if \<exists>r \<in> set (groups d). gname r = nm \<and> gid r \<noteq> i \<and> has_group d i then None
      else Some (d\<lparr>groups := map (\<lambda>r. if gid r = i
        then r\<lparr>gname := nm, gdescription := desc, gavatar := av, gstatus := st\<rparr> else r) (groups d)\<rparr>))"

definition update_directory_row :: "int \<Rightarrow> string \<Rightarrow> int \<Rightarrow> db \<Rightarrow> db option" where
  "update_directory_row perm now i d =
     Some (d\<lparr>directories := map (\<lambda>r. if did r = i
        then r\<lparr>dpermission := perm, dupdated := now\<rparr> else r) (directories d)\<rparr>)"

definition update_file_row :: "int \<Rightarrow> int \<Rightarrow> int \<Rightarrow> string \<Rightarrow> int \<Rightarrow> db \<Rightarrow> db option" where
  "update_file_row sz perm md now i d =
     (if \<not> has_user d md \<and> i \<in> fid ` set (files d) then None
      else Some (d\<lparr>files := map (\<lambda>r. if fid r = i
        then r\<lparr>fsize := sz, fpermission := perm, fmodified := Some md, fupdated := now\<rparr>
        else r) (files d)\<rparr>))"

section \<open>Deletions\<close>

text \<open>The directories below the given ones, them included.\<close>

definition below :: "int list \<Rightarrow> directory \<Rightarrow> bool" where
  "below ids r \<longleftrightarrow> did r \<notin> set ids \<and> (\<exists>p \<in> set_option (dparent r). p \<in> set ids)"

function dir_closure :: "directory list \<Rightarrow> int list \<Rightarrow> int list" where
  "dir_closure rows ids =
     (let new = filter (below ids) rows
      in if new = [] then ids else dir_closure rows (ids @ map did new))"
  by pat_completeness auto
termination
proof (relation "measure (\<lambda>(rows, ids). length (filter (\<lambda>r. did r \<notin> set ids) rows))", goal_cases)
  case (2 rows ids new)
  then obtain r where r: "r \<in> set rows" "below ids r"
    by (metis filter_empty_conv)
  let ?P = "\<lambda>r. did r \<notin> set ids" and ?Q = "\<lambda>r. did r \<notin> set (ids @ map did new)"
  have "filter ?Q rows = filter ?Q (filter ?P rows)" by (auto intro!: filter_cong)
  moreover have "length (filter ?Q (filter ?P rows)) < length (filter ?P rows)"
    by (rule length_filter_less [of r]) (use 2 r in \<open>auto simp: below_def\<close>)
  ultimately show ?case by simp
qed simp

declare dir_closure.simps [simp del]

definition remove_dirs :: "int list \<Rightarrow> db \<Rightarrow> db" where
  "remove_dirs ids d =
     d\<lparr>directories := filter (\<lambda>r. did r \<notin> set ids) (directories d),
       files := filter (\<lambda>r. \<forall>p \<in> set_option (fdirectory r). p \<notin> set ids) (files d)\<rparr>"

definition delete_directory_row :: "int \<Rightarrow> db \<Rightarrow> db" where
  "delete_directory_row i d =
     (if has_dir d i then remove_dirs (dir_closure (directories d) [i]) d else d)"

text \<open>The rows that refer to a group go with it.\<close>

definition delete_groups :: "int list \<Rightarrow> db \<Rightarrow> db" where
  "delete_groups gs d =
     (let d = remove_dirs (dir_closure (directories d)
                (map did (filter (\<lambda>r. dgroup r \<in> set gs) (directories d)))) d
      in d\<lparr>groups := filter (\<lambda>r. gid r \<notin> set gs) (groups d),
           group_members := filter (\<lambda>r. mgroup r \<notin> set gs) (group_members d),
           files := filter (\<lambda>r. fgroup r \<notin> set gs) (files d)\<rparr>)"

definition delete_group_row :: "int \<Rightarrow> db \<Rightarrow> db" where
  "delete_group_row i d = delete_groups [i] d"

text \<open>
  A user's sessions, groups, memberships, directories and files go with it; a file of somebody
  else that the user modified last keeps it from being deleted.
\<close>

definition delete_user_row :: "int \<Rightarrow> db \<Rightarrow> db option" where
  "delete_user_row i d =
     (let d1 = delete_groups (map gid (filter (\<lambda>r. gowner r = i) (groups d))) d;
          d2 = remove_dirs (dir_closure (directories d1)
                 (map did (filter (\<lambda>r. downer r = i) (directories d1)))) d1;
          d3 = d2\<lparr>users := filter (\<lambda>r. uid r \<noteq> i) (users d2),
                  sessions := filter (\<lambda>r. suser r \<noteq> i) (sessions d2),
                  group_members := filter (\<lambda>r. muser r \<noteq> i) (group_members d2),
                  files := filter (\<lambda>r. fowner r \<noteq> i) (files d2)\<rparr>
      in if \<exists>r \<in> set (files d3). fmodified r = Some i then None else Some d3)"

definition delete_session_row :: "int \<Rightarrow> db \<Rightarrow> db" where
  "delete_session_row i d = d\<lparr>sessions := filter (\<lambda>r. sid r \<noteq> i) (sessions d)\<rparr>"

definition delete_member_row :: "int \<Rightarrow> int \<Rightarrow> db \<Rightarrow> db" where
  "delete_member_row g u d =
     d\<lparr>group_members := filter (\<lambda>r. \<not> (mgroup r = g \<and> muser r = u)) (group_members d)\<rparr>"

definition delete_file_row :: "int \<Rightarrow> db \<Rightarrow> db" where
  "delete_file_row i d = d\<lparr>files := filter (\<lambda>r. fid r \<noteq> i) (files d)\<rparr>"

text \<open>\<open>ORDER BY updated_at DESC\<close>, rows of the same time in the order of their keys.\<close>

definition order_desc :: "('r \<Rightarrow> string) \<Rightarrow> 'r list \<Rightarrow> 'r list" where
  "order_desc k rows = rev (sort_key k (rev rows))"

section \<open>The schema as an invariant\<close>

definition fresh_ids :: "int list \<Rightarrow> int \<Rightarrow> bool" where
  "fresh_ids ids n \<longleftrightarrow> distinct ids \<and> (\<forall>i \<in> set ids. 0 < i \<and> i < n) \<and> 0 < n"

definition db_keys :: "db \<Rightarrow> bool" where
  "db_keys d \<longleftrightarrow>
     fresh_ids (map uid (users d)) (next_user d) \<and> fresh_ids (map sid (sessions d)) (next_session d)
   \<and> fresh_ids (map gid (groups d)) (next_group d) \<and> fresh_ids (map did (directories d)) (next_directory d)
   \<and> fresh_ids (map fid (files d)) (next_file d)"

definition db_unique :: "db \<Rightarrow> bool" where
  "db_unique d \<longleftrightarrow>
     distinct (map username (users d)) \<and> distinct (map stoken (sessions d))
   \<and> distinct (map gname (groups d)) \<and> distinct (map gcode (groups d)) \<and> distinct (group_members d)
   \<and> distinct (map dir_key (filter (\<lambda>r. dparent r \<noteq> None) (directories d)))
   \<and> distinct (map file_key (files d))"

definition opt_refs :: "('r \<Rightarrow> int option) \<Rightarrow> 'r list \<Rightarrow> int set" where
  "opt_refs f rows = (\<Union>r \<in> set rows. set_option (f r))"

definition db_refs :: "db \<Rightarrow> bool" where
  "db_refs d \<longleftrightarrow>
     (let us = uid ` set (users d); gs = gid ` set (groups d); ds = did ` set (directories d)
      in suser ` set (sessions d) \<subseteq> us \<and> gowner ` set (groups d) \<subseteq> us
       \<and> mgroup ` set (group_members d) \<subseteq> gs \<and> muser ` set (group_members d) \<subseteq> us
       \<and> dgroup ` set (directories d) \<subseteq> gs \<and> downer ` set (directories d) \<subseteq> us
       \<and> opt_refs dparent (directories d) \<subseteq> ds
       \<and> fgroup ` set (files d) \<subseteq> gs \<and> fowner ` set (files d) \<subseteq> us
       \<and> opt_refs fdirectory (files d) \<subseteq> ds \<and> opt_refs fmodified (files d) \<subseteq> us)"

definition db_wf :: "db \<Rightarrow> bool" where
  "db_wf d \<longleftrightarrow> db_keys d \<and> db_unique d \<and> db_refs d"

lemmas db_wf_defs = db_wf_def db_keys_def db_unique_def db_refs_def Let_def
  has_user_def has_group_def has_dir_def

lemma opt_refs_simps [simp]:
  "opt_refs f [] = {}" "opt_refs f (xs @ ys) = opt_refs f xs \<union> opt_refs f ys"
  "opt_refs f [x] = set_option (f x)"
  by (auto simp: opt_refs_def)

lemma opt_refs_map: "(\<And>x. f (g x) = f x) \<Longrightarrow> opt_refs f (map g xs) = opt_refs f xs"
  by (simp add: opt_refs_def)

lemma opt_refs_filter: "opt_refs f (filter P xs) \<subseteq> opt_refs f xs"
  by (auto simp: opt_refs_def)

lemma fresh_ids_snoc [simp]: "fresh_ids (ids @ [n]) (n + 1) \<longleftrightarrow> fresh_ids ids n"
  by (auto simp: fresh_ids_def) (metis less_le)

lemma fresh_ids_filter: "fresh_ids (map f xs) n \<Longrightarrow> fresh_ids (map f (filter P xs)) n"
  by (auto simp: fresh_ids_def distinct_map_filter)

lemma db_wf_empty [simp, wf_rules]: "db_wf empty_db"
  by (simp add: db_wf_defs empty_db_def fresh_ids_def)

lemma insert_user_wf [wf_rules]: "insert_user dn un pw d = Some d' \<Longrightarrow> db_wf d \<Longrightarrow> db_wf d'"
  by (clarsimp simp: insert_user_def db_wf_defs subset_insertI2 split: if_splits)

lemma insert_session_wf [wf_rules]: "insert_session u token now d = Some d' \<Longrightarrow> db_wf d \<Longrightarrow> db_wf d'"
  by (clarsimp simp: insert_session_def db_wf_defs split: if_splits)

lemma insert_group_wf [wf_rules]:
  "insert_group nm desc av ow st code now d = Some d' \<Longrightarrow> db_wf d \<Longrightarrow> db_wf d'"
  by (clarsimp simp: insert_group_def db_wf_defs subset_insertI2 split: if_splits)

lemma insert_member_wf [wf_rules]: "insert_member g u d = Some d' \<Longrightarrow> db_wf d \<Longrightarrow> db_wf d'"
  by (clarsimp simp: insert_member_def db_wf_defs split: if_splits)

lemma insert_directory_wf [wf_rules]:
  "insert_directory nm ow g parent path perm now d = Some d' \<Longrightarrow> db_wf d \<Longrightarrow> db_wf d'"
  unfolding insert_directory_def db_wf_defs
  by (cases parent; clarsimp simp: dir_key_def subset_insertI2 split: if_splits)
     (simp add: image_iff; metis)

lemma insert_file_wf [wf_rules]:
  "insert_file nm sz perm path dir g ow md now d = Some d' \<Longrightarrow> db_wf d \<Longrightarrow> db_wf d'"
  unfolding insert_file_def db_wf_defs
  by (clarsimp simp: file_key_def subset_insertI2 split: if_splits)

section \<open>Updates keep it\<close>

lemma distinct_map_update:
  assumes "distinct (map i xs)" and "distinct (map k xs)" and "\<forall>x \<in> set xs. i x \<noteq> j \<longrightarrow> k x \<noteq> v"
  shows "distinct (map (\<lambda>x. if i x = j then v else k x) xs)"
  using assms by (auto simp: distinct_map inj_on_def)

lemma map_update:
  "map k (map (\<lambda>x. if c x then f x else x) xs) = map (\<lambda>x. if c x then k (f x) else k x) xs"
  by simp

text \<open>A column that an update leaves alone.\<close>

lemma map_update_same:
  "(\<And>x. c x \<Longrightarrow> k (f x) = k x) \<Longrightarrow> map k (map (\<lambda>x. if c x then f x else x) xs) = map k xs"
  by simp

lemma image_update_same:
  "(\<And>x. c x \<Longrightarrow> k (f x) = k x) \<Longrightarrow> k ` set (map (\<lambda>x. if c x then f x else x) xs) = k ` set xs"
  by (simp only: set_map [symmetric] map_update_same)

lemma opt_refs_update_same:
  "(\<And>x. c x \<Longrightarrow> k (f x) = k x) \<Longrightarrow> opt_refs k (map (\<lambda>x. if c x then f x else x) xs) = opt_refs k xs"
  by (auto simp: opt_refs_def)

lemmas update_same = map_update_same image_update_same opt_refs_update_same

lemma update_user_wf [wf_rules]:
  assumes "update_user_row u d = Some d'" and "db_wf d"
  shows "db_wf d'"
proof -
  define us where "us = map (\<lambda>r. if uid r = uid u then u else r) (users d)"
  have d': "d' = d\<lparr>users := us\<rparr>"
    and un: "\<forall>r \<in> set (users d). uid r \<noteq> uid u \<longrightarrow> username r = username u \<longrightarrow> \<not> has_user d (uid u)"
    using assms(1) by (auto simp: update_user_row_def us_def split: if_splits)
  have ids: "map uid us = map uid (users d)" "uid ` set us = uid ` set (users d)"
    unfolding us_def by (rule map_update_same, simp) (rule image_update_same, simp)
  have w: "distinct (map uid (users d))" "distinct (map username (users d))"
    using assms(2) by (auto simp: db_wf_defs fresh_ids_def)
  have "distinct (map username us)"
  proof (cases "has_user d (uid u)")
    case True
    then have "\<forall>x \<in> set (users d). uid x \<noteq> uid u \<longrightarrow> username x \<noteq> username u" using un by auto
    then show ?thesis unfolding us_def map_update by (intro distinct_map_update w)
  next
    case False
    then have "us = users d" unfolding us_def by (intro map_idI) (auto simp: has_user_def image_iff)
    then show ?thesis using w(2) by simp
  qed
  then show ?thesis using assms(2) ids
    by (simp add: d' db_wf_def db_keys_def db_unique_def db_refs_def Let_def)
qed

lemma update_group_wf [wf_rules]:
  assumes "update_group_row nm desc av st i d = Some d'" and "db_wf d"
  shows "db_wf d'"
proof -
  let ?f = "\<lambda>r. r\<lparr>gname := nm, gdescription := desc, gavatar := av, gstatus := st\<rparr>"
  define gs where "gs = map (\<lambda>r. if gid r = i then ?f r else r) (groups d)"
  have d': "d' = d\<lparr>groups := gs\<rparr>"
    and un: "\<forall>r \<in> set (groups d). gid r \<noteq> i \<longrightarrow> gname r = nm \<longrightarrow> \<not> has_group d i"
    using assms(1) by (auto simp: update_group_row_def gs_def split: if_splits)
  have same: "map gid gs = map gid (groups d)" "gid ` set gs = gid ` set (groups d)"
    "map gcode gs = map gcode (groups d)" "gowner ` set gs = gowner ` set (groups d)"
    unfolding gs_def by (rule update_same, simp)+
  have w: "distinct (map gid (groups d))" "distinct (map gname (groups d))"
    using assms(2) by (auto simp: db_wf_defs fresh_ids_def)
  have "distinct (map gname gs)"
  proof (cases "has_group d i")
    case True
    then have "\<forall>x \<in> set (groups d). gid x \<noteq> i \<longrightarrow> gname x \<noteq> nm" using un by auto
    then have "distinct (map (\<lambda>x. if gid x = i then nm else gname x) (groups d))"
      by (intro distinct_map_update w)
    moreover have "map gname gs = map (\<lambda>x. if gid x = i then nm else gname x) (groups d)"
      by (simp add: gs_def)
    ultimately show ?thesis by simp
  next
    case False
    then have "gs = groups d" unfolding gs_def by (intro map_idI) (auto simp: has_group_def image_iff)
    then show ?thesis using w(2) by simp
  qed
  then show ?thesis using assms(2) same
    by (simp add: d' db_wf_def db_keys_def db_unique_def db_refs_def Let_def)
qed

lemma filter_update:
  "(\<And>x. c x \<Longrightarrow> P (f x) = P x) \<Longrightarrow>
   filter P (map (\<lambda>x. if c x then f x else x) xs) = map (\<lambda>x. if c x then f x else x) (filter P xs)"
  by (induction xs) auto

lemma update_directory_wf [wf_rules]:
  assumes "update_directory_row perm now i d = Some d'" and "db_wf d"
  shows "db_wf d'"
proof -
  define ds where "ds = map (\<lambda>r. if did r = i then r\<lparr>dpermission := perm, dupdated := now\<rparr> else r) (directories d)"
  have d': "d' = d\<lparr>directories := ds\<rparr>" using assms(1) by (simp add: update_directory_row_def ds_def)
  have same: "map did ds = map did (directories d)" "did ` set ds = did ` set (directories d)"
    "dgroup ` set ds = dgroup ` set (directories d)" "downer ` set ds = downer ` set (directories d)"
    "opt_refs dparent ds = opt_refs dparent (directories d)"
    unfolding ds_def by (rule update_same, simp)+
  have "map dir_key (filter (\<lambda>r. dparent r \<noteq> None) ds)
      = map dir_key (filter (\<lambda>r. dparent r \<noteq> None) (directories d))"
    unfolding ds_def by (subst filter_update, simp, rule map_update_same, simp add: dir_key_def)
  then show ?thesis using assms(2) same
    by (simp add: d' db_wf_def db_keys_def db_unique_def db_refs_def Let_def)
qed

lemma update_file_wf [wf_rules]:
  assumes "update_file_row sz perm md now i d = Some d'" and "db_wf d"
  shows "db_wf d'"
proof -
  let ?f = "\<lambda>r. r\<lparr>fsize := sz, fpermission := perm, fmodified := Some md, fupdated := now\<rparr>"
  define fs where "fs = map (\<lambda>r. if fid r = i then ?f r else r) (files d)"
  have d': "d' = d\<lparr>files := fs\<rparr>" and md: "i \<in> fid ` set (files d) \<longrightarrow> has_user d md"
    using assms(1) by (auto simp: update_file_row_def fs_def split: if_splits)
  have same: "map fid fs = map fid (files d)" "map file_key fs = map file_key (files d)"
    "fgroup ` set fs = fgroup ` set (files d)" "fowner ` set fs = fowner ` set (files d)"
    "opt_refs fdirectory fs = opt_refs fdirectory (files d)"
    unfolding fs_def by (rule update_same, simp add: file_key_def)+
  have "opt_refs fmodified fs \<subseteq> opt_refs fmodified (files d) \<union> (if i \<in> fid ` set (files d) then {md} else {})"
    by (auto simp: fs_def opt_refs_def split: if_splits)
  moreover have "opt_refs fmodified (files d) \<subseteq> uid ` set (users d)"
    using assms(2) by (simp add: db_wf_defs)
  moreover have "(if i \<in> fid ` set (files d) then {md} else {}) \<subseteq> uid ` set (users d)"
    using md by (auto simp: has_user_def)
  ultimately have "opt_refs fmodified fs \<subseteq> uid ` set (users d)" by blast
  then show ?thesis using assms(2) same
    by (simp add: d' db_wf_def db_keys_def db_unique_def db_refs_def Let_def)
qed

section \<open>Deletions keep it\<close>

lemma dir_closure_contains: "set ids \<subseteq> set (dir_closure rows ids)"
proof (induction rows ids rule: dir_closure.induct)
  case (1 rows ids)
  then show ?case by (subst dir_closure.simps) (auto simp: Let_def)
qed

text \<open>The closure contains every child of a directory it contains.\<close>

lemma dir_closure_closed:
  "r \<in> set rows \<Longrightarrow> dparent r = Some p \<Longrightarrow> p \<in> set (dir_closure rows ids) \<Longrightarrow>
   did r \<in> set (dir_closure rows ids)"
proof (induction rows ids rule: dir_closure.induct)
  case (1 rows ids)
  show ?case
  proof (cases "filter (below ids) rows = []")
    case True
    then have "\<not> below ids r" using 1(2) by (simp add: filter_empty_conv)
    moreover have "dir_closure rows ids = ids" using True by (subst dir_closure.simps) simp
    ultimately show ?thesis using 1(3,4) by (auto simp: below_def)
  next
    case False
    then have "dir_closure rows ids = dir_closure rows (ids @ map did (filter (below ids) rows))"
      by (subst dir_closure.simps) (simp add: Let_def)
    then show ?thesis using 1 False by simp
  qed
qed

definition closed_dirs :: "int list \<Rightarrow> db \<Rightarrow> bool" where
  "closed_dirs ids d \<longleftrightarrow>
     (\<forall>r \<in> set (directories d). \<forall>p \<in> set_option (dparent r). p \<in> set ids \<longrightarrow> did r \<in> set ids)"

lemma closed_dir_closure: "closed_dirs (dir_closure (directories d) ids) d"
  by (auto simp: closed_dirs_def intro: dir_closure_closed)

lemma remove_dirs_wf [wf_rules]:
  assumes "closed_dirs ids d" and "db_wf d"
  shows "db_wf (remove_dirs ids d)"
proof -
  define ds where "ds = filter (\<lambda>r. did r \<notin> set ids) (directories d)"
  define fs where "fs = filter (\<lambda>r. \<forall>p \<in> set_option (fdirectory r). p \<notin> set ids) (files d)"
  have d': "remove_dirs ids d = d\<lparr>directories := ds, files := fs\<rparr>"
    by (simp add: remove_dirs_def ds_def fs_def)
  have keys: "fresh_ids (map did ds) (next_directory d)" "fresh_ids (map fid fs) (next_file d)"
    using assms(2) unfolding ds_def fs_def db_wf_def db_keys_def by (auto intro: fresh_ids_filter)
  have "filter (\<lambda>r. dparent r \<noteq> None) ds
      = filter (\<lambda>r. did r \<notin> set ids) (filter (\<lambda>r. dparent r \<noteq> None) (directories d))"
    unfolding ds_def by (simp add: conj_commute)
  then have uniq: "distinct (map dir_key (filter (\<lambda>r. dparent r \<noteq> None) ds))" "distinct (map file_key fs)"
    using assms(2) unfolding fs_def db_wf_def db_unique_def by (simp_all only: distinct_map_filter)
  have sub: "set ds \<subseteq> set (directories d)" "set fs \<subseteq> set (files d)" by (auto simp: ds_def fs_def)
  have "opt_refs dparent ds \<subseteq> did ` set ds" "opt_refs fdirectory fs \<subseteq> did ` set ds"
  proof -
    have r: "opt_refs dparent (directories d) \<subseteq> did ` set (directories d)"
      "opt_refs fdirectory (files d) \<subseteq> did ` set (directories d)"
      using assms(2) by (simp_all add: db_wf_defs)
    have "opt_refs dparent ds \<inter> set ids = {}"
      using assms(1) by (auto simp: closed_dirs_def opt_refs_def ds_def)
    moreover have "opt_refs dparent ds \<subseteq> opt_refs dparent (directories d)"
      unfolding ds_def by (rule opt_refs_filter)
    ultimately have "opt_refs dparent ds \<subseteq> did ` set (directories d) - set ids" using r(1) by blast
    moreover have "opt_refs fdirectory fs \<subseteq> did ` set (directories d) - set ids"
    proof -
      have "opt_refs fdirectory fs \<inter> set ids = {}" by (auto simp: opt_refs_def fs_def)
      moreover have "opt_refs fdirectory fs \<subseteq> opt_refs fdirectory (files d)"
        unfolding fs_def by (rule opt_refs_filter)
      ultimately show ?thesis using r(2) by blast
    qed
    moreover have "did ` set (directories d) - set ids \<subseteq> did ` set ds" by (auto simp: ds_def)
    ultimately show "opt_refs dparent ds \<subseteq> did ` set ds" "opt_refs fdirectory fs \<subseteq> did ` set ds"
      by blast+
  qed
  moreover have w: "opt_refs fmodified (files d) \<subseteq> uid ` set (users d)"
    "dgroup ` set (directories d) \<subseteq> gid ` set (groups d)" "downer ` set (directories d) \<subseteq> uid ` set (users d)"
    "fgroup ` set (files d) \<subseteq> gid ` set (groups d)" "fowner ` set (files d) \<subseteq> uid ` set (users d)"
    using assms(2) by (simp_all add: db_wf_defs)
  moreover have "opt_refs fmodified fs \<subseteq> uid ` set (users d)"
    unfolding fs_def by (rule order_trans [OF opt_refs_filter w(1)])
  moreover note order_trans [OF image_mono [OF sub(1)] w(2)] order_trans [OF image_mono [OF sub(1)] w(3)]
    order_trans [OF image_mono [OF sub(2)] w(4)] order_trans [OF image_mono [OF sub(2)] w(5)]
  ultimately have refs: "db_refs (d\<lparr>directories := ds, files := fs\<rparr>)"
    using assms(2) unfolding db_wf_def db_refs_def Let_def by simp
  show ?thesis using assms(2) keys uniq refs unfolding d'
    by (simp add: db_wf_def db_keys_def db_unique_def)
qed

lemma delete_directory_wf [wf_rules]: "db_wf d \<Longrightarrow> db_wf (delete_directory_row i d)"
  by (simp add: delete_directory_row_def remove_dirs_wf closed_dir_closure)

text \<open>Dropping rows keeps keys and uniqueness; only the references have to be looked at.\<close>

lemma filter_tables_wf:
  assumes "db_wf d" and "db_refs d'"
    and "d' = d\<lparr>users := filter pu (users d), sessions := filter ps (sessions d),
          groups := filter pg (groups d), group_members := filter pm (group_members d),
          files := filter pf (files d)\<rparr>"
  shows "db_wf d'"
  using assms(1,2) unfolding assms(3) db_wf_def db_keys_def db_unique_def
  by (simp add: fresh_ids_filter distinct_map_filter)

lemma refs_filter_both:
  "f ` set xs \<subseteq> k ` set ys \<Longrightarrow> f ` set (filter (\<lambda>r. f r \<notin> S) xs) \<subseteq> k ` set (filter (\<lambda>r. k r \<notin> S) ys)"
  by auto

lemma refs_filter_target:
  "f ` set xs \<subseteq> k ` set ys \<Longrightarrow> \<forall>r \<in> set xs. f r \<notin> S \<Longrightarrow> f ` set xs \<subseteq> k ` set (filter (\<lambda>r. k r \<notin> S) ys)"
  by (simp add: subset_iff image_iff) metis

lemma refs_filter_source: "f ` set xs \<subseteq> A \<Longrightarrow> f ` set (filter P xs) \<subseteq> A"
  by auto

lemma opt_refs_filter_source: "opt_refs f xs \<subseteq> A \<Longrightarrow> opt_refs f (filter P xs) \<subseteq> A"
  using opt_refs_filter [of f P xs] by blast

lemma refs_filter_both_neq:
  "f ` set xs \<subseteq> k ` set ys \<Longrightarrow> f ` set (filter (\<lambda>r. f r \<noteq> i) xs) \<subseteq> k ` set (filter (\<lambda>r. k r \<noteq> i) ys)"
  by auto

lemma refs_filter_target_neq:
  "f ` set xs \<subseteq> k ` set ys \<Longrightarrow> \<forall>r \<in> set xs. f r \<noteq> i \<Longrightarrow> f ` set xs \<subseteq> k ` set (filter (\<lambda>r. k r \<noteq> i) ys)"
  by (simp add: subset_iff image_iff) metis

lemmas refs_filters = refs_filter_source opt_refs_filter_source

lemma remove_closure_gone:
  assumes "d1 = remove_dirs (dir_closure (directories d) (map did (filter P (directories d)))) d"
  shows "\<forall>r \<in> set (directories d1). \<not> P r"
  using dir_closure_contains [of "map did (filter P (directories d))" "directories d"]
  by (auto simp: assms remove_dirs_def)

lemma delete_groups_wf [wf_rules]:
  assumes "db_wf d"
  shows "db_wf (delete_groups gs d)"
proof -
  define d1 where d1: "d1 = remove_dirs (dir_closure (directories d)
      (map did (filter (\<lambda>r. dgroup r \<in> set gs) (directories d)))) d"
  have w: "db_wf d1" using assms unfolding d1 by (intro remove_dirs_wf closed_dir_closure)
  have g: "\<forall>r \<in> set (directories d1). dgroup r \<notin> set gs" using remove_closure_gone [OF d1] by simp
  define d' where d': "d' = d1\<lparr>users := filter (\<lambda>_. True) (users d1), sessions := filter (\<lambda>_. True) (sessions d1),
      groups := filter (\<lambda>r. gid r \<notin> set gs) (groups d1),
      group_members := filter (\<lambda>r. mgroup r \<notin> set gs) (group_members d1),
      files := filter (\<lambda>r. fgroup r \<notin> set gs) (files d1)\<rparr>"
  have r: "mgroup ` set (group_members d1) \<subseteq> gid ` set (groups d1)"
    "dgroup ` set (directories d1) \<subseteq> gid ` set (groups d1)" "fgroup ` set (files d1) \<subseteq> gid ` set (groups d1)"
    "gowner ` set (groups d1) \<subseteq> uid ` set (users d1)" "muser ` set (group_members d1) \<subseteq> uid ` set (users d1)"
    "fowner ` set (files d1) \<subseteq> uid ` set (users d1)"
    "opt_refs fdirectory (files d1) \<subseteq> did ` set (directories d1)"
    "opt_refs fmodified (files d1) \<subseteq> uid ` set (users d1)"
    using w by (simp_all add: db_wf_defs)
  have "db_refs d'"
    using w unfolding db_wf_def db_refs_def Let_def d'
    by (simp add: refs_filter_both [OF r(1)] refs_filter_target [OF r(2) g] refs_filter_both [OF r(3)]
        refs_filter_source [OF r(4)] refs_filter_source [OF r(5)] refs_filter_source [OF r(6)]
        opt_refs_filter_source [OF r(7)] opt_refs_filter_source [OF r(8)] del: set_filter)
  then have "db_wf d'" by (rule filter_tables_wf [OF w _ d'])
  moreover have "d' = delete_groups gs d" unfolding d' delete_groups_def Let_def d1 by simp
  ultimately show ?thesis by simp
qed

lemma delete_group_wf [wf_rules]: "db_wf d \<Longrightarrow> db_wf (delete_group_row i d)"
  by (simp add: delete_group_row_def delete_groups_wf)

lemma delete_session_wf [wf_rules]: "db_wf d \<Longrightarrow> db_wf (delete_session_row i d)"
  unfolding delete_session_row_def db_wf_def db_keys_def db_unique_def db_refs_def Let_def
  by (simp add: fresh_ids_filter distinct_map_filter refs_filters del: set_filter)

lemma delete_member_wf [wf_rules]: "db_wf d \<Longrightarrow> db_wf (delete_member_row g u d)"
  unfolding delete_member_row_def db_wf_def db_keys_def db_unique_def db_refs_def Let_def
  by (simp add: fresh_ids_filter distinct_map_filter refs_filters del: set_filter)

lemma delete_file_wf [wf_rules]: "db_wf d \<Longrightarrow> db_wf (delete_file_row i d)"
  unfolding delete_file_row_def db_wf_def db_keys_def db_unique_def db_refs_def Let_def
  by (simp add: fresh_ids_filter distinct_map_filter refs_filters del: set_filter)

lemma delete_user_wf [wf_rules]:
  assumes "delete_user_row i d = Some d'" and "db_wf d"
  shows "db_wf d'"
proof -
  let ?gs = "map gid (filter (\<lambda>r. gowner r = i) (groups d))"
  define d1 where d1: "d1 = delete_groups ?gs d"
  define d2 where d2: "d2 = remove_dirs (dir_closure (directories d1)
      (map did (filter (\<lambda>r. downer r = i) (directories d1)))) d1"
  have w: "db_wf d2" using assms(2) unfolding d1 d2
    by (intro remove_dirs_wf closed_dir_closure delete_groups_wf)
  have ds: "\<forall>r \<in> set (directories d2). downer r \<noteq> i" using remove_closure_gone [OF d2] by simp
  have gs: "\<forall>r \<in> set (groups d2). gowner r \<noteq> i"
    by (auto simp: d2 d1 delete_groups_def remove_dirs_def Let_def)
  define d3 where d3: "d3 = d2\<lparr>users := filter (\<lambda>r. uid r \<noteq> i) (users d2),
      sessions := filter (\<lambda>r. suser r \<noteq> i) (sessions d2), groups := filter (\<lambda>_. True) (groups d2),
      group_members := filter (\<lambda>r. muser r \<noteq> i) (group_members d2),
      files := filter (\<lambda>r. fowner r \<noteq> i) (files d2)\<rparr>"
  have d': "d' = d3" and fm: "\<forall>r \<in> set (files d3). fmodified r \<noteq> Some i"
    using assms(1) by (auto simp: delete_user_row_def Let_def d3 d2 d1 split: if_splits)
  have r: "suser ` set (sessions d2) \<subseteq> uid ` set (users d2)" "muser ` set (group_members d2) \<subseteq> uid ` set (users d2)"
    "fowner ` set (files d2) \<subseteq> uid ` set (users d2)" "gowner ` set (groups d2) \<subseteq> uid ` set (users d2)"
    "downer ` set (directories d2) \<subseteq> uid ` set (users d2)"
    using w by (simp_all add: db_wf_defs)
  have "opt_refs fmodified (files d3) \<subseteq> uid ` set (filter (\<lambda>r. uid r \<noteq> i) (users d2))"
  proof -
    have "opt_refs fmodified (files d3) \<subseteq> uid ` set (users d2)"
      using w by (simp add: d3 db_wf_def db_refs_def Let_def opt_refs_filter_source)
    moreover have "i \<notin> opt_refs fmodified (files d3)" using fm by (auto simp: opt_refs_def)
    ultimately show ?thesis by auto
  qed
  then have "db_refs d3"
    using w ds gs unfolding db_wf_def db_refs_def Let_def d3
    by (simp add: refs_filter_both_neq [OF r(1)] refs_filter_both_neq [OF r(2)]
        refs_filter_both_neq [OF r(3)] refs_filter_target_neq [OF r(4) gs]
        refs_filter_target_neq [OF r(5) ds] refs_filters del: set_filter)
  then show ?thesis using w unfolding d' by (rule filter_tables_wf [OF _ _ d3, rotated])
qed

end
