(* ===== verification/Http_Response.thy ===== *)
theory Http_Response
  imports C_String
begin

text \<open>
  The fixed responses and the response formats of \<open>src/http/helper/helper.c\<close>. A response that is
  printed into a block returns the block's contents, or \<open>Out_Of_Bounds\<close> if the text with its NUL
  does not fit the block.
\<close>

definition CRLF :: string where
  "CRLF = [CHR 0x0D, CHR 0x0A]"

definition empty_response :: "string \<Rightarrow> string" where
  "empty_response status =
     ''HTTP/1.1 '' @ status @ CRLF @ ''Connection: close'' @ CRLF @ ''Content-Length: 0'' @ CRLF @ CRLF"

definition format_404 :: string where "format_404 = empty_response ''404 Not Found''"

definition format_403 :: string where "format_403 = empty_response ''403 Forbidden''"

definition format_401 :: string where "format_401 = empty_response ''401 Unauthorized''"

definition format_400 :: string where "format_400 = empty_response ''400 Bad Request''"

definition format_500 :: string where "format_500 = empty_response ''500 Internal Server Error''"

definition format_501 :: string where "format_501 = empty_response ''501 Not Implemented''"

definition format_505 :: string where
  "format_505 = empty_response ''505 HTTP Version Not Supported''"

definition format_422 :: string where "format_422 = empty_response ''422 Unprocessable Entity''"

definition format_409 :: string where "format_409 = empty_response ''409 Conflict''"

definition format_200 :: string where "format_200 = empty_response ''200 OK''"

text \<open>\<open>sprintf\<close> into a block of the given capacity.\<close>

definition sprintf :: "nat \<Rightarrow> string \<Rightarrow> string run" where
  "sprintf capacity s = (if length s < capacity then Inr s else Inl Out_Of_Bounds)"

definition content_response :: "string \<Rightarrow> string \<Rightarrow> string \<Rightarrow> string" where
  "content_response content_type content_length content =
     ''HTTP/1.1 200 OK'' @ CRLF @ ''Connection: close'' @ CRLF
     @ ''Content-Length: '' @ content_length @ CRLF
     @ ''Content-Type: '' @ content_type @ CRLF @ CRLF @ content @ CRLF"

definition format_200_with_content :: "string \<Rightarrow> string run" where
  "format_200_with_content content =
     sprintf (length content + 100)
       (content_response ''text/html'' (show_nat (length content)) content)"

definition format_200_with_content_type :: "string \<Rightarrow> string \<Rightarrow> string run" where
  "format_200_with_content_type content content_type =
     sprintf (length content + 100)
       (content_response content_type (show_nat (length content)) content)"

definition format_200_with_content_type_and_length :: "string \<Rightarrow> string \<Rightarrow> int \<Rightarrow> string run" where
  "format_200_with_content_type_and_length content content_type content_length =
     sprintf (length content + 100)
       (content_response content_type (show_int content_length) content)"

section \<open>The block is large enough\<close>

lemma length_content_response:
  "length (content_response ty n c) = 74 + length ty + length n + length c"
  by (simp add: content_response_def CRLF_def)

lemma format_with_type_fits:
  "length (format_ty :: string) + length (show_nat (length content)) < 26 \<Longrightarrow>
   format_200_with_content_type content format_ty
   = Inr (content_response format_ty (show_nat (length content)) content)"
  by (simp add: format_200_with_content_type_def sprintf_def length_content_response)

lemma json_response_fits:
  "length content < 10 ^ 9 \<Longrightarrow>
   format_200_with_content_type content ''application/json''
   = Inr (content_response ''application/json'' (show_nat (length content)) content)"
  using length_show_nat_le [of "length content" 9]
  by (intro format_with_type_fits) simp

section \<open>Properties\<close>

text \<open>
  The block of \<open>strlen(content) + 100\<close> bytes is overrun exactly when the content type and the
  digits of the length have 26 characters or more together; otherwise the response announces
  the length of the content, which it contains followed by a line end that is not counted.
\<close>

lemma response_block_bound:
  "format_200_with_content_type content content_type =
    (if length content_type + length (show_nat (length content)) < 26
     then Inr (''HTTP/1.1 200 OK'' @ CRLF @ ''Connection: close'' @ CRLF
            @ ''Content-Length: '' @ show_nat (length content) @ CRLF
            @ ''Content-Type: '' @ content_type @ CRLF @ CRLF @ content @ CRLF)
     else Inl Out_Of_Bounds)"
proof (cases "length content_type + length (show_nat (length content)) < 26")
  case True
  then show ?thesis
    by (simp only: format_with_type_fits if_True content_response_def)
next
  case False
  then show ?thesis
    by (simp only: format_200_with_content_type_def sprintf_def length_content_response if_False) simp
qed

end
