(* ===== verification/App_State.thy ===== *)
theory App_State
  imports Sql_Tables Http_Response
begin

text \<open>
  The state the request handlers work on, and the actions of the outside world they use.

  An action maps a state to a value and a new state, or faults. The state holds the tables and the
  calls made to the operating system. The record \<open>env\<close> holds what the program does not determine:
  whether an SQL statement or a system call fails (as functions of the history, so that any
  sequence of outcomes is possible), random numbers and times, the bytes the allocator leaves
  behind a string (\<open>slk\<close>), the usable size of a block obtained from \<open>malloc\<close> (\<open>usable\<close>: at least the
  size asked for on any platform), and what \<open>printf\<close> makes of a pointer that was never set
  (\<open>garbage\<close>).

  The database pool is the one \<open>connect_db\<close> registered; looking it up is not repeated here.
\<close>

section \<open>The world\<close>

datatype os_call =
    Mkdir string | Stat string | Unlink string | Rmdir string | Remove string | Access string
  | Rename string string

datatype fs_tree = Regular | Folder fs_entries
  and fs_entries = No_Entry | Entry string fs_tree fs_entries

record env =
  usable :: "nat \<Rightarrow> nat"
  slk :: slack
  garbage :: string
  table_junk :: "char \<Rightarrow> char"
  db_fails :: "nat \<Rightarrow> bool"
  os_ok :: "os_call list \<Rightarrow> os_call \<Rightarrow> bool"
  os_tree :: "os_call list \<Rightarrow> string \<Rightarrow> fs_tree"
  random_hex :: "nat \<Rightarrow> nat \<Rightarrow> string"
  clock :: "nat \<Rightarrow> string"
  local_clock :: "nat \<Rightarrow> string"
  now :: "nat \<Rightarrow> int"
  parse_time :: "string \<Rightarrow> int"

record app =
  db :: db
  db_calls :: nat
  os_calls :: "os_call list"

type_synonym 'a act = "app \<Rightarrow> ('a \<times> app) run"

definition ret :: "'a \<Rightarrow> 'a act" where
  "ret x = (\<lambda>s. Inr (x, s))"

definition bind :: "'a act \<Rightarrow> ('a \<Rightarrow> 'b act) \<Rightarrow> 'b act" where
  "bind m k = (\<lambda>s. and_then (m s) (\<lambda>(x, s'). k x s'))"

text \<open>A computation that does not touch the state.\<close>

definition lift :: "'a run \<Rightarrow> 'a act" where
  "lift r = (\<lambda>s. and_then r (\<lambda>x. Inr (x, s)))"

definition deref_act :: "'a option \<Rightarrow> 'a act" where
  "deref_act p = lift (deref p)"

section \<open>SQL statements\<close>

text \<open>
  \<open>pool->exec\<close> of a statement without a callback: true is \<open>SQLITE_OK\<close>. The statement fails when
  the engine fails or a constraint is violated; nothing is changed then.
\<close>

definition exec_update :: "env \<Rightarrow> (nat \<Rightarrow> db \<Rightarrow> db option) \<Rightarrow> bool act" where
  "exec_update e upd = (\<lambda>s.
     let n = db_calls s; s1 = s\<lparr>db_calls := n + 1\<rparr>
     in if db_fails e n then Inr (False, s1)
        else case upd n (db s) of None \<Rightarrow> Inr (False, s1) | Some d \<Rightarrow> Inr (True, s1\<lparr>db := d\<rparr>))"

text \<open>A SELECT: the rows, or None when \<open>exec\<close> does not return \<open>SQLITE_OK\<close>.\<close>

definition exec_query :: "env \<Rightarrow> (db \<Rightarrow> 'r list) \<Rightarrow> 'r list option act" where
  "exec_query e sel = (\<lambda>s.
     let n = db_calls s; s1 = s\<lparr>db_calls := n + 1\<rparr>
     in if db_fails e n then Inr (None, s1) else Inr (Some (sel (db s)), s1))"

definition last_insert_rowid :: "int act" where
  "last_insert_rowid = (\<lambda>s. Inr (last_rowid (db s), s))"

definition get_current_time :: "env \<Rightarrow> string act" where
  "get_current_time e = (\<lambda>s. Inr (local_clock e (db_calls s), s))"

text \<open>The callback is called for every row; what it stores for one row replaces the previous.\<close>

fun each_row :: "('r \<Rightarrow> 'a \<Rightarrow> 'a act) \<Rightarrow> 'r list \<Rightarrow> 'a \<Rightarrow> 'a act" where
  "each_row callback [] x = ret x"
| "each_row callback (r # rs) x = bind (callback r x) (each_row callback rs)"

text \<open>The rows a callback turns into one object, the last one if there are several.\<close>

definition find_one :: "env \<Rightarrow> (db \<Rightarrow> 'r list) \<Rightarrow> ('r \<Rightarrow> 'a run) \<Rightarrow> 'a option act" where
  "find_one e sel callback =
     bind (exec_query e sel) (\<lambda>rows.
       case rows of
         None \<Rightarrow> ret None
       | Some rs \<Rightarrow> each_row (\<lambda>r _. bind (lift (callback r)) (\<lambda>x. ret (Some x))) rs None)"

section \<open>Numbers as text\<close>

text \<open>\<open>sprintf\<close> into a block from \<open>malloc(n)\<close>.\<close>

definition sprintf_malloc :: "env \<Rightarrow> nat \<Rightarrow> string \<Rightarrow> string run" where
  "sprintf_malloc e n s = sprintf (usable e n) s"

definition convert_int_to_string :: "env \<Rightarrow> int \<Rightarrow> string run" where
  "convert_int_to_string e i = sprintf_malloc e 10 (show_int i)"

definition convert_long_to_string :: "env \<Rightarrow> int \<Rightarrow> string run" where
  "convert_long_to_string e l = sprintf_malloc e 10 (show_int l)"

text \<open>A number passed to a statement as text, where SQLite turns it into a number again.\<close>

definition bind_long :: "env \<Rightarrow> int \<Rightarrow> int run" where
  "bind_long e l = and_then (convert_long_to_string e l) (\<lambda>s. Inr (read_int s))"

definition bind_int :: "env \<Rightarrow> int \<Rightarrow> int run" where
  "bind_int e i = and_then (convert_int_to_string e i) (\<lambda>s. Inr (read_int s))"

text \<open>
  The value of a field of type \<open>enum Permission\<close>, an \<open>unsigned int\<close>, where it is converted to a
  \<open>long\<close>. The model keeps such a field as the \<open>int\<close> of the same 32 bits.
\<close>

definition enum_value :: "int \<Rightarrow> int" where
  "enum_value i = i mod 2 ^ 32"

section \<open>System calls\<close>

definition os_do :: "env \<Rightarrow> os_call \<Rightarrow> bool act" where
  "os_do e c = (\<lambda>s. Inr (os_ok e (os_calls s) c, s\<lparr>os_calls := os_calls s @ [c]\<rparr>))"

definition create_directory :: "env \<Rightarrow> string \<Rightarrow> bool act" where
  "create_directory e path = os_do e (Mkdir path)"

definition move_file :: "env \<Rightarrow> string \<Rightarrow> string \<Rightarrow> bool act" where
  "move_file e src dest = os_do e (Rename src dest)"

text \<open>
  The recursion over the directory tree that \<open>opendir\<close> and \<open>readdir\<close> show; true is the result 0.
  The loop stops at the first entry that cannot be removed.
\<close>

primrec remove_tree :: "fs_tree \<Rightarrow> env \<Rightarrow> string \<Rightarrow> bool act"
  and remove_entries :: "fs_entries \<Rightarrow> env \<Rightarrow> string \<Rightarrow> bool act" where
  "remove_tree Regular e path = ret False"
| "remove_tree (Folder es) e path =
     bind (remove_entries es e path) (\<lambda>r. if r then os_do e (Rmdir path) else ret False)"
| "remove_entries No_Entry e path = ret True"
| "remove_entries (Entry name t es) e path =
     (if strcmp name ''.'' = 0 \<or> strcmp name ''..'' = 0 then remove_entries es e path
      else
        let buf = path @ ''/'' @ name
        in bind (bind (os_do e (Stat buf)) (\<lambda>ok.
               if ok then (if t = Regular then os_do e (Unlink buf) else remove_tree t e buf)
               else ret False)) (\<lambda>r2.
             if r2 then remove_entries es e path else ret False))"

definition remove_directory :: "env \<Rightarrow> string \<Rightarrow> bool act" where
  "remove_directory e path = (\<lambda>s. remove_tree (os_tree e (os_calls s) path) e path s)"

section \<open>Actions that keep a property of the state\<close>

definition keeps :: "(app \<Rightarrow> bool) \<Rightarrow> 'a act \<Rightarrow> bool" where
  "keeps P m \<longleftrightarrow> (\<forall>s x s'. P s \<longrightarrow> m s = Inr (x, s') \<longrightarrow> P s')"

text \<open>Introduction rules for \<open>keeps\<close>, one per construct.\<close>

named_theorems keep_rules

lemma keepsI: "(\<And>s x s'. P s \<Longrightarrow> m s = Inr (x, s') \<Longrightarrow> P s') \<Longrightarrow> keeps P m"
  by (auto simp: keeps_def)

lemma keepsD: "keeps P m \<Longrightarrow> P s \<Longrightarrow> m s = Inr (x, s') \<Longrightarrow> P s'"
  by (auto simp: keeps_def)

lemma keeps_tablesD:
  assumes "\<And>d. keeps (\<lambda>s. db s = d) m" and "m s = Inr (x, s')"
  shows "db s' = db s"
  using keepsD [OF assms(1) [of "db s"] refl assms(2)] .

text \<open>Actions that leave the tables alone, as destruction rules.\<close>

named_theorems frame_dests

lemma keeps_ret [keep_rules]: "keeps P (ret x)"
  by (simp add: keeps_def ret_def)

lemma keeps_lift [keep_rules]: "keeps P (lift r)"
  by (auto simp: keeps_def lift_def run_simps)

lemma keeps_deref [keep_rules]: "keeps P (deref_act p)"
  by (simp add: deref_act_def keeps_lift)

lemma keeps_bind [keep_rules]: "keeps P m \<Longrightarrow> (\<And>x. keeps P (k x)) \<Longrightarrow> keeps P (bind m k)"
proof (rule keepsI)
  fix s y s''
  assume m: "keeps P m" and k: "\<And>x. keeps P (k x)" and s: "P s" and b: "bind m k s = Inr (y, s'')"
  from b obtain x s' where "m s = Inr (x, s')" "k x s' = Inr (y, s'')"
    by (auto simp: bind_def run_simps)
  then show "P s''" using keepsD [OF m s] keepsD [OF k] by blast
qed

lemma keeps_if [keep_rules]: "(c \<Longrightarrow> keeps P m) \<Longrightarrow> (\<not> c \<Longrightarrow> keeps P n) \<Longrightarrow> keeps P (if c then m else n)"
  by simp

lemma keeps_option [keep_rules]:
  "(p = None \<Longrightarrow> keeps P m) \<Longrightarrow> (\<And>x. p = Some x \<Longrightarrow> keeps P (k x)) \<Longrightarrow> keeps P (case p of None \<Rightarrow> m | Some x \<Rightarrow> k x)"
  by (cases p) auto

lemma keeps_prod [keep_rules]: "(\<And>x y. keeps P (k x y)) \<Longrightarrow> keeps P (case p of (x, y) \<Rightarrow> k x y)"
  by (cases p) auto

lemma keeps_each_row: "(\<And>r x. keeps P (callback r x)) \<Longrightarrow> keeps P (each_row callback rs x)"
  by (induction rs arbitrary: x) (auto intro!: keep_rules)

text \<open>The tables satisfy the schema.\<close>

abbreviation schema_ok :: "app \<Rightarrow> bool" where
  "schema_ok s \<equiv> db_wf (db s)"

text \<open>The tables are the given ones: what an action that only reads keeps.\<close>

abbreviation tables_are :: "db \<Rightarrow> app \<Rightarrow> bool" where
  "tables_are d s \<equiv> db s = d"

lemma keeps_query_schema [keep_rules]: "keeps schema_ok (exec_query e sel)"
  by (auto simp: keeps_def exec_query_def Let_def split: if_splits)

lemma keeps_query_tables [keep_rules]: "keeps (tables_are d) (exec_query e sel)"
  by (auto simp: keeps_def exec_query_def Let_def split: if_splits)

lemma keeps_find_one [keep_rules]:
  "keeps schema_ok (find_one e sel cb)" "keeps (tables_are d) (find_one e sel cb)"
  unfolding find_one_def by (intro keep_rules keeps_each_row)+

lemma keeps_rowid [keep_rules]: "keeps P last_insert_rowid"
  by (simp add: keeps_def last_insert_rowid_def)

lemma keeps_time [keep_rules]: "keeps P (get_current_time e)"
  by (simp add: keeps_def get_current_time_def)

lemma keeps_os_schema [keep_rules]: "keeps schema_ok (os_do e c)"
  by (auto simp: keeps_def os_do_def)

lemma keeps_os_tables [keep_rules]: "keeps (tables_are d) (os_do e c)"
  by (auto simp: keeps_def os_do_def)

lemma keeps_create_directory [keep_rules]:
  "keeps schema_ok (create_directory e p)" "keeps (tables_are d) (create_directory e p)"
  by (simp_all add: create_directory_def keep_rules)

lemma keeps_remove_tree:
  "keeps schema_ok (remove_tree t e p) \<and> keeps (tables_are d) (remove_tree t e p)"
  "keeps schema_ok (remove_entries es e p) \<and> keeps (tables_are d) (remove_entries es e p)"
  by (induction t and es arbitrary: p and p) (auto simp: Let_def intro!: keep_rules)

lemma keeps_remove_directory [keep_rules]:
  "keeps schema_ok (remove_directory e p)" "keeps (tables_are d) (remove_directory e p)"
  using keeps_remove_tree(1) [of _ e p d] unfolding keeps_def remove_directory_def by blast+

lemma exec_update_keeps:
  "(\<And>n d d'. upd n d = Some d' \<Longrightarrow> db_wf d \<Longrightarrow> db_wf d') \<Longrightarrow> keeps schema_ok (exec_update e upd)"
  by (auto simp: keeps_def exec_update_def Let_def split: if_splits option.splits)

lemma keeps_updates [keep_rules]:
  "keeps schema_ok (exec_update e (\<lambda>n. insert_user dn un pw))"
  "keeps schema_ok (exec_update e (\<lambda>n. insert_session u (t n) (c n)))"
  "keeps schema_ok (exec_update e (\<lambda>n. insert_group nm ds av ow st (t n) (c n)))"
  "keeps schema_ok (exec_update e (\<lambda>n. insert_member g u))"
  "keeps schema_ok (exec_update e (\<lambda>n. insert_directory nm ow g pt ph pm (c n)))"
  "keeps schema_ok (exec_update e (\<lambda>n. insert_file nm sz pm ph dr g ow md (c n)))"
  "keeps schema_ok (exec_update e (\<lambda>n. update_user_row r))"
  "keeps schema_ok (exec_update e (\<lambda>n. update_group_row nm ds av st i))"
  "keeps schema_ok (exec_update e (\<lambda>n. update_directory_row pm (c n) i))"
  "keeps schema_ok (exec_update e (\<lambda>n. update_file_row sz pm md (c n) i))"
  "keeps schema_ok (exec_update e (\<lambda>n. delete_user_row i))"
  "keeps schema_ok (exec_update e (\<lambda>n d. Some (delete_session_row i d)))"
  "keeps schema_ok (exec_update e (\<lambda>n d. Some (delete_group_row i d)))"
  "keeps schema_ok (exec_update e (\<lambda>n d. Some (delete_member_row g u d)))"
  "keeps schema_ok (exec_update e (\<lambda>n d. Some (delete_directory_row i d)))"
  "keeps schema_ok (exec_update e (\<lambda>n d. Some (delete_file_row i d)))"
  by (rule exec_update_keeps;
      (erule (1) wf_rules | drule option.inject [THEN iffD1], erule subst, erule wf_rules))+

section \<open>Lemmas\<close>

lemma bind_long_eq:
  "length (show_int l) < usable e 10 \<Longrightarrow> bind_long e l = Inr l"
  by (simp add: bind_long_def convert_long_to_string_def sprintf_malloc_def sprintf_def read_int_show_int)

lemma bind_int_eq:
  "length (show_int l) < usable e 10 \<Longrightarrow> bind_int e l = Inr l"
  by (simp add: bind_int_def convert_int_to_string_def sprintf_malloc_def sprintf_def read_int_show_int)

lemma bind_long_overflow:
  "usable e 10 \<le> length (show_int l) \<Longrightarrow> bind_long e l = Inl Out_Of_Bounds"
  by (simp add: bind_long_def convert_long_to_string_def sprintf_malloc_def sprintf_def)

lemma bind_long_Inr: "bind_long e l = Inr k \<Longrightarrow> k = l"
  by (auto simp: bind_long_def convert_long_to_string_def sprintf_malloc_def sprintf_def run_simps
      read_int_show_int split: if_splits)

lemma bind_int_Inr: "bind_int e l = Inr k \<Longrightarrow> k = l"
  by (auto simp: bind_int_def convert_int_to_string_def sprintf_malloc_def sprintf_def run_simps
      read_int_show_int split: if_splits)

text \<open>Inversion of a sequence that did not fault.\<close>

lemma bind_Inr:
  "bind m k s = Inr (y, s'') \<longleftrightarrow> (\<exists>x s'. m s = Inr (x, s') \<and> k x s' = Inr (y, s''))"
  by (auto simp: bind_def run_simps)

lemma ret_Inr: "ret x s = Inr (y, s') \<longleftrightarrow> y = x \<and> s' = s"
  by (auto simp: ret_def)

lemma lift_Inr: "lift r s = Inr (y, s') \<longleftrightarrow> r = Inr y \<and> s' = s"
  by (auto simp: lift_def run_simps)

lemma deref_act_Inr: "deref_act p s = Inr (y, s') \<longleftrightarrow> p = Some y \<and> s' = s"
  by (auto simp: deref_act_def lift_Inr run_simps)

lemma bindE:
  assumes "bind m k s = Inr (y, s'')"
  obtains x s' where "m s = Inr (x, s')" "k x s' = Inr (y, s'')"
  using assms by (auto simp: bind_Inr)

lemmas act_Inr = bind_Inr ret_Inr lift_Inr deref_act_Inr

lemma each_row_last:
  "each_row (\<lambda>r _. bind (lift (cb r)) (\<lambda>x. ret (Some x))) rs y s = Inr (z, s') \<Longrightarrow>
   s' = s \<and> (if rs = [] then z = y else \<exists>x. z = Some x \<and> cb (last rs) = Inr x)"
proof (induction rs arbitrary: y)
  case (Cons r rs)
  then obtain x where "cb r = Inr x"
    "each_row (\<lambda>r _. bind (lift (cb r)) (\<lambda>x. ret (Some x))) rs (Some x) s = Inr (z, s')"
    by (auto simp: act_Inr)
  then show ?case using Cons.IH [of "Some x"] by auto
qed (simp add: ret_Inr)

text \<open>What a lookup that did not fault found.\<close>

lemma find_one_SomeD:
  assumes "find_one e sel cb s = Inr (Some x, s')"
  shows "db s' = db s \<and> (\<exists>r \<in> set (sel (db s)). cb r = Inr x)"
proof -
  obtain rs s1 where q: "exec_query e sel s = Inr (Some rs, s1)"
    and r: "each_row (\<lambda>r _. bind (lift (cb r)) (\<lambda>x. ret (Some x))) rs None s1 = Inr (Some x, s')"
    using assms by (auto simp: find_one_def bind_Inr ret_Inr split: option.splits)
  have "rs = sel (db s)" "db s1 = db s" using q by (auto simp: exec_query_def Let_def split: if_splits)
  moreover have "s' = s1" "rs \<noteq> []" "cb (last rs) = Inr x"
    using each_row_last [OF r] by (auto split: if_splits)
  ultimately show ?thesis using last_in_set by metis
qed

text \<open>A lookup by a unique key, when the statement succeeds.\<close>

lemma find_one_unique:
  assumes "\<not> db_fails e (db_calls s)" and "sel (db s) = [r]" and "cb r = Inr x"
  shows "find_one e sel cb s = Inr (Some x, s\<lparr>db_calls := db_calls s + 1\<rparr>)"
  using assms by (simp add: find_one_def bind_def exec_query_def Let_def lift_def ret_def)

lemma find_one_none:
  assumes "\<not> db_fails e (db_calls s)" and "sel (db s) = []"
  shows "find_one e sel cb s = Inr (None, s\<lparr>db_calls := db_calls s + 1\<rparr>)"
  using assms by (simp add: find_one_def bind_def exec_query_def Let_def ret_def)

lemma filter_unique:
  "distinct (map k rows) \<Longrightarrow> r \<in> set rows \<Longrightarrow> filter (\<lambda>x. k x = k r) rows = [r]"
proof (induction rows)
  case (Cons a rows)
  show ?case
  proof (cases "a = r")
    case True
    then have "filter (\<lambda>x. k x = k r) rows = []"
      using Cons.prems(1) by (auto simp: filter_empty_conv image_iff)
    then show ?thesis using True by simp
  next
    case False
    then have "r \<in> set rows" "k a \<noteq> k r" using Cons.prems by auto
    then show ?thesis using Cons by simp
  qed
qed simp

end
