(* ===== verification/User_Model.thy ===== *)
theory User_Model
  imports App_State
begin

text \<open>
  Users (\<open>src/model/user.c\<close>) and sessions (\<open>src/model/session.c\<close>). The fields of \<open>struct User\<close> are
  arrays of fixed size into which \<open>strcpy\<close> copies. The pointer fields of \<open>struct Session\<close> are None
  when they were not set.
\<close>

section \<open>Users\<close>

definition user_new :: "string \<Rightarrow> string \<Rightarrow> string \<Rightarrow> user run" where
  "user_new dn un pw =
     and_then (sprintf 255 dn) (\<lambda>dn.
     and_then (sprintf 50 un) (\<lambda>un.
     and_then (sprintf 50 pw) (\<lambda>pw.
       Inr \<lparr>uid = 0, display_name = dn, username = un, password = pw, ustatus = 0\<rparr>)))"

definition save_user :: "env \<Rightarrow> user \<Rightarrow> (int \<times> user) act" where
  "save_user e user =
     bind (exec_update e (\<lambda>n. insert_user (display_name user) (username user) (password user))) (\<lambda>ok.
       if \<not> ok then ret (-1, user)
       else bind last_insert_rowid (\<lambda>last_id. ret (0, user\<lparr>uid := int32 last_id\<rparr>)))"

definition update_user :: "env \<Rightarrow> user \<Rightarrow> int act" where
  "update_user e user =
     bind (lift (bind_long e (ustatus user))) (\<lambda>st.
     bind (lift (bind_long e (uid user))) (\<lambda>i.
     bind (exec_update e (\<lambda>n. update_user_row (user\<lparr>uid := i, ustatus := st\<rparr>))) (\<lambda>ok.
       if \<not> ok then ret (-1) else ret 0)))"

definition delete_user :: "env \<Rightarrow> user \<Rightarrow> int act" where
  "delete_user e user =
     bind (lift (bind_long e (uid user))) (\<lambda>i.
     bind (exec_update e (\<lambda>n. delete_user_row i)) (\<lambda>ok. if \<not> ok then ret (-1) else ret 0))"

definition quoted :: "string \<Rightarrow> string" where
  "quoted s = CHR 0x22 # s @ [CHR 0x22]"

definition json_user_text :: "user \<Rightarrow> string" where
  "json_user_text user =
     ''{'' @ quoted ''id'' @ '': '' @ show_int (uid user)
     @ '', '' @ quoted ''display_name'' @ '': '' @ quoted (display_name user)
     @ '', '' @ quoted ''username'' @ '': '' @ quoted (username user)
     @ '', '' @ quoted ''status'' @ '': '' @ show_int (ustatus user) @ ''}''"

definition json_user :: "env \<Rightarrow> user \<Rightarrow> string run" where
  "json_user e user = sprintf_malloc e 1024 (json_user_text user)"

definition find_user_callback :: "user \<Rightarrow> user run" where
  "find_user_callback row =
     and_then (user_new (display_name row) (username row) (password row)) (\<lambda>user.
       Inr (user\<lparr>uid := int32 (uid row), ustatus := int32 (ustatus row)\<rparr>))"

definition user_find_by_id :: "env \<Rightarrow> int \<Rightarrow> user option act" where
  "user_find_by_id e i =
     bind (lift (bind_long e i)) (\<lambda>i.
       find_one e (\<lambda>d. filter (\<lambda>r. uid r = i) (users d)) find_user_callback)"

definition user_find_by_username :: "env \<Rightarrow> string \<Rightarrow> user option act" where
  "user_find_by_username e un =
     find_one e (\<lambda>d. filter (\<lambda>r. username r = un) (users d)) find_user_callback"

section \<open>Sessions\<close>

record session_obj =
  ss_id :: int
  ss_user :: int
  ss_token :: "string option"
  ss_created :: "string option"

definition session_new :: "int \<Rightarrow> string option \<Rightarrow> session_obj" where
  "session_new user_id token = \<lparr>ss_id = 0, ss_user = user_id, ss_token = token, ss_created = None\<rparr>"

text \<open>The token is the default of its column; it is read back with a second statement.\<close>

definition save_session :: "env \<Rightarrow> session_obj \<Rightarrow> (int \<times> session_obj) act" where
  "save_session e session =
     bind (lift (bind_long e (ss_user session))) (\<lambda>u.
     bind (exec_update e (\<lambda>n. insert_session u (random_hex e n 32) (clock e n))) (\<lambda>ok.
       if \<not> ok then ret (-1, session)
       else
         bind last_insert_rowid (\<lambda>last_id.
         let session = session\<lparr>ss_id := int32 last_id\<rparr>
         in bind (lift (bind_long e (ss_id session))) (\<lambda>i.
            bind (exec_query e (\<lambda>d. map stoken (filter (\<lambda>r. sid r = i) (sessions d)))) (\<lambda>rows.
              case rows of
                None \<Rightarrow> ret (-1, session)
              | Some ts \<Rightarrow> ret (0, session\<lparr>ss_token := (if ts = [] then None else Some (last ts))\<rparr>))))))"

definition delete_session :: "env \<Rightarrow> session_obj \<Rightarrow> int act" where
  "delete_session e session =
     bind (lift (bind_long e (ss_id session))) (\<lambda>i.
     bind (exec_update e (\<lambda>n d. Some (delete_session_row i d))) (\<lambda>ok. if \<not> ok then ret (-1) else ret 0))"

definition get_user :: "env \<Rightarrow> session_obj \<Rightarrow> user option act" where
  "get_user e session = user_find_by_id e (ss_user session)"

definition time_from_string :: "env \<Rightarrow> string \<Rightarrow> int" where
  "time_from_string e s = parse_time e s"

definition is_expired :: "env \<Rightarrow> session_obj \<Rightarrow> bool act" where
  "is_expired e session = (\<lambda>s.
     Inr (case ss_created session of
            None \<Rightarrow> False
          | Some c \<Rightarrow> now e (db_calls s) - time_from_string e c > 30 * 24 * 60 \<and> (0 :: int) > 1, s))"

definition find_session_callback :: "session \<Rightarrow> session_obj run" where
  "find_session_callback row =
     Inr ((session_new (int32 (suser row)) (Some (stoken row)))
            \<lparr>ss_id := int32 (sid row), ss_created := Some (screated row)\<rparr>)"

definition session_find_by_id :: "env \<Rightarrow> int \<Rightarrow> session_obj option act" where
  "session_find_by_id e i =
     bind (lift (bind_long e i)) (\<lambda>i.
       find_one e (\<lambda>d. filter (\<lambda>r. sid r = i) (sessions d)) find_session_callback)"

definition session_find_by_token :: "env \<Rightarrow> string \<Rightarrow> session_obj option act" where
  "session_find_by_token e token =
     find_one e (\<lambda>d. filter (\<lambda>r. stoken r = token) (sessions d)) find_session_callback"

section \<open>The statements keep the schema, the lookups keep the tables\<close>

lemma keeps_user_model [keep_rules]:
  "keeps schema_ok (save_user e u)" "keeps schema_ok (update_user e u)" "keeps schema_ok (delete_user e u)"
  unfolding save_user_def update_user_def delete_user_def
  by (intro keep_rules)+

lemma keeps_session_model [keep_rules]:
  "keeps schema_ok (save_session e x)" "keeps schema_ok (delete_session e x)"
  unfolding save_session_def delete_session_def Let_def
  by (intro keep_rules)+

lemma keeps_user_lookups [keep_rules]:
  "keeps schema_ok (user_find_by_id e i)" "keeps (tables_are d) (user_find_by_id e i)"
  "keeps schema_ok (user_find_by_username e un)" "keeps (tables_are d) (user_find_by_username e un)"
  "keeps schema_ok (session_find_by_token e t)" "keeps (tables_are d) (session_find_by_token e t)"
  "keeps schema_ok (session_find_by_id e i)" "keeps (tables_are d) (session_find_by_id e i)"
  "keeps schema_ok (get_user e x)" "keeps (tables_are d) (get_user e x)"
  unfolding user_find_by_id_def user_find_by_username_def session_find_by_token_def
    session_find_by_id_def get_user_def
  by (intro keep_rules)+

lemmas user_frames [frame_dests] = keeps_user_lookups(2,4,6,8,10) [THEN keeps_tablesD]

lemma keeps_is_expired [keep_rules]: "keeps P (is_expired e x)"
  by (simp add: keeps_def is_expired_def)

end
