(* ===== verification/Comparator.thy ===== *)
theory Comparator
  imports C_String
begin

text \<open>
  The contract of the compare callbacks. The containers take a function pointer that "must take
  two void pointers as arguments and return 1, -1, or 0"
  (\<open>includes/data_structures/binary_search_tree.h\<close>); they work if it orders the data by a key
  from a linear order. The locale states this for a comparison of stored data of type \<open>'a\<close> with a
  query of type \<open>'b\<close>.
\<close>

locale comparator =
  fixes cmp :: "'a \<Rightarrow> 'b \<Rightarrow> int"
    and key :: "'a \<Rightarrow> 'k::linorder"
    and qkey :: "'b \<Rightarrow> 'k"
  assumes cmp_eq: "cmp a b = (if qkey b < key a then 1 else if key a < qkey b then -1 else 0)"
begin

lemma cmp_gt [simp]: "cmp a b = 1 \<longleftrightarrow> qkey b < key a"
  by (simp add: cmp_eq)

lemma cmp_lt [simp]: "cmp a b = -1 \<longleftrightarrow> key a < qkey b"
  by (auto simp: cmp_eq)

lemma cmp_zero [simp]: "cmp a b = 0 \<longleftrightarrow> key a = qkey b"
  by (auto simp: cmp_eq)

lemma cmp_range: "cmp a b \<in> {-1, 0, 1}"
  by (simp add: cmp_eq)

end

text \<open>A comparator of data with data of the same kind.\<close>

locale self_comparator = comparator cmp key key
  for cmp :: "'a \<Rightarrow> 'a \<Rightarrow> int" and key :: "'a \<Rightarrow> 'k::linorder"
begin

lemma cmp_antisym: "cmp b a = - cmp a b"
  by (auto simp: cmp_eq)

lemma cmp_refl [simp]: "cmp a a = 0"
  by simp

end

section \<open>The comparison functions of the program\<close>

text \<open>
  \<open>int\<close> and \<open>char\<close> data compare by value (\<open>char\<close> is signed on the platform), strings by
  \<open>strcmp\<close>.
\<close>

definition binary_search_tree_int_compare :: "int \<Rightarrow> int \<Rightarrow> int" where
  "binary_search_tree_int_compare a b = (if a > b then 1 else if a < b then -1 else 0)"

definition signed_char :: "char \<Rightarrow> int" where
  "signed_char c = (if (of_char c :: int) < 128 then of_char c else of_char c - 256)"

definition binary_search_tree_char_compare :: "char \<Rightarrow> char \<Rightarrow> int" where
  "binary_search_tree_char_compare a b =
     (if signed_char a > signed_char b then 1 else if signed_char a < signed_char b then -1 else 0)"

definition binary_search_tree_str_compare :: "string \<Rightarrow> string \<Rightarrow> int" where
  "binary_search_tree_str_compare a b =
     (let comparison = strcmp a b
      in if comparison > 0 then 1 else if comparison < 0 then -1 else 0)"

interpretation int_cmp: self_comparator binary_search_tree_int_compare "\<lambda>i. i"
  by unfold_locales (simp add: binary_search_tree_int_compare_def)

interpretation char_cmp: self_comparator binary_search_tree_char_compare signed_char
  by unfold_locales (simp add: binary_search_tree_char_compare_def)

interpretation str_cmp: self_comparator binary_search_tree_str_compare "\<lambda>s. s"
  by unfold_locales
    (simp add: binary_search_tree_str_compare_def strcmp_pos strcmp_neg Let_def)

end
