(* ===== verification/Linked_List.thy ===== *)
theory Linked_List
  imports Comparator
begin

text \<open>
  The singly linked list of \<open>src/data_structures/lists/linked_list.c\<close> with its nodes
  (\<open>common/node.c\<close>). A list object is the chain of its nodes' data, in the order of the
  \<open>next\<close> pointers, and the separate \<open>length\<close> field that every operation maintains by hand; a
  node pointer is the position of the node in the chain. \<open>ll_wf\<close> says that the field counts the
  chain. The lemmas show that every operation keeps it, what each operation does to the chain,
  and where the code goes wrong.
\<close>

section \<open>Nodes\<close>

record 'a node =
  data :: 'a
  has_next :: bool
  has_prev :: bool

text \<open>A node is constructed with both pointers NULL; a size of zero ends the process.\<close>

definition node_constructor :: "'a \<Rightarrow> nat \<Rightarrow> 'a node run" where
  "node_constructor d n =
     (if n < 1 then Inl Program_Exit
      else Inr \<lparr>data = d, has_next = False, has_prev = False\<rparr>)"

definition create_node_ll :: "'a \<Rightarrow> nat \<Rightarrow> 'a node run" where
  "create_node_ll d n = node_constructor d n"

lemma create_node_ll_eq:
  "create_node_ll d n =
     (if n = 0 then Inl Program_Exit
      else Inr \<lparr>data = d, has_next = False, has_prev = False\<rparr>)"
  by (simp add: create_node_ll_def node_constructor_def)

section \<open>The list and its operations\<close>

record 'a linked_list =
  chain :: "'a list"
  len :: int

definition linked_list_constructor :: "'a linked_list" where
  "linked_list_constructor = \<lparr>chain = [], len = 0\<rparr>"

definition ll_wf :: "'a linked_list \<Rightarrow> bool" where
  "ll_wf l \<longleftrightarrow> len l = int (length (chain l))"

text \<open>Following \<open>k\<close> times the \<open>next\<close> pointer from the node at position \<open>pos\<close>.\<close>

fun walk :: "'a list \<Rightarrow> nat \<Rightarrow> nat \<Rightarrow> nat option run" where
  "walk c pos 0 = Inr (if pos < length c then Some pos else None)"
| "walk c pos (Suc k) = (if pos < length c then walk c (Suc pos) k else Inl Null_Deref)"

definition iterate_ll :: "'a linked_list \<Rightarrow> int \<Rightarrow> nat option run" where
  "iterate_ll l index =
     (if index < 0 \<or> len l \<le> index then Inr None else walk (chain l) 0 (nat index))"

definition insert_ll :: "'a linked_list \<Rightarrow> int \<Rightarrow> 'a \<Rightarrow> nat \<Rightarrow> 'a linked_list run" where
  "insert_ll l index d n =
     and_then (create_node_ll d n) (\<lambda>node.
       if index = 0 then Inr (l\<lparr>chain := data node # chain l, len := len l + 1\<rparr>)
       else and_then (iterate_ll l (index - 1)) (\<lambda>cursor.
         case cursor of
           None \<Rightarrow> Inr l
         | Some p \<Rightarrow>
             Inr (l\<lparr>chain := take (Suc p) (chain l) @ data node # drop (Suc p) (chain l),
                    len := len l + 1\<rparr>)))"

definition remove_node_ll :: "'a linked_list \<Rightarrow> int \<Rightarrow> 'a linked_list run" where
  "remove_node_ll l index =
     (if index = 0 then
        (case chain l of
           [] \<Rightarrow> Inr l
         | x # xs \<Rightarrow> Inr (l\<lparr>chain := xs, len := len l - 1\<rparr>))
      else and_then (iterate_ll l (index - 1)) (\<lambda>cursor.
        case cursor of
          None \<Rightarrow> Inr l
        | Some p \<Rightarrow>
            if Suc p < length (chain l)
            then Inr (l\<lparr>chain := take (Suc p) (chain l) @ drop (Suc (Suc p)) (chain l),
                        len := len l - 1\<rparr>)
            else Inl Null_Deref))"

definition retrieve_ll :: "'a linked_list \<Rightarrow> int \<Rightarrow> 'a option run" where
  "retrieve_ll l index =
     and_then (iterate_ll l index) (\<lambda>cursor.
       Inr (case cursor of None \<Rightarrow> None | Some p \<Rightarrow> Some (chain l ! p)))"

text \<open>
  The destructor's loop tests the \<open>length\<close> field that \<open>remove\<close> decrements, so index and bound
  move towards each other.
\<close>

function destroy_loop :: "int \<Rightarrow> 'a linked_list \<Rightarrow> 'a linked_list run" where
  "destroy_loop i l =
     (if i < len l then
        (case remove_node_ll l 0 of
           Inl e \<Rightarrow> Inl e
         | Inr l' \<Rightarrow> destroy_loop (i + 1) l')
      else Inr l)"
  by pat_completeness auto
termination
  by (relation "measure (\<lambda>(i, l). nat (len l - i))")
    (auto simp: remove_node_ll_def split: list.splits)

declare destroy_loop.simps [simp del]

definition linked_list_destructor :: "'a linked_list \<Rightarrow> 'a linked_list run" where
  "linked_list_destructor l = destroy_loop 0 l"

text \<open>
  The sort starts its cursor from \<open>retrieve(list, 0)\<close>, which is the first element's data and
  not its node; the first use of that cursor, \<open>i->next\<close>, reads the data as a node.
\<close>

definition bubble_sort_ll :: "'a linked_list \<Rightarrow> ('a \<Rightarrow> 'a \<Rightarrow> int) \<Rightarrow> 'a linked_list run" where
  "bubble_sort_ll l cmp =
     and_then (retrieve_ll l 0) (\<lambda>i.
       case i of None \<Rightarrow> Inr l | Some _ \<Rightarrow> Inl Type_Confusion)"

text \<open>
  One run of the loop of \<open>binary_search_ll\<close>. \<open>compare\<close> dereferences the data it is given, so a
  NULL from \<open>retrieve\<close> is a fault; \<open>/\<close> divides sums of non-negative ints.
\<close>

function search_loop ::
  "'a linked_list \<Rightarrow> 'b \<Rightarrow> ('a \<Rightarrow> 'b \<Rightarrow> int) \<Rightarrow> int \<Rightarrow> int \<Rightarrow> int \<Rightarrow> nat \<Rightarrow> int option run" where
  "search_loop l query cmp pos lo hi 0 = Inr None"
| "search_loop l query cmp pos lo hi (Suc fuel) =
     (if lo < hi then
        and_then (retrieve_ll l pos) (\<lambda>p.
        and_then (deref p) (\<lambda>d.
          if cmp d query = 1 then
            (if pos \<noteq> (lo + pos) div 2
             then search_loop l query cmp ((lo + pos) div 2) lo pos fuel
             else Inr (Some 0))
          else if cmp d query = -1 then
            (if pos \<noteq> (hi + pos) div 2
             then search_loop l query cmp ((hi + pos) div 2) pos hi fuel
             else Inr (Some 0))
          else Inr (Some 1)))
      else Inr (Some 0))"
  by pat_completeness auto
termination
  by (relation "measure (\<lambda>(l, q, c, p, lo, hi, fuel). fuel)") auto

text \<open>\<open>Inr None\<close> would be a loop that is still running after \<open>length + 1\<close> rounds.\<close>

definition binary_search_ll :: "'a linked_list \<Rightarrow> 'b \<Rightarrow> ('a \<Rightarrow> 'b \<Rightarrow> int) \<Rightarrow> int option run" where
  "binary_search_ll l query cmp =
     search_loop l query cmp (len l div 2) 0 (len l) (Suc (nat (len l)))"

text \<open>
  \<open>strcat\<close> into a buffer of \<open>cap\<close> bytes; the terminator needs one byte as well.
\<close>

definition strcat_cap :: "nat \<Rightarrow> string \<Rightarrow> string \<Rightarrow> string run" where
  "strcat_cap cap s t = (if length s + length t < cap then Inr (s @ t) else Inl Out_Of_Bounds)"

fun to_json_loop ::
  "'a linked_list \<Rightarrow> ('a \<Rightarrow> string) \<Rightarrow> int \<Rightarrow> nat \<Rightarrow> string \<Rightarrow> string run" where
  "to_json_loop l f i 0 json = Inr json"
| "to_json_loop l f i (Suc k) json =
     (if i < len l then
        and_then (retrieve_ll l i) (\<lambda>p.
        and_then (deref p) (\<lambda>d.
        let cap = length json + length (f d) + 10
        in and_then (strcat_cap cap json (f d)) (\<lambda>json1.
           and_then (if i \<noteq> len l - 1 then strcat_cap cap json1 '','' else Inr json1) (\<lambda>json2.
             to_json_loop l f (i + 1) k json2))))
      else Inr json)"

definition to_json_ll :: "'a linked_list \<Rightarrow> ('a \<Rightarrow> string) \<Rightarrow> string run" where
  "to_json_ll l f =
     and_then (to_json_loop l f 0 (nat (len l)) ''['') (\<lambda>json.
       strcat_cap (length json + 4) json '']'')"

section \<open>Positions\<close>

lemma ll_wf_constructor [simp, wf_rules]: "ll_wf linked_list_constructor"
  by (simp add: ll_wf_def linked_list_constructor_def)

lemma chain_constructor [simp]: "chain linked_list_constructor = []"
  by (simp add: linked_list_constructor_def)

lemma ll_wf_len: "ll_wf l \<Longrightarrow> len l = int (length (chain l))"
  by (simp add: ll_wf_def)

lemma walk_eq: "pos + k \<le> length c \<Longrightarrow> walk c pos k = Inr (if pos + k < length c then Some (pos + k) else None)"
  by (induction c pos k rule: walk.induct) auto

lemma iterate_ll_eq:
  "ll_wf l \<Longrightarrow> iterate_ll l i =
     Inr (if 0 \<le> i \<and> i < int (length (chain l)) then Some (nat i) else None)"
  by (auto simp: iterate_ll_def ll_wf_def walk_eq)

lemma retrieve_ll_eq:
  "ll_wf l \<Longrightarrow> retrieve_ll l i =
     Inr (if 0 \<le> i \<and> i < int (length (chain l)) then Some (chain l ! nat i) else None)"
  by (simp add: retrieve_ll_def iterate_ll_eq)

section \<open>Insertion and removal\<close>

text \<open>
  \<open>insert_ll\<close> inserts at every position from 0 to the length; any other index leaves the list
  as it was.
\<close>

lemma insert_ll_eq:
  assumes "ll_wf l" and "0 < n"
  shows "insert_ll l i d n =
     Inr (if 0 \<le> i \<and> i \<le> int (length (chain l))
          then \<lparr>chain = take (nat i) (chain l) @ d # drop (nat i) (chain l), len = len l + 1\<rparr>
          else l)"
proof (cases "i = 0")
  case True
  then show ?thesis using assms by (simp add: insert_ll_def create_node_ll_eq)
next
  case False
  then have "0 \<le> i - 1 \<and> i - 1 < int (length (chain l)) \<longleftrightarrow> 0 \<le> i \<and> i \<le> int (length (chain l))"
    and "0 \<le> i \<Longrightarrow> Suc (nat (i - 1)) = nat i"
    by auto
  then show ?thesis using False assms
    by (auto simp: insert_ll_def create_node_ll_eq iterate_ll_eq)
qed

lemma insert_ll_wf [wf_rules]: "ll_wf l \<Longrightarrow> insert_ll l i d n = Inr l' \<Longrightarrow> ll_wf l'"
proof -
  assume wf: "ll_wf l" and ins: "insert_ll l i d n = Inr l'"
  then have "0 < n"
    by (auto simp: insert_ll_def create_node_ll_eq split: if_splits)
  then show ?thesis using wf ins
    by (auto simp: insert_ll_eq ll_wf_def split: if_splits)
qed

lemma remove_node_ll_eq:
  assumes "ll_wf l"
  shows "remove_node_ll l i =
     (if 0 \<le> i \<and> i < int (length (chain l))
      then Inr \<lparr>chain = take (nat i) (chain l) @ drop (Suc (nat i)) (chain l), len = len l - 1\<rparr>
      else if i = int (length (chain l)) \<and> i \<noteq> 0 then Inl Null_Deref
      else Inr l)"
proof (cases "i = 0")
  case True
  then show ?thesis by (auto simp: remove_node_ll_def split: list.split)
next
  case False
  then have "0 \<le> i \<Longrightarrow> Suc (nat (i - 1)) = nat i" by auto
  then show ?thesis using False assms
    by (auto simp: remove_node_ll_def iterate_ll_eq)
qed

lemma remove_node_ll_wf [wf_rules]:
  "ll_wf l \<Longrightarrow> remove_node_ll l i = Inr l' \<Longrightarrow> ll_wf l'"
  by (auto simp: remove_node_ll_eq ll_wf_def split: if_splits)

text \<open>Insertion followed by retrieval at the same index, and by removal there.\<close>

lemma insert_retrieve:
  assumes "ll_wf l" "0 < n" "0 \<le> i" "i \<le> int (length (chain l))"
    and "insert_ll l i d n = Inr l'"
  shows "retrieve_ll l' i = Inr (Some d)"
proof -
  have wf: "ll_wf l'" using assms(1,5) by (rule insert_ll_wf)
  have "chain l' = take (nat i) (chain l) @ d # drop (nat i) (chain l)"
    using assms by (auto simp: insert_ll_eq)
  then show ?thesis using assms wf by (auto simp: retrieve_ll_eq nth_append)
qed

lemma insert_remove:
  assumes "ll_wf l" "0 < n" "0 \<le> i" "i \<le> int (length (chain l))"
    and "insert_ll l i d n = Inr l'"
  shows "remove_node_ll l' i = Inr l"
proof -
  have wf: "ll_wf l'" using assms(1,5) by (rule insert_ll_wf)
  have "l' = \<lparr>chain = take (nat i) (chain l) @ d # drop (nat i) (chain l), len = len l + 1\<rparr>"
    using assms by (auto simp: insert_ll_eq)
  then show ?thesis using assms wf by (auto simp: remove_node_ll_eq)
qed

section \<open>The destructor\<close>

lemma remove_head:
  "ll_wf l \<Longrightarrow> chain l \<noteq> [] \<Longrightarrow>
   remove_node_ll l 0 = Inr \<lparr>chain = tl (chain l), len = len l - 1\<rparr>"
  by (auto simp: remove_node_ll_eq drop_Suc)

lemma remove_head_empty:
  "chain l = [] \<Longrightarrow> remove_node_ll l 0 = Inr l"
  by (simp add: remove_node_ll_def)

lemma destroy_loop_eq:
  "ll_wf l \<Longrightarrow> 0 \<le> i \<Longrightarrow>
   \<exists>l'. destroy_loop i l = Inr l' \<and> ll_wf l' \<and>
        chain l' = drop (nat ((len l - i + 1) div 2)) (chain l)"
proof (induction i l rule: destroy_loop.induct)
  case (1 i l)
  show ?case
  proof (cases "i < len l")
    case False
    then have "nat ((len l - i + 1) div 2) = 0" by simp
    then show ?thesis using False 1(2) by (subst destroy_loop.simps) simp
  next
    case True
    let ?l = "\<lparr>chain = tl (chain l), len = len l - 1\<rparr>"
    have ne: "chain l \<noteq> []" using True 1(2,3) by (auto simp: ll_wf_def)
    note rm = remove_head [OF 1(2) ne]
    have wf: "ll_wf ?l" using 1(2) ne by (cases "chain l") (auto simp: ll_wf_def)
    obtain l' where l': "destroy_loop (i + 1) ?l = Inr l'" "ll_wf l'"
      "chain l' = drop (nat ((len ?l - (i + 1) + 1) div 2)) (chain ?l)"
      using 1(1) [OF True rm wf] 1(3) by auto
    have "nat ((len l - i + 1) div 2) = Suc (nat ((len ?l - (i + 1) + 1) div 2))"
      using True by simp
    then show ?thesis using True rm l' by (subst destroy_loop.simps) (simp add: drop_Suc)
  qed
qed

section \<open>Binary search\<close>

context comparator
begin

lemma search_loop_correct:
  assumes "ll_wf l" and "sorted (map key (chain l))"
    and "0 \<le> lo" "lo \<le> hi" "hi \<le> int (length (chain l))" "nat (hi - lo) < fuel"
    and "lo < hi \<Longrightarrow> pos = (lo + hi) div 2"
    and "\<And>i. i < nat lo \<Longrightarrow> key (chain l ! i) < qkey q"
    and "\<And>i. nat hi \<le> i \<Longrightarrow> i < length (chain l) \<Longrightarrow> qkey q < key (chain l ! i)"
  shows "search_loop l q cmp pos lo hi fuel =
    Inr (Some (if qkey q \<in> key ` set (chain l) then 1 else 0))"
  using assms(3-)
proof (induction fuel arbitrary: lo hi pos)
  case (Suc fuel)
  have absent: "qkey q \<notin> key ` set (chain l)"
    if "\<And>i. i < length (chain l) \<Longrightarrow> key (chain l ! i) < qkey q \<or> qkey q < key (chain l ! i)"
    using that by (fastforce simp: in_set_conv_nth)
  show ?case
  proof (cases "lo < hi")
    case False
    have "key (chain l ! i) < qkey q \<or> qkey q < key (chain l ! i)" if "i < length (chain l)" for i
      using Suc.prems(6) [of i] Suc.prems(7) [of i] False Suc.prems(2) that by fastforce
    with False show ?thesis using absent by simp
  next
    case True
    let ?d = "chain l ! nat pos"
    have pos: "pos = (lo + hi) div 2" using Suc.prems(5) True .
    then have pb: "lo \<le> pos" "pos < hi" "0 \<le> pos" using True Suc.prems(1) by auto
    then have np: "nat pos < length (chain l)" using Suc.prems(3) by linarith
    have rt: "retrieve_ll l pos = Inr (Some ?d)"
      using assms(1) pb Suc.prems(3) by (simp add: retrieve_ll_eq)
    have mono: "i \<le> j \<Longrightarrow> j < length (chain l) \<Longrightarrow> key (chain l ! i) \<le> key (chain l ! j)" for i j
      using assms(2) sorted_nth_mono [of "map key (chain l)" i j] by simp
    consider (gt) "qkey q < key ?d" | (lt) "key ?d < qkey q" | (eq) "key ?d = qkey q"
      by (meson linorder_neqE)
    then show ?thesis
    proof cases
      case gt
      have up: "qkey q < key (chain l ! i)" if "nat pos \<le> i" "i < length (chain l)" for i
        using mono [OF that] gt by (rule order_less_le_trans [rotated])
      show ?thesis
      proof (cases "pos = (lo + pos) div 2")
        case True': True
        then have "pos = lo" using pb(1) by linarith
        then have "key (chain l ! i) < qkey q \<or> qkey q < key (chain l ! i)"
          if "i < length (chain l)" for i
          using up [of i] Suc.prems(6) [of i] that by fastforce
        then show ?thesis using True True' gt rt absent by simp
      next
        case False
        have "search_loop l q cmp ((lo + pos) div 2) lo pos fuel =
          Inr (Some (if qkey q \<in> key ` set (chain l) then 1 else 0))"
          using Suc.prems pb up by (intro Suc.IH) auto
        then show ?thesis using True False gt rt by simp
      qed
    next
      case lt
      have down: "key (chain l ! i) < qkey q" if "i \<le> nat pos" for i
        using mono [OF that np] lt by (rule order_le_less_trans)
      have ng: "\<not> qkey q < key ?d" using lt by simp
      show ?thesis
      proof (cases "pos = (hi + pos) div 2")
        case True': True
        then have "hi = pos + 1" using pb(2) by linarith
        then have "key (chain l ! i) < qkey q \<or> qkey q < key (chain l ! i)"
          if "i < length (chain l)" for i
          using down [of i] Suc.prems(7) [of i] that pb(3) by (cases "i \<le> nat pos") auto
        then show ?thesis using True True' lt ng rt absent by simp
      next
        case False
        then have "lo < pos" using pos pb(1) by (metis add.commute order_le_less)
        then have "search_loop l q cmp ((hi + pos) div 2) pos hi fuel =
          Inr (Some (if qkey q \<in> key ` set (chain l) then 1 else 0))"
          using Suc.prems pb down by (intro Suc.IH) (auto simp: add.commute)
        then show ?thesis using True False lt ng rt by simp
      qed
    next
      case eq
      then have "qkey q \<in> key ` set (chain l)" using np by (metis image_eqI nth_mem)
      then show ?thesis using True eq rt by simp
    qed
  qed
qed simp

lemma binary_search_correct:
  assumes "ll_wf l" and "sorted (map key (chain l))"
  shows "binary_search_ll l q cmp =
    Inr (Some (if qkey q \<in> key ` set (chain l) then 1 else 0))"
  unfolding binary_search_ll_def using assms
  by (intro search_loop_correct) (auto simp: ll_wf_def)

end

section \<open>JSON\<close>

lemma to_json_loop_eq:
  assumes "ll_wf l" and "i + k = length (chain l)"
  shows "to_json_loop l f (int i) k json = Inr (json @ join '','' (map f (drop i (chain l))))"
  using assms(2)
proof (induction k arbitrary: i json)
  case 0
  then show ?case by simp
next
  case (Suc k)
  let ?d = "chain l ! i"
  have i: "i < length (chain l)" and li: "int i < len l"
    using Suc.prems assms(1) by (auto simp: ll_wf_def)
  have rt: "retrieve_ll l (int i) = Inr (Some ?d)" using assms(1) i by (simp add: retrieve_ll_eq)
  have dr: "drop i (chain l) = ?d # drop (Suc i) (chain l)" using i by (simp add: Cons_nth_drop_Suc)
  have IH: "to_json_loop l f (int i + 1) k j = Inr (j @ join '','' (map f (drop (Suc i) (chain l))))" for j
    using Suc.IH [of "Suc i" j] Suc.prems by (simp add: add.commute)
  have last: "int i \<noteq> len l - 1 \<longleftrightarrow> drop (Suc i) (chain l) \<noteq> []"
    using i assms(1) by (auto simp: ll_wf_def)
  show ?case
    using li rt by (simp add: strcat_cap_def Let_def IH dr join_Cons last)
qed

lemma to_json_ll_eq:
  "ll_wf l \<Longrightarrow> to_json_ll l f = Inr (''['' @ join '','' (map f (chain l)) @ '']'')"
  using to_json_loop_eq [of l 0 "length (chain l)" f "''[''"]
  by (simp add: to_json_ll_def ll_wf_def strcat_cap_def)

section \<open>Sorting\<close>

lemma bubble_sort_empty: "ll_wf l \<Longrightarrow> chain l = [] \<Longrightarrow> bubble_sort_ll l cmp = Inr l"
  by (simp add: bubble_sort_ll_def retrieve_ll_eq)

lemma bubble_sort_nonempty:
  "ll_wf l \<Longrightarrow> chain l \<noteq> [] \<Longrightarrow> bubble_sort_ll l cmp = Inl Type_Confusion"
  by (simp add: bubble_sort_ll_def retrieve_ll_eq)

section \<open>Properties\<close>

text \<open>
  C30. A list refines the abstract sequence: an insertion at a position from 0 to the length puts the
  datum there and moves the later ones up, as every retrieval shows; removing it gives the list back.
\<close>

theorem list_insert_roundtrip:
  assumes "ll_wf l" and "0 < n" and "0 \<le> i" and "i \<le> int (length (chain l))"
  shows "\<exists>l'. insert_ll l i d n = Inr l' \<and> ll_wf l' \<and> remove_node_ll l' i = Inr l
    \<and> (\<forall>j. retrieve_ll l' j =
        (if j = i then Inr (Some d) else retrieve_ll l (if j < i then j else j - 1)))"
proof -
  obtain l' where l': "insert_ll l i d n = Inr l'"
    "chain l' = take (nat i) (chain l) @ d # drop (nat i) (chain l)"
    using assms by (simp add: insert_ll_eq)
  have wf: "ll_wf l'" using assms(1) l'(1) by (rule insert_ll_wf)
  have "retrieve_ll l' j = retrieve_ll l (if j < i then j else j - 1)" if "j \<noteq> i" for j
    using that assms wf l'(2) by (auto simp: retrieve_ll_eq nth_append nth_Cons' nat_diff_distrib)
  then show ?thesis
    using l'(1) wf insert_remove [OF assms l'(1)] insert_retrieve [OF assms l'(1)] by auto
qed

theorem list_insert_roundtrip_witness:
  "\<exists>l'. insert_ll \<lparr>chain = [1, 3], len = 2\<rparr> 1 (2 :: int) 4 = Inr l'
    \<and> remove_node_ll l' 1 = Inr \<lparr>chain = [1, 3], len = 2\<rparr> \<and> retrieve_ll l' 2 = Inr (Some 3)"
proof -
  let ?l = "\<lparr>chain = [1, 3 :: int], len = 2\<rparr>"
  have "ll_wf ?l" by (simp add: ll_wf_def)
  moreover have "retrieve_ll ?l 1 = Inr (Some 3)" using \<open>ll_wf ?l\<close> by (simp add: retrieve_ll_eq)
  ultimately show ?thesis using list_insert_roundtrip [of ?l 4 1 2] by fastforce
qed

text \<open>
  Removal is total except at the index that equals the length of a non-empty list: the guard of
  \<open>iterate_ll\<close> lets it through and the code reads a field of NULL.
\<close>

lemma list_remove_faults:
  assumes "ll_wf l"
  shows "remove_node_ll l i = Inl f \<longleftrightarrow> f = Null_Deref \<and> i = int (length (chain l)) \<and> chain l \<noteq> []"
  using assms by (auto simp: remove_node_ll_eq)

lemma list_remove_faults_witness:
  "remove_node_ll \<lparr>chain = [7 :: int], len = 1\<rparr> 1 = Inl Null_Deref"
  using list_remove_faults [of "\<lparr>chain = [7 :: int], len = 1\<rparr>" 1 Null_Deref] by (simp add: ll_wf_def)

text \<open>
  C31. The destructor frees only the first half of the list (rounded up), because its loop compares a
  rising index with a length that each removal lowers.
\<close>

theorem list_destructor_frees_half:
  assumes "ll_wf l"
  shows "\<exists>l'. linked_list_destructor l = Inr l' \<and> chain l' = drop ((length (chain l) + 1) div 2) (chain l)"
proof -
  have "nat ((len l - 0 + 1) div 2) = (length (chain l) + 1) div 2"
    using assms by (simp add: ll_wf_def nat_div_distrib nat_add_distrib)
  then show ?thesis
    using destroy_loop_eq [OF assms, of 0] by (auto simp: linked_list_destructor_def)
qed

theorem list_destructor_frees_half_witness:
  "\<exists>l'. linked_list_destructor \<lparr>chain = [1, 2, 3 :: int], len = 3\<rparr> = Inr l' \<and> chain l' = [3]"
proof -
  have "drop ((length [1, 2, 3 :: int] + 1) div 2) [1, 2, 3] = [3 :: int]" by code_simp
  then show ?thesis using list_destructor_frees_half [of "\<lparr>chain = [1, 2, 3 :: int], len = 3\<rparr>"]
    by (simp add: ll_wf_def del: One_nat_def)
qed

text \<open>
  C29. The binary search over a sorted list of ints ends within length + 1 rounds and answers 1
  exactly when the value is in the list; it never reads outside the list.
\<close>

theorem list_binary_search_correct:
  assumes "ll_wf l" and "sorted (chain l)"
  shows "binary_search_ll l v binary_search_tree_int_compare = Inr (Some (if v \<in> set (chain l) then 1 else 0))"
  using int_cmp.binary_search_correct [OF assms(1)] assms(2) by simp

theorem list_binary_search_correct_witness:
  "binary_search_ll \<lparr>chain = [-4, 0, 9], len = 3\<rparr> 9 binary_search_tree_int_compare = Inr (Some 1)"
  using list_binary_search_correct [of "\<lparr>chain = [-4, 0, 9], len = 3\<rparr>" 9] by (simp add: ll_wf_def)

end
