(* ===== verification/Group_Model.thy ===== *)
theory Group_Model
  imports User_Model Linked_List
begin

text \<open>
  Groups (\<open>src/model/group.c\<close>). \<open>go_code\<close> and \<open>go_created\<close> are None until they are set:
  \<open>group_new\<close> and \<open>group_save\<close> never set \<open>created_at\<close>. The pointers \<open>_owner\<close> and \<open>_members\<close>, in
  which the getters keep their result, are not modelled; no handler calls a getter twice.
\<close>

section \<open>Objects\<close>

record group_obj =
  go_id :: int
  go_name :: string
  go_description :: "string option"
  go_avatar :: "string option"
  go_owner :: int
  go_status :: int
  go_code :: "string option"
  go_created :: "string option"

definition group_new :: "string \<Rightarrow> string option \<Rightarrow> string option \<Rightarrow> int \<Rightarrow> group_obj" where
  "group_new nm desc av ow =
     \<lparr>go_id = 0, go_name = nm, go_description = desc, go_avatar = av, go_owner = ow,
      go_status = 1, go_code = None, go_created = None\<rparr>"

text \<open>What \<open>printf\<close> makes of a pointer field.\<close>

definition shown :: "env \<Rightarrow> string option \<Rightarrow> string" where
  "shown e p = (case p of None \<Rightarrow> garbage e | Some s \<Rightarrow> s)"

definition group_folder :: "env \<Rightarrow> group_obj \<Rightarrow> string run" where
  "group_folder e grp = sprintf_malloc e 100 (UPLOAD_DIR @ ''/'' @ shown e (go_code grp))"

section \<open>Operations\<close>

text \<open>The statement that undoes the insertion; its result is not looked at.\<close>

definition rollback_group :: "env \<Rightarrow> group_obj \<Rightarrow> int act" where
  "rollback_group e grp =
     bind (lift (bind_long e (go_id grp))) (\<lambda>i.
     bind (exec_update e (\<lambda>n d. Some (delete_group_row i d))) (\<lambda>_. ret (-1)))"

definition group_save :: "env \<Rightarrow> group_obj \<Rightarrow> (int \<times> group_obj) act" where
  "group_save e grp =
     bind (lift (bind_long e (go_owner grp))) (\<lambda>ow.
     bind (lift (bind_int e (go_status grp))) (\<lambda>st.
     bind (exec_update e (\<lambda>n. insert_group (go_name grp) (go_description grp) (go_avatar grp)
         ow st (random_hex e n 5) (clock e n))) (\<lambda>ok.
     if \<not> ok then ret (-1, grp)
     else
       bind last_insert_rowid (\<lambda>last_id.
       let grp = grp\<lparr>go_id := int32 last_id\<rparr>
       in bind (lift (bind_long e (go_id grp))) (\<lambda>i.
          bind (exec_query e (\<lambda>d. map gcode (filter (\<lambda>r. gid r = i) (groups d)))) (\<lambda>rows.
          case rows of
            None \<Rightarrow> ret (-1, grp)
          | Some codes \<Rightarrow>
              bind (deref_act (if codes = [] then None else Some (last codes))) (\<lambda>code.
              let grp = grp\<lparr>go_code := Some code\<rparr>
              in bind (lift (group_folder e grp)) (\<lambda>folder.
                 bind (create_directory e folder) (\<lambda>made.
                 if \<not> made then bind (rollback_group e grp) (\<lambda>r. ret (r, grp))
                 else
                   bind (exec_update e (\<lambda>n. insert_member i ow)) (\<lambda>ok.
                   if \<not> ok then bind (rollback_group e grp) (\<lambda>r. ret (r, grp))
                   else ret (0, grp))))))))))) "

definition group_update :: "env \<Rightarrow> group_obj \<Rightarrow> int act" where
  "group_update e grp =
     bind (lift (bind_int e (go_status grp))) (\<lambda>st.
     bind (lift (bind_long e (go_id grp))) (\<lambda>i.
     bind (exec_update e (\<lambda>n. update_group_row (go_name grp) (go_description grp)
         (go_avatar grp) st i)) (\<lambda>ok. if \<not> ok then ret (-1) else ret 0)))"

definition group_remove :: "env \<Rightarrow> group_obj \<Rightarrow> int act" where
  "group_remove e grp =
     bind (lift (bind_long e (go_id grp))) (\<lambda>i.
     bind (exec_update e (\<lambda>n d. Some (delete_group_row i d))) (\<lambda>ok.
     if \<not> ok then ret (-1)
     else bind (lift (group_folder e grp)) (\<lambda>folder.
          bind (remove_directory e folder) (\<lambda>_. ret 0))))"

definition group_add_member :: "env \<Rightarrow> group_obj \<Rightarrow> user \<Rightarrow> int act" where
  "group_add_member e grp user =
     bind (lift (bind_long e (go_id grp))) (\<lambda>g.
     bind (lift (bind_long e (uid user))) (\<lambda>u.
     bind (exec_update e (\<lambda>n. insert_member g u)) (\<lambda>ok. if \<not> ok then ret (-1) else ret 0)))"

definition group_leave :: "env \<Rightarrow> group_obj \<Rightarrow> user \<Rightarrow> int act" where
  "group_leave e grp user =
     bind (lift (bind_long e (go_id grp))) (\<lambda>g.
     bind (lift (bind_long e (uid user))) (\<lambda>u.
     bind (exec_update e (\<lambda>n d. Some (delete_member_row g u d))) (\<lambda>ok.
       if \<not> ok then ret (-1) else ret 0)))"

definition group_get_owner :: "env \<Rightarrow> group_obj \<Rightarrow> user option act" where
  "group_get_owner e grp = user_find_by_id e (go_owner grp)"

definition sizeof_user :: nat where "sizeof_user = 400"

text \<open>Members go to the front of the list. A member without a user row would be copied from NULL.\<close>

definition group_get_members :: "env \<Rightarrow> group_obj \<Rightarrow> user linked_list option act" where
  "group_get_members e grp =
     bind (lift (bind_long e (go_id grp))) (\<lambda>g.
     bind (exec_query e (\<lambda>d. map muser (filter (\<lambda>r. mgroup r = g) (group_members d)))) (\<lambda>rows.
     case rows of
       None \<Rightarrow> ret None
     | Some us \<Rightarrow>
         bind (each_row (\<lambda>u l.
             bind (user_find_by_id e u) (\<lambda>user.
             bind (deref_act user) (\<lambda>user. lift (insert_ll l 0 user sizeof_user))))
           us linked_list_constructor) (\<lambda>l. ret (Some l))))"

definition group_json_text :: "env \<Rightarrow> group_obj \<Rightarrow> string" where
  "group_json_text e grp =
     ''{'' @ quoted ''id'' @ '':'' @ show_int (go_id grp)
     @ '','' @ quoted ''name'' @ '':'' @ quoted (go_name grp)
     @ '','' @ quoted ''description'' @ '':'' @ quoted (case go_description grp of None \<Rightarrow> [] | Some x \<Rightarrow> x)
     @ '','' @ quoted ''avatar'' @ '':'' @ quoted (case go_avatar grp of None \<Rightarrow> [] | Some x \<Rightarrow> x)
     @ '','' @ quoted ''status'' @ '':'' @ show_int (go_status grp)
     @ '','' @ quoted ''code'' @ '': '' @ quoted (shown e (go_code grp))
     @ '','' @ quoted ''owner_id'' @ '':'' @ show_int (go_owner grp)
     @ '','' @ quoted ''created_at'' @ '':'' @ quoted (shown e (go_created grp)) @ ''}''"

definition group_to_json :: "env \<Rightarrow> group_obj \<Rightarrow> string run" where
  "group_to_json e grp = sprintf_malloc e 4096 (group_json_text e grp)"

text \<open>1, 0, or -1 when the statement fails.\<close>

definition group_is_member :: "env \<Rightarrow> group_obj \<Rightarrow> user \<Rightarrow> int act" where
  "group_is_member e grp user =
     bind (lift (bind_long e (go_id grp))) (\<lambda>g.
     bind (lift (bind_long e (uid user))) (\<lambda>u.
     bind (exec_query e (\<lambda>d. filter (\<lambda>r. mgroup r = g \<and> muser r = u) (group_members d))) (\<lambda>rows.
     case rows of None \<Rightarrow> ret (-1) | Some rs \<Rightarrow> ret (if rs = [] then 0 else 1))))"

definition group_has_directory :: "env \<Rightarrow> group_obj \<Rightarrow> int \<Rightarrow> int act" where
  "group_has_directory e grp directory_id =
     bind (lift (bind_long e (go_id grp))) (\<lambda>g.
     bind (lift (bind_long e directory_id)) (\<lambda>i.
     bind (exec_query e (\<lambda>d. filter (\<lambda>r. dgroup r = g \<and> did r = i) (directories d))) (\<lambda>rows.
     case rows of None \<Rightarrow> ret (-1) | Some rs \<Rightarrow> ret (if rs = [] then 0 else 1))))"

definition get_group_callback :: "group \<Rightarrow> group_obj run" where
  "get_group_callback row =
     Inr ((group_new (gname row) (gdescription row) (gavatar row) (gowner row))
            \<lparr>go_id := gid row, go_status := int32 (gstatus row), go_code := Some (gcode row),
             go_created := Some (gcreated row)\<rparr>)"

definition group_find_by_id :: "env \<Rightarrow> int \<Rightarrow> group_obj option act" where
  "group_find_by_id e i =
     bind (lift (bind_long e i)) (\<lambda>i.
       find_one e (\<lambda>d. filter (\<lambda>r. gid r = i) (groups d)) get_group_callback)"

definition group_find_by_name :: "env \<Rightarrow> string \<Rightarrow> group_obj option act" where
  "group_find_by_name e nm =
     find_one e (\<lambda>d. filter (\<lambda>r. gname r = nm) (groups d)) get_group_callback"

definition group_find_by_code :: "env \<Rightarrow> string \<Rightarrow> group_obj option act" where
  "group_find_by_code e code =
     find_one e (\<lambda>d. filter (\<lambda>r. gcode r = code) (groups d)) get_group_callback"

definition sizeof_group :: nat where "sizeof_group = 152"

text \<open>The join, in the order of the memberships; groups go to the front of the list.\<close>

definition groups_of_member :: "int \<Rightarrow> db \<Rightarrow> group list" where
  "groups_of_member u d =
     concat (map (\<lambda>m. filter (\<lambda>g. gid g = mgroup m) (groups d))
       (filter (\<lambda>m. muser m = u) (group_members d)))"

definition group_find_by_member :: "env \<Rightarrow> int \<Rightarrow> group_obj linked_list option act" where
  "group_find_by_member e member_id =
     bind (lift (bind_long e member_id)) (\<lambda>u.
     bind (exec_query e (groups_of_member u)) (\<lambda>rows.
     case rows of
       None \<Rightarrow> ret None
     | Some gs \<Rightarrow>
         bind (each_row (\<lambda>row l.
             bind (lift (get_group_callback row)) (\<lambda>grp. lift (insert_ll l 0 grp sizeof_group)))
           gs linked_list_constructor) (\<lambda>l. ret (Some l))))"

section \<open>What the operations keep\<close>

lemmas group_writes = group_save_def rollback_group_def group_update_def group_remove_def
  group_add_member_def group_leave_def

lemmas group_reads = group_get_owner_def group_get_members_def group_is_member_def
  group_has_directory_def group_find_by_id_def group_find_by_name_def group_find_by_code_def
  group_find_by_member_def

lemma keeps_group_writes [keep_rules]:
  "keeps schema_ok (group_save e g)" "keeps schema_ok (group_update e g)"
  "keeps schema_ok (group_remove e g)" "keeps schema_ok (group_add_member e g u)"
  "keeps schema_ok (group_leave e g u)"
  unfolding group_writes Let_def by (intro keep_rules)+

lemma keeps_group_reads [keep_rules]:
  "keeps schema_ok (group_get_owner e g)" "keeps (tables_are d) (group_get_owner e g)"
  "keeps schema_ok (group_get_members e g)" "keeps (tables_are d) (group_get_members e g)"
  "keeps schema_ok (group_is_member e g u)" "keeps (tables_are d) (group_is_member e g u)"
  "keeps schema_ok (group_has_directory e g i)" "keeps (tables_are d) (group_has_directory e g i)"
  "keeps schema_ok (group_find_by_id e i)" "keeps (tables_are d) (group_find_by_id e i)"
  "keeps schema_ok (group_find_by_name e c)" "keeps (tables_are d) (group_find_by_name e c)"
  "keeps schema_ok (group_find_by_code e c)" "keeps (tables_are d) (group_find_by_code e c)"
  "keeps schema_ok (group_find_by_member e i)" "keeps (tables_are d) (group_find_by_member e i)"
  unfolding group_reads by (intro keep_rules keeps_each_row)+

lemmas group_frames [frame_dests] = keeps_group_reads(2,4,6,8,10,12,14,16) [THEN keeps_tablesD]

text \<open>The object made from a row, and what the lookups find.\<close>

definition group_of_row :: "group \<Rightarrow> group_obj \<Rightarrow> bool" where
  "group_of_row r g \<longleftrightarrow> go_id g = gid r \<and> go_name g = gname r \<and> go_description g = gdescription r
     \<and> go_avatar g = gavatar r \<and> go_owner g = gowner r \<and> go_status g = int32 (gstatus r)
     \<and> go_code g = Some (gcode r) \<and> go_created g = Some (gcreated r)"

lemma get_group_callback_Inr: "get_group_callback r = Inr g \<Longrightarrow> group_of_row r g"
  by (auto simp: get_group_callback_def group_new_def group_of_row_def)

lemma group_find_by_code_SomeD:
  assumes "group_find_by_code e code s = Inr (Some g, s')"
  shows "db s' = db s \<and> (\<exists>r \<in> set (groups (db s)). gcode r = code \<and> group_of_row r g)"
  using find_one_SomeD [OF assms [unfolded group_find_by_code_def]]
  by (auto dest: get_group_callback_Inr)

lemma group_find_by_id_SomeD:
  assumes "group_find_by_id e i s = Inr (Some g, s')"
  shows "db s' = db s \<and> (\<exists>r \<in> set (groups (db s)). gid r = i \<and> group_of_row r g)"
proof -
  obtain k where k: "bind_long e i = Inr k"
    "find_one e (\<lambda>d. filter (\<lambda>r. gid r = k) (groups d)) get_group_callback s = Inr (Some g, s')"
    using assms by (auto simp: group_find_by_id_def act_Inr)
  then show ?thesis using find_one_SomeD [OF k(2)] bind_long_Inr [OF k(1)]
    by (auto dest: get_group_callback_Inr)
qed

end
