(* ===== verification/Node_Model.thy ===== *)
theory Node_Model
  imports Group_Model
begin

text \<open>
  Directories (\<open>src/model/directory.c\<close>) and files (\<open>src/model/file.c\<close>). A parent or directory id of
  0 stands for none. \<open>path\<close> and the times are None until they are set; \<open>directory_save\<close> does not set
  \<open>updated_at\<close>. As for groups, the pointers that keep a getter's result are not modelled.
\<close>

section \<open>Objects\<close>

definition READ :: int where "READ = 1"

definition WRITE :: int where "WRITE = 2"

record dir_obj =
  do_id :: int
  do_name :: string
  do_permission :: int
  do_path :: "string option"
  do_parent :: int
  do_group :: int
  do_owner :: int
  do_created :: "string option"
  do_updated :: "string option"

record file_obj =
  fo_id :: int
  fo_name :: string
  fo_size :: int
  fo_permission :: int
  fo_path :: "string option"
  fo_directory :: int
  fo_group :: int
  fo_owner :: int
  fo_modified :: int
  fo_created :: "string option"
  fo_updated :: "string option"

datatype fnode = FDIRECTORY dir_obj | FFILE file_obj

definition sizeof_fnode :: nat where "sizeof_fnode = 16"

section \<open>Directories\<close>

definition directory_new :: "string \<Rightarrow> int \<Rightarrow> int \<Rightarrow> int option \<Rightarrow> dir_obj" where
  "directory_new nm user_id group_id parent_id =
     \<lparr>do_id = 0, do_name = nm, do_permission = READ, do_path = None,
      do_parent = (case parent_id of None \<Rightarrow> 0 | Some p \<Rightarrow> p), do_group = group_id,
      do_owner = user_id, do_created = None, do_updated = None\<rparr>"

definition get_directory_callback :: "directory \<Rightarrow> dir_obj run" where
  "get_directory_callback row =
     Inr ((directory_new (dname row) (downer row) (dgroup row) (dparent row))
            \<lparr>do_id := did row, do_permission := int32 (dpermission row), do_path := Some (dpath row),
             do_created := Some (dcreated row), do_updated := Some (dupdated row)\<rparr>)"

definition directory_find_by_id :: "env \<Rightarrow> int \<Rightarrow> dir_obj option act" where
  "directory_find_by_id e i =
     bind (lift (bind_long e i)) (\<lambda>i.
       find_one e (\<lambda>d. filter (\<lambda>r. did r = i) (directories d)) get_directory_callback)"

definition directory_get_owner :: "env \<Rightarrow> dir_obj \<Rightarrow> user option act" where
  "directory_get_owner e dir = user_find_by_id e (do_owner dir)"

definition directory_get_group :: "env \<Rightarrow> dir_obj \<Rightarrow> group_obj option act" where
  "directory_get_group e dir = group_find_by_id e (do_group dir)"

definition directory_get_parent :: "env \<Rightarrow> dir_obj \<Rightarrow> dir_obj option act" where
  "directory_get_parent e dir =
     (if do_parent dir = 0 then ret None else directory_find_by_id e (do_parent dir))"

text \<open>The path and permission of a new directory; None when its parent or its group is missing.\<close>

definition directory_locate :: "env \<Rightarrow> dir_obj \<Rightarrow> dir_obj option act" where
  "directory_locate e dir =
     (if do_parent dir \<noteq> 0 then
        bind (directory_find_by_id e (do_parent dir)) (\<lambda>parent.
        case parent of
          None \<Rightarrow> ret None
        | Some parent \<Rightarrow>
            bind (deref_act (do_path parent)) (\<lambda>p.
            bind (lift (sprintf (length p + length (do_name dir) + 2) (p @ ''/'' @ do_name dir))) (\<lambda>path.
              ret (Some (dir\<lparr>do_permission := do_permission parent, do_path := Some path\<rparr>)))))
      else
        bind (directory_get_group e dir) (\<lambda>grp.
        case grp of
          None \<Rightarrow> ret None
        | Some grp \<Rightarrow>
            bind (deref_act (go_code grp)) (\<lambda>code.
            bind (lift (sprintf (length (do_name dir) + length code + 2) (code @ ''/'' @ do_name dir)))
              (\<lambda>path. ret (Some (dir\<lparr>do_path := Some path\<rparr>))))))"

text \<open>
  When the insertion fails, the directory that has just been made stays: \<open>remove_directory\<close> gets
  the path without \<open>UPLOAD_DIR\<close>.
\<close>

definition directory_save :: "env \<Rightarrow> dir_obj \<Rightarrow> (int \<times> dir_obj) act" where
  "directory_save e dir =
     bind (directory_locate e dir) (\<lambda>located.
     case located of
       None \<Rightarrow> ret (-1, dir)
     | Some dir \<Rightarrow>
         bind (deref_act (do_path dir)) (\<lambda>path.
         bind (lift (sprintf 1024 (UPLOAD_DIR @ ''/'' @ path))) (\<lambda>fullpath.
         bind (create_directory e fullpath) (\<lambda>made.
         if \<not> made then ret (-1, dir)
         else
           bind (lift (bind_long e (do_owner dir))) (\<lambda>ow.
           bind (lift (bind_long e (do_group dir))) (\<lambda>g.
           bind (if do_parent dir \<noteq> 0
                 then bind (lift (bind_long e (do_parent dir))) (\<lambda>p. ret (Some p)) else ret None) (\<lambda>p.
           bind (lift (bind_int e (do_permission dir))) (\<lambda>perm.
           bind (exec_update e (\<lambda>n. insert_directory (do_name dir) ow g p path perm (clock e n))) (\<lambda>ok.
           if \<not> ok then bind (remove_directory e path) (\<lambda>_. ret (-1, dir))
           else
             bind (get_current_time e) (\<lambda>current_time.
             bind last_insert_rowid (\<lambda>i.
               ret (0, dir\<lparr>do_id := i, do_created := Some current_time\<rparr>))))))))))))"

definition directory_remove :: "env \<Rightarrow> dir_obj \<Rightarrow> int act" where
  "directory_remove e dir =
     bind (lift (bind_long e (do_id dir))) (\<lambda>i.
     bind (exec_update e (\<lambda>n d. Some (delete_directory_row i d))) (\<lambda>ok.
     if \<not> ok then ret (-1)
     else
       bind (lift (sprintf 1024 (UPLOAD_DIR @ ''/'' @ shown e (do_path dir)))) (\<lambda>fullpath.
       bind (remove_directory e fullpath) (\<lambda>_. ret 0))))"

definition directory_update :: "env \<Rightarrow> dir_obj \<Rightarrow> (int \<times> dir_obj) act" where
  "directory_update e dir =
     bind (lift (bind_int e (do_permission dir))) (\<lambda>perm.
     bind (lift (bind_long e (do_id dir))) (\<lambda>i.
     bind (exec_update e (\<lambda>n. update_directory_row perm (clock e n) i)) (\<lambda>ok.
     if \<not> ok then ret (-1, dir)
     else bind (get_current_time e) (\<lambda>t. ret (0, dir\<lparr>do_updated := Some t\<rparr>)))))"

definition directory_json_text :: "env \<Rightarrow> dir_obj \<Rightarrow> string" where
  "directory_json_text e dir =
     ''{'' @ quoted ''id'' @ '':'' @ show_int (do_id dir)
     @ '','' @ quoted ''name'' @ '':'' @ quoted (do_name dir)
     @ '','' @ quoted ''path'' @ '':'' @ quoted (shown e (do_path dir))
     @ '','' @ quoted ''owner_id'' @ '':'' @ show_int (do_owner dir)
     @ '','' @ quoted ''parent_id'' @ '':'' @ show_int (do_parent dir)
     @ '','' @ quoted ''permission'' @ '':'' @ show_int (do_permission dir)
     @ '','' @ quoted ''group_id'' @ '':'' @ show_int (do_group dir)
     @ '','' @ quoted ''created_at'' @ '':'' @ quoted (shown e (do_created dir))
     @ '','' @ quoted ''updated_at'' @ '':'' @ quoted (shown e (do_updated dir)) @ ''}''"

definition directory_json :: "env \<Rightarrow> dir_obj \<Rightarrow> string run" where
  "directory_json e dir = sprintf_malloc e 4096 (directory_json_text e dir)"

section \<open>Files\<close>

definition file_new :: "string \<Rightarrow> int \<Rightarrow> int \<Rightarrow> int \<Rightarrow> int option \<Rightarrow> file_obj" where
  "file_new fullname sz user_id group_id directory_id =
     \<lparr>fo_id = 0, fo_name = fullname, fo_size = sz, fo_permission = READ, fo_path = None,
      fo_directory = (case directory_id of None \<Rightarrow> 0 | Some i \<Rightarrow> i), fo_group = group_id,
      fo_owner = user_id, fo_modified = user_id, fo_created = None, fo_updated = None\<rparr>"

text \<open>
  The directory id is tested in column 5 but read from column 3, the permission. A NULL
  \<open>modified_by\<close> is read as 0.
\<close>

definition get_file_callback :: "file_row \<Rightarrow> file_obj run" where
  "get_file_callback row =
     Inr ((file_new (fname row) (fsize row) (fowner row) (fgroup row)
             (case fdirectory row of None \<Rightarrow> None | Some _ \<Rightarrow> Some (fpermission row)))
            \<lparr>fo_id := fid row, fo_permission := int32 (fpermission row), fo_path := Some (fpath row),
             fo_modified := (case fmodified row of None \<Rightarrow> 0 | Some u \<Rightarrow> u),
             fo_created := Some (fcreated row), fo_updated := Some (fupdated row)\<rparr>)"

definition file_find_by_id :: "env \<Rightarrow> int \<Rightarrow> file_obj option act" where
  "file_find_by_id e i =
     bind (lift (bind_long e i)) (\<lambda>i.
       find_one e (\<lambda>d. filter (\<lambda>r. fid r = i) (files d)) get_file_callback)"

text \<open>\<open>directory_id = NULL\<close> holds for no row.\<close>

definition file_find_by_name :: "env \<Rightarrow> string \<Rightarrow> int \<Rightarrow> int option \<Rightarrow> file_obj option act" where
  "file_find_by_name e nm group_id directory_id =
     bind (lift (bind_long e group_id)) (\<lambda>g.
     bind (case directory_id of None \<Rightarrow> ret None
           | Some i \<Rightarrow> bind (lift (bind_long e i)) (\<lambda>i. ret (Some i))) (\<lambda>dir.
       find_one e (\<lambda>d. filter (\<lambda>r. fname r = nm \<and> fgroup r = g \<and> dir \<noteq> None \<and> fdirectory r = dir) (files d))
         get_file_callback))"

definition file_get_directory :: "env \<Rightarrow> file_obj \<Rightarrow> dir_obj option act" where
  "file_get_directory e f =
     (if fo_directory f = 0 then ret None else directory_find_by_id e (fo_directory f))"

definition file_get_group :: "env \<Rightarrow> file_obj \<Rightarrow> group_obj option act" where
  "file_get_group e f = group_find_by_id e (fo_group f)"

definition file_get_owner :: "env \<Rightarrow> file_obj \<Rightarrow> user option act" where
  "file_get_owner e f = user_find_by_id e (fo_owner f)"

definition file_get_modified_user :: "env \<Rightarrow> file_obj \<Rightarrow> user option act" where
  "file_get_modified_user e f = user_find_by_id e (fo_modified f)"

definition file_save :: "env \<Rightarrow> file_obj \<Rightarrow> (int \<times> file_obj) act" where
  "file_save e f =
     bind (file_get_directory e f) (\<lambda>dir.
     let f = (case dir of None \<Rightarrow> f | Some dir \<Rightarrow> f\<lparr>fo_permission := do_permission dir\<rparr>)
     in bind (lift (bind_long e (fo_size f))) (\<lambda>sz.
        bind (lift (bind_long e (enum_value (fo_permission f)))) (\<lambda>perm.
        bind (deref_act (fo_path f)) (\<lambda>path.
        bind (if fo_directory f \<noteq> 0
              then bind (lift (bind_long e (fo_directory f))) (\<lambda>i. ret (Some i)) else ret None) (\<lambda>dir_id.
        bind (lift (bind_long e (fo_group f))) (\<lambda>g.
        bind (lift (bind_long e (fo_owner f))) (\<lambda>ow.
        bind (lift (bind_long e (fo_modified f))) (\<lambda>md.
        bind (exec_update e (\<lambda>n. insert_file (fo_name f) sz perm path dir_id g ow md (clock e n))) (\<lambda>ok.
        if \<not> ok then ret (-1, f)
        else
          bind (get_current_time e) (\<lambda>current_time.
          bind last_insert_rowid (\<lambda>i.
            ret (0, f\<lparr>fo_id := i, fo_created := Some current_time, fo_updated := Some current_time\<rparr>))))))))))))"

definition file_remove :: "env \<Rightarrow> file_obj \<Rightarrow> int act" where
  "file_remove e f =
     bind (lift (bind_long e (fo_id f))) (\<lambda>i.
     bind (exec_update e (\<lambda>n d. Some (delete_file_row i d))) (\<lambda>ok.
     if \<not> ok then ret (-1)
     else
       bind (lift (sprintf 1024 (UPLOAD_DIR @ ''/'' @ shown e (fo_path f)))) (\<lambda>fullpath.
       bind (os_do e (Remove fullpath)) (\<lambda>_. ret 0))))"

definition file_update :: "env \<Rightarrow> file_obj \<Rightarrow> (int \<times> file_obj) act" where
  "file_update e f =
     bind (get_current_time e) (\<lambda>updated_at.
     bind (lift (bind_long e (fo_size f))) (\<lambda>sz.
     bind (lift (bind_long e (enum_value (fo_permission f)))) (\<lambda>perm.
     bind (lift (bind_long e (fo_modified f))) (\<lambda>md.
     bind (lift (bind_long e (fo_id f))) (\<lambda>i.
     bind (exec_update e (\<lambda>n. update_file_row sz perm md (clock e n) i)) (\<lambda>ok.
     if \<not> ok then ret (-1, f) else ret (0, f\<lparr>fo_updated := Some updated_at\<rparr>)))))))"

definition file_json_text :: "env \<Rightarrow> file_obj \<Rightarrow> string" where
  "file_json_text e f =
     ''{'' @ quoted ''id'' @ '':'' @ show_int (fo_id f)
     @ '','' @ quoted ''name'' @ '':'' @ quoted (fo_name f)
     @ '','' @ quoted ''size'' @ '':'' @ show_int (fo_size f)
     @ '','' @ quoted ''permission'' @ '':'' @ show_int (fo_permission f)
     @ '','' @ quoted ''path'' @ '':'' @ quoted (shown e (fo_path f))
     @ '','' @ quoted ''directory_id'' @ '':'' @ show_int (fo_directory f)
     @ '','' @ quoted ''group_id'' @ '':'' @ show_int (fo_group f)
     @ '','' @ quoted ''owner_id'' @ '':'' @ show_int (fo_owner f)
     @ '','' @ quoted ''modified_by'' @ '':'' @ show_int (fo_modified f)
     @ '','' @ quoted ''created_at'' @ '':'' @ quoted (shown e (fo_created f))
     @ '','' @ quoted ''updated_at'' @ '':'' @ quoted (shown e (fo_updated f)) @ ''}''"

definition file_to_json :: "env \<Rightarrow> file_obj \<Rightarrow> string run" where
  "file_to_json e f = sprintf_malloc e 4096 (file_json_text e f)"

section \<open>Listings\<close>

text \<open>The callbacks append the rows of two statements to one list.\<close>

definition append_directory :: "directory \<Rightarrow> fnode linked_list \<Rightarrow> fnode linked_list act" where
  "append_directory row l =
     bind (lift (get_directory_callback row)) (\<lambda>dir. lift (insert_ll l (len l) (FDIRECTORY dir) sizeof_fnode))"

definition append_file :: "file_row \<Rightarrow> fnode linked_list \<Rightarrow> fnode linked_list act" where
  "append_file row l =
     bind (lift (get_file_callback row)) (\<lambda>f. lift (insert_ll l (len l) (FFILE f) sizeof_fnode))"

definition list_nodes ::
  "env \<Rightarrow> int \<Rightarrow> (int \<Rightarrow> db \<Rightarrow> directory list) \<Rightarrow> (int \<Rightarrow> db \<Rightarrow> file_row list) \<Rightarrow> fnode linked_list option act" where
  "list_nodes e i dir_query file_query =
     bind (lift (bind_long e i)) (\<lambda>k.
     bind (exec_query e (dir_query k)) (\<lambda>rows.
     case rows of
       None \<Rightarrow> ret None
     | Some ds \<Rightarrow>
         bind (each_row append_directory ds linked_list_constructor) (\<lambda>l.
         bind (lift (bind_long e i)) (\<lambda>k.
         bind (exec_query e (file_query k)) (\<lambda>rows.
         case rows of
           None \<Rightarrow> ret None
         | Some fs \<Rightarrow> bind (each_row append_file fs l) (\<lambda>l. ret (Some l)))))))"

definition get_root_node_by_group :: "env \<Rightarrow> int \<Rightarrow> fnode linked_list option act" where
  "get_root_node_by_group e group_id =
     list_nodes e group_id
       (\<lambda>g d. filter (\<lambda>r. dparent r = None \<and> dgroup r = g) (directories d))
       (\<lambda>g d. filter (\<lambda>r. fdirectory r = None \<and> fgroup r = g) (files d))"

definition directory_get_children :: "env \<Rightarrow> dir_obj \<Rightarrow> fnode linked_list option act" where
  "directory_get_children e dir =
     list_nodes e (do_id dir)
       (\<lambda>i d. order_desc dupdated (filter (\<lambda>r. dparent r = Some i) (directories d)))
       (\<lambda>i d. order_desc fupdated (filter (\<lambda>r. fdirectory r = Some i) (files d)))"

section \<open>What the operations keep\<close>

lemmas node_reads = directory_find_by_id_def directory_get_owner_def directory_get_group_def
  directory_get_parent_def file_find_by_id_def file_find_by_name_def file_get_directory_def
  file_get_group_def file_get_owner_def file_get_modified_user_def
  append_directory_def append_file_def list_nodes_def
  get_root_node_by_group_def directory_get_children_def

lemma keeps_node_reads_schema [keep_rules]:
  "keeps schema_ok (directory_find_by_id e i)" "keeps schema_ok (directory_get_owner e r)"
  "keeps schema_ok (directory_get_group e r)" "keeps schema_ok (directory_get_parent e r)"
  "keeps schema_ok (file_find_by_id e i)" "keeps schema_ok (file_find_by_name e nm g p)"
  "keeps schema_ok (file_get_directory e f)" "keeps schema_ok (file_get_group e f)"
  "keeps schema_ok (file_get_owner e f)" "keeps schema_ok (file_get_modified_user e f)"
  "keeps schema_ok (get_root_node_by_group e i)" "keeps schema_ok (directory_get_children e r)"
  unfolding node_reads by (intro keep_rules keeps_each_row)+

lemma keeps_node_reads_tables [keep_rules]:
  "keeps (tables_are d) (directory_find_by_id e i)" "keeps (tables_are d) (directory_get_owner e r)"
  "keeps (tables_are d) (directory_get_group e r)" "keeps (tables_are d) (directory_get_parent e r)"
  "keeps (tables_are d) (file_find_by_id e i)" "keeps (tables_are d) (file_find_by_name e nm g p)"
  "keeps (tables_are d) (file_get_directory e f)" "keeps (tables_are d) (file_get_group e f)"
  "keeps (tables_are d) (file_get_owner e f)" "keeps (tables_are d) (file_get_modified_user e f)"
  "keeps (tables_are d) (get_root_node_by_group e i)" "keeps (tables_are d) (directory_get_children e r)"
  unfolding node_reads by (intro keep_rules keeps_each_row)+

lemma keeps_directory_locate [keep_rules]:
  "keeps schema_ok (directory_locate e r)" "keeps (tables_are d) (directory_locate e r)"
  unfolding directory_locate_def by (intro keep_rules)+

lemma keeps_node_writes [keep_rules]:
  "keeps schema_ok (directory_save e r)" "keeps schema_ok (directory_remove e r)"
  "keeps schema_ok (directory_update e r)" "keeps schema_ok (file_save e f)"
  "keeps schema_ok (file_remove e f)" "keeps schema_ok (file_update e f)"
  unfolding directory_save_def directory_remove_def directory_update_def file_save_def
    file_remove_def file_update_def Let_def
  by (intro keep_rules)+

lemmas node_frames [frame_dests] = keeps_node_reads_tables [THEN keeps_tablesD]

end
