(* ===== verification/Fifo_Queue.thy ===== *)
theory Fifo_Queue
  imports Linked_List
begin

text \<open>
  The queue of \<open>src/data_structures/lists/queue.c\<close>, a linked list used from its two ends, and
  the contract its clients rely on (the request parser, the thread pool): the locale \<open>fifo\<close>, with
  the clients' lemmas proved from it, interpreted on the model.
\<close>

section \<open>The operations\<close>

record 'a queue =
  qlist :: "'a linked_list"

definition queue_constructor :: "'a queue" where
  "queue_constructor = \<lparr>qlist = linked_list_constructor\<rparr>"

definition queue_destructor :: "'a queue \<Rightarrow> 'a queue run" where
  "queue_destructor q = and_then (linked_list_destructor (qlist q)) (\<lambda>l. Inr (q\<lparr>qlist := l\<rparr>))"

definition push :: "'a queue \<Rightarrow> 'a \<Rightarrow> nat \<Rightarrow> 'a queue run" where
  "push q d n =
     and_then (insert_ll (qlist q) (len (qlist q)) d n) (\<lambda>l. Inr (q\<lparr>qlist := l\<rparr>))"

definition peek :: "'a queue \<Rightarrow> 'a option run" where
  "peek q = retrieve_ll (qlist q) 0"

definition pop :: "'a queue \<Rightarrow> 'a queue run" where
  "pop q = and_then (remove_node_ll (qlist q) 0) (\<lambda>l. Inr (q\<lparr>qlist := l\<rparr>))"

definition queue_wf :: "'a queue \<Rightarrow> bool" where
  "queue_wf q \<longleftrightarrow> ll_wf (qlist q)"

definition contents :: "'a queue \<Rightarrow> 'a list" where
  "contents q = chain (qlist q)"

text \<open>
  The loop \<open>x = q.peek(&q); while (x) { body(x); q.pop(&q, NULL); x = q.peek(&q); }\<close> with which
  the clients empty a queue.
\<close>

lemma peek_SomeD: "peek q = Inr (Some d) \<Longrightarrow> contents q \<noteq> []"
  by (auto simp: peek_def retrieve_ll_def iterate_ll_def contents_def run_simps
      split: if_splits option.splits)

lemma pop_shrinks: "contents q \<noteq> [] \<Longrightarrow> pop q = Inr q' \<Longrightarrow> contents q' = tl (contents q)"
  by (cases "chain (qlist q)") (auto simp: pop_def remove_node_ll_def contents_def)

function drain :: "('a \<Rightarrow> 's \<Rightarrow> 's run) \<Rightarrow> 'a queue \<Rightarrow> 's \<Rightarrow> ('a queue \<times> 's) run" where
  "drain body q s =
     and_then (peek q) (\<lambda>p.
       case p of
         None \<Rightarrow> Inr (q, s)
       | Some d \<Rightarrow>
           and_then (body d s) (\<lambda>s'.
           and_then (pop q) (\<lambda>q'. drain body q' s')))"
  by pat_completeness auto
termination
proof (relation "measure (\<lambda>(body, q, s). length (contents q))", goal_cases)
  case (2 body q s p d s' q')
  then have "contents q \<noteq> []" by (auto dest: peek_SomeD)
  then show ?case using 2 by (simp add: pop_shrinks)
qed simp

declare drain.simps [simp del]

section \<open>The contract of a queue\<close>

locale fifo =
  fixes empty :: "'q"
    and enq :: "'q \<Rightarrow> 'a \<Rightarrow> 'q run"
    and front :: "'q \<Rightarrow> 'a option run"
    and deq :: "'q \<Rightarrow> 'q run"
    and items :: "'q \<Rightarrow> 'a list"
    and valid :: "'q \<Rightarrow> bool"
  assumes valid_empty: "valid empty" and items_empty: "items empty = []"
    and enq_ok: "valid q \<Longrightarrow> \<exists>q'. enq q x = Inr q' \<and> valid q' \<and> items q' = items q @ [x]"
    and front_ok: "valid q \<Longrightarrow> front q = Inr (case items q of [] \<Rightarrow> None | x # xs \<Rightarrow> Some x)"
    and deq_ok: "valid q \<Longrightarrow> \<exists>q'. deq q = Inr q' \<and> valid q' \<and> items q' = tl (items q)"
begin

lemma enq_all:
  "valid q \<Longrightarrow> \<exists>q'. fold_run (\<lambda>x q. enq q x) xs q = Inr q' \<and> valid q' \<and> items q' = items q @ xs"
proof (induction xs arbitrary: q)
  case (Cons x xs)
  then obtain q1 where "enq q x = Inr q1" "valid q1" "items q1 = items q @ [x]"
    using enq_ok by blast
  then show ?case using Cons.IH [of q1] by auto
qed simp

lemma enq_then_deq:
  assumes "valid q" and "items q \<noteq> []" and "enq q x = Inr q1" and "deq q1 = Inr q2"
  shows "items q2 = tl (items q) @ [x]"
proof -
  have "valid q1" "items q1 = items q @ [x]" using enq_ok [OF assms(1), of x] assms(3) by auto
  then show ?thesis using deq_ok [of q1] assms(2,4) by auto
qed

end

lemma queue_wf_constructor [simp, wf_rules]: "queue_wf queue_constructor"
  by (simp add: queue_wf_def queue_constructor_def)

lemma contents_constructor [simp]: "contents queue_constructor = []"
  by (simp add: contents_def queue_constructor_def)

lemma push_eq:
  "queue_wf q \<Longrightarrow> 0 < n \<Longrightarrow>
   \<exists>q'. push q d n = Inr q' \<and> queue_wf q' \<and> contents q' = contents q @ [d]"
  by (auto simp: push_def queue_wf_def contents_def insert_ll_eq ll_wf_def)

lemma peek_eq: "queue_wf q \<Longrightarrow> peek q = Inr (case contents q of [] \<Rightarrow> None | x # xs \<Rightarrow> Some x)"
  by (auto simp: peek_def queue_wf_def contents_def retrieve_ll_eq split: list.split)

lemma pop_eq: "queue_wf q \<Longrightarrow> \<exists>q'. pop q = Inr q' \<and> queue_wf q' \<and> contents q' = tl (contents q)"
  by (cases "contents q")
    (auto simp: pop_def queue_wf_def contents_def remove_head_empty remove_head ll_wf_def)

text \<open>Every positive object size gives a queue.\<close>

interpretation q: fifo queue_constructor "\<lambda>q d. push q d (Suc n)" peek pop contents queue_wf
  for n
  by unfold_locales (simp_all add: push_eq peek_eq pop_eq)

text \<open>Emptying a queue runs the body over its contents in order.\<close>

lemma drain_eq:
  "queue_wf q \<Longrightarrow>
   (case fold_run body (contents q) s of
      Inl e \<Rightarrow> drain body q s = Inl e
    | Inr s' \<Rightarrow> \<exists>q'. drain body q s = Inr (q', s') \<and> queue_wf q' \<and> contents q' = [])"
proof (induction body q s rule: drain.induct)
  case (1 body q s)
  show ?case
  proof (cases "contents q")
    case Nil
    then show ?thesis using 1(2) by (subst drain.simps) (simp add: peek_eq)
  next
    case (Cons d ds)
    obtain q' where q': "pop q = Inr q'" "queue_wf q'" "contents q' = ds"
      using pop_eq [OF 1(2)] Cons by auto
    have pk: "peek q = Inr (Some d)" using peek_eq [OF 1(2)] Cons by simp
    show ?thesis
    proof (cases "body d s")
      case (Inl e)
      then show ?thesis using Cons pk by (subst drain.simps) simp
    next
      case (Inr s1)
      then have "drain body q s = drain body q' s1"
        using pk q'(1) by (subst drain.simps) simp
      then show ?thesis using 1(1) [OF pk refl Inr q'(1,2)] q'(3) Cons Inr by (simp split: sum.splits)
    qed
  qed
qed

lemma drain_Inr:
  "queue_wf q \<Longrightarrow> fold_run body (contents q) s = Inr s' \<Longrightarrow>
   \<exists>q'. drain body q s = Inr (q', s') \<and> queue_wf q' \<and> contents q' = []"
  using drain_eq [of q body s] by simp

lemma drain_Inl:
  "queue_wf q \<Longrightarrow> fold_run body (contents q) s = Inl e \<Longrightarrow> drain body q s = Inl e"
  using drain_eq [of q body s] by simp

section \<open>Properties\<close>

text \<open>
  C18. The queue is first in, first out: pushing any data onto a new queue succeeds, and the loop
  that empties it runs its body over the data in the order of the pushes, faults exactly where the
  body does, and leaves the queue empty.
\<close>

theorem queue_drains_in_order:
  "\<exists>q. fold_run (\<lambda>x q. push q x (Suc n)) xs queue_constructor = Inr q
    \<and> and_then (drain body q s) (\<lambda>(q', s'). Inr (contents q', s'))
      = and_then (fold_run body xs s) (\<lambda>s'. Inr ([], s'))"
proof -
  obtain q where q: "fold_run (\<lambda>x q. push q x (Suc n)) xs queue_constructor = Inr q" "queue_wf q"
    "contents q = xs"
    using q.enq_all [OF q.valid_empty, of n xs] by auto
  then show ?thesis using drain_eq [OF q(2), of body s] by (auto split: sum.splits)
qed

end
