(* ===== verification/Search_Tree.thy ===== *)
theory Search_Tree
  imports Linked_List
begin

text \<open>
  The binary search tree of \<open>src/data_structures/trees/binary_search_tree.c\<close>. A node's \<open>prev\<close> and
  \<open>next\<close> pointers are its subtrees; a pointer into the tree is the path from the root. The walk
  turns to \<open>next\<close> when \<open>compare(cursor, data)\<close> is 1, so the \<open>next\<close> subtree holds the smaller
  data: \<open>ordered\<close>.
\<close>

section \<open>The tree and its operations\<close>

datatype 'a bst = Null | BNode (prev: "'a bst") (bdata: 'a) (nxt: "'a bst")

datatype turn = To_Next | To_Prev

definition binary_search_tree_constructor :: "'a bst" where
  "binary_search_tree_constructor = Null"

definition create_node_bst :: "'a \<Rightarrow> nat \<Rightarrow> 'a node run" where
  "create_node_bst d n = node_constructor d n"

text \<open>The cursor the walk stops at (NULL for an empty tree) and the direction it reports.\<close>

fun iterate_bst :: "('a \<Rightarrow> 'b \<Rightarrow> int) \<Rightarrow> 'a bst \<Rightarrow> 'b \<Rightarrow> turn list option \<times> int" where
  "iterate_bst cmp Null d = (None, 1)"
| "iterate_bst cmp (BNode p x n) d =
     (if cmp x d = 1 then
        (if n \<noteq> Null
         then (let (c, dir) = iterate_bst cmp n d in (map_option ((#) To_Next) c, dir))
         else (Some [], 1))
      else if cmp x d = -1 then
        (if p \<noteq> Null
         then (let (c, dir) = iterate_bst cmp p d in (map_option ((#) To_Prev) c, dir))
         else (Some [], -1))
      else (Some [], 0))"

fun at :: "'a bst \<Rightarrow> turn list \<Rightarrow> 'a option" where
  "at Null path = None"
| "at (BNode p x n) [] = Some x"
| "at (BNode p x n) (To_Next # path) = at n path"
| "at (BNode p x n) (To_Prev # path) = at p path"

text \<open>\<open>cursor->next = node\<close> and \<open>cursor->prev = node\<close>.\<close>

fun set_next :: "'a bst \<Rightarrow> turn list \<Rightarrow> 'a bst \<Rightarrow> 'a bst" where
  "set_next Null path t = Null"
| "set_next (BNode p x n) [] t = BNode p x t"
| "set_next (BNode p x n) (To_Next # path) t = BNode p x (set_next n path t)"
| "set_next (BNode p x n) (To_Prev # path) t = BNode (set_next p path t) x n"

fun set_prev :: "'a bst \<Rightarrow> turn list \<Rightarrow> 'a bst \<Rightarrow> 'a bst" where
  "set_prev Null path t = Null"
| "set_prev (BNode p x n) [] t = BNode t x n"
| "set_prev (BNode p x n) (To_Next # path) t = BNode p x (set_prev n path t)"
| "set_prev (BNode p x n) (To_Prev # path) t = BNode (set_prev p path t) x n"

definition search_bst :: "('a \<Rightarrow> 'b \<Rightarrow> int) \<Rightarrow> 'a bst \<Rightarrow> 'b \<Rightarrow> 'a option run" where
  "search_bst cmp head query =
     (let (cursor, direction) = iterate_bst cmp head query
      in if direction = 0
         then and_then (deref cursor) (\<lambda>path. and_then (deref (at head path)) (\<lambda>d. Inr (Some d)))
         else Inr None)"

definition insert_bst :: "('a \<Rightarrow> 'a \<Rightarrow> int) \<Rightarrow> 'a bst \<Rightarrow> 'a \<Rightarrow> nat \<Rightarrow> 'a bst run" where
  "insert_bst cmp head d n =
     (if head = Null then
        and_then (create_node_bst d n) (\<lambda>node. Inr (BNode Null (data node) Null))
      else
        (let (cursor, direction) = iterate_bst cmp head d
         in if direction = 1 then
              and_then (create_node_bst d n) (\<lambda>node.
              and_then (deref cursor) (\<lambda>path.
                Inr (set_next head path (BNode Null (data node) Null))))
            else if direction = -1 then
              and_then (create_node_bst d n) (\<lambda>node.
              and_then (deref cursor) (\<lambda>path.
                Inr (set_prev head path (BNode Null (data node) Null))))
            else Inr head))"

text \<open>
  Destruction, as the sequence of the data it frees. The node is dereferenced before it is tested,
  so the destructor of an empty tree faults.
\<close>

fun recursive_tree_destruction :: "'a bst \<Rightarrow> 'a list run" where
  "recursive_tree_destruction Null = Inl Null_Deref"
| "recursive_tree_destruction (BNode p x n) =
     and_then (if n \<noteq> Null then recursive_tree_destruction n else Inr []) (\<lambda>fn.
     and_then (if p \<noteq> Null then recursive_tree_destruction p else Inr []) (\<lambda>fp.
       Inr (fn @ fp @ [x])))"

definition binary_search_tree_destructor :: "'a bst \<Rightarrow> 'a list run" where
  "binary_search_tree_destructor head = recursive_tree_destruction head"

section \<open>Order\<close>

text \<open>The data in ascending order: the \<open>next\<close> side first.\<close>

fun inorder :: "'a bst \<Rightarrow> 'a list" where
  "inorder Null = []"
| "inorder (BNode p x n) = inorder n @ x # inorder p"

definition ordered :: "('a \<Rightarrow> 'k::linorder) \<Rightarrow> 'a bst \<Rightarrow> bool" where
  "ordered key t \<longleftrightarrow> sorted_wrt (<) (map key (inorder t))"

lemma ordered_Null [simp]: "ordered key Null"
  by (simp add: ordered_def)

lemma ordered_BNode [simp]:
  "ordered key (BNode p x n) \<longleftrightarrow>
     ordered key n \<and> ordered key p \<and>
     (\<forall>y \<in> set (inorder n). key y < key x) \<and> (\<forall>y \<in> set (inorder p). key x < key y)"
  by (simp add: ordered_def sorted_wrt_append) (meson order_less_trans)

lemma ordered_unique:
  "ordered key t \<Longrightarrow> x \<in> set (inorder t) \<Longrightarrow> y \<in> set (inorder t) \<Longrightarrow> key x = key y \<Longrightarrow> x = y"
  by (simp add: ordered_def strict_sorted_iff distinct_map inj_on_def)

lemma destruction_frees_all:
  "t \<noteq> Null \<Longrightarrow> \<exists>fs. recursive_tree_destruction t = Inr fs \<and> length fs = length (inorder t) \<and>
     (\<forall>x. count_list fs x = count_list (inorder t) x)"
proof (induction t)
  case (BNode p x n)
  then obtain fp fn where
    "p \<noteq> Null \<longrightarrow> recursive_tree_destruction p = Inr fp \<and> length fp = length (inorder p) \<and>
      (\<forall>x. count_list fp x = count_list (inorder p) x)"
    "n \<noteq> Null \<longrightarrow> recursive_tree_destruction n = Inr fn \<and> length fn = length (inorder n) \<and>
      (\<forall>x. count_list fn x = count_list (inorder n) x)"
    by blast
  then show ?case by (cases "p = Null"; cases "n = Null") auto
qed simp

context comparator
begin

text \<open>
  Where the walk stops: at the data with the query's key, or, if there is none, at a node whose
  pointer in the reported direction is NULL.
\<close>

lemma iterate_found:
  "ordered key t \<Longrightarrow> x \<in> set (inorder t) \<Longrightarrow> key x = qkey q \<Longrightarrow>
   \<exists>path. iterate_bst cmp t q = (Some path, 0) \<and> at t path = Some x"
proof (induction t)
  case (BNode p y n)
  consider "x = y" | "x \<in> set (inorder n)" | "x \<in> set (inorder p)" using BNode.prems(2) by auto
  then show ?case
  proof cases
    case 1
    then show ?thesis using BNode.prems by auto
  next
    case 2
    then have "n \<noteq> Null" "qkey q < key y" using BNode.prems by auto
    moreover obtain path where "iterate_bst cmp n q = (Some path, 0)" "at n path = Some x"
      using BNode 2 by auto
    ultimately show ?thesis by auto
  next
    case 3
    then have "p \<noteq> Null" "key y < qkey q" using BNode.prems by auto
    moreover obtain path where "iterate_bst cmp p q = (Some path, 0)" "at p path = Some x"
      using BNode 3 by auto
    ultimately show ?thesis by auto
  qed
qed simp

lemma iterate_absent:
  "\<forall>x \<in> set (inorder t). key x \<noteq> qkey q \<Longrightarrow> snd (iterate_bst cmp t q) \<noteq> 0"
  by (induction t) (auto split: prod.splits)

lemma search_bst_correct:
  assumes "ordered key t"
  shows "search_bst cmp t q = Inr (find (\<lambda>x. key x = qkey q) (inorder t))"
proof (cases "\<exists>x \<in> set (inorder t). key x = qkey q")
  case True
  then obtain x where x: "x \<in> set (inorder t)" "key x = qkey q" by blast
  then obtain path where "iterate_bst cmp t q = (Some path, 0)" "at t path = Some x"
    using iterate_found [OF assms] by blast
  then have "search_bst cmp t q = Inr (Some x)" by (simp add: search_bst_def)
  moreover obtain y where y: "find (\<lambda>x. key x = qkey q) (inorder t) = Some y"
    using x by (metis (mono_tags, lifting) find_None_iff not_None_eq)
  then have "y \<in> set (inorder t)" "key y = qkey q" by (auto simp: find_Some_iff)
  then have "y = x" using ordered_unique [OF assms] x by metis
  ultimately show ?thesis using y by simp
next
  case False
  then have "snd (iterate_bst cmp t q) \<noteq> 0" by (intro iterate_absent) auto
  then have "search_bst cmp t q = Inr None" by (auto simp: search_bst_def split: prod.splits)
  moreover have "find (\<lambda>x. key x = qkey q) (inorder t) = None"
    using False by (auto simp: find_None_iff)
  ultimately show ?thesis by simp
qed

end

context self_comparator
begin

text \<open>The insertion at the end of the walk is the recursive insertion into a search tree.\<close>

fun ins :: "'a \<Rightarrow> 'a bst \<Rightarrow> 'a bst" where
  "ins d Null = BNode Null d Null"
| "ins d (BNode p x n) =
     (if key d < key x then BNode p x (ins d n)
      else if key x < key d then BNode (ins d p) x n
      else BNode p x n)"

definition attach :: "'a bst \<Rightarrow> turn list \<Rightarrow> int \<Rightarrow> 'a \<Rightarrow> 'a bst" where
  "attach t path dir d =
     (if dir = 1 then set_next t path (BNode Null d Null)
      else if dir = -1 then set_prev t path (BNode Null d Null)
      else t)"

lemma iterate_insert:
  "t \<noteq> Null \<Longrightarrow>
   \<exists>path dir. iterate_bst cmp t d = (Some path, dir) \<and> dir \<in> {-1, 0, 1} \<and>
     attach t path dir d = ins d t"
proof (induction t)
  case (BNode p x n)
  consider (lt) "key d < key x" "\<not> key x < key d" | (gt) "key x < key d" "\<not> key d < key x"
    | (eq) "key d = key x"
    by (metis linorder_neqE order_less_asym)
  then show ?case
  proof cases
    case lt
    show ?thesis
    proof (cases "n = Null")
      case False
      then obtain path dir where "iterate_bst cmp n d = (Some path, dir)" "dir \<in> {-1, 0, 1}"
        "attach n path dir d = ins d n"
        using BNode.IH(2) by blast
      then show ?thesis using lt False by (auto simp: attach_def)
    qed (use lt in \<open>simp add: attach_def\<close>)
  next
    case gt
    show ?thesis
    proof (cases "p = Null")
      case False
      then obtain path dir where "iterate_bst cmp p d = (Some path, dir)" "dir \<in> {-1, 0, 1}"
        "attach p path dir d = ins d p"
        using BNode.IH(1) by blast
      then show ?thesis using gt False by (auto simp: attach_def)
    qed (use gt in \<open>simp add: attach_def\<close>)
  next
    case eq
    then show ?thesis by (simp add: attach_def)
  qed
qed simp

lemma insert_bst_ins: "0 < n \<Longrightarrow> insert_bst cmp t d n = Inr (ins d t)"
proof (cases "t = Null")
  case False
  assume "0 < n"
  moreover obtain path dir where "iterate_bst cmp t d = (Some path, dir)" "dir \<in> {-1, 0, 1}"
    "attach t path dir d = ins d t"
    using iterate_insert [OF False] by blast
  ultimately show ?thesis using False
    by (auto simp: insert_bst_def create_node_bst_def node_constructor_def attach_def)
qed (simp add: insert_bst_def create_node_bst_def node_constructor_def)

lemma set_ins:
  "ordered key t \<Longrightarrow>
   set (inorder (ins d t)) =
     (if key d \<in> key ` set (inorder t) then set (inorder t) else insert d (set (inorder t)))"
  by (induction t) auto

lemma ordered_ins: "ordered key t \<Longrightarrow> ordered key (ins d t)"
  by (induction t) (auto simp: set_ins split: if_splits)

lemma find_ins:
  assumes "ordered key t"
  shows "find (\<lambda>x. key x = k) (inorder (ins d t)) =
    (case find (\<lambda>x. key x = k) (inorder t) of
       Some x \<Rightarrow> Some x
     | None \<Rightarrow> if key d = k then Some d else None)"
  using assms
proof (induction t)
  case (BNode p x n)
  have f: "find P (xs @ ys) = (case find P xs of Some z \<Rightarrow> Some z | None \<Rightarrow> find P ys)" for P and xs ys :: "'a list"
    by (induction xs) auto
  have np: "find (\<lambda>y. key y = k) (inorder n) = None" if "key x \<le> k"
    using BNode.prems that by (auto simp: find_None_iff)
  have pp: "find (\<lambda>y. key y = k) (inorder p) = None" if "k \<le> key x"
    using BNode.prems that by (auto simp: find_None_iff)
  consider "key d < key x" "\<not> key x < key d" | "key x < key d" "\<not> key d < key x" | "key d = key x"
    by (metis linorder_neqE order_less_asym)
  then show ?case
  proof cases
    case 1
    then show ?thesis using BNode np pp by (cases "key x \<le> k"; cases "k \<le> key x") (auto simp: f split: option.splits)
  next
    case 2
    then show ?thesis using BNode pp np by (cases "key x \<le> k"; cases "k \<le> key x") (auto simp: f split: option.splits)
  next
    case 3
    then show ?thesis by (auto simp: f split: option.splits)
  qed
qed simp

end

lemma find_eq: "find (\<lambda>x. x = v) xs = (if v \<in> set xs then Some v else None)"
  by (induction xs) auto

section \<open>Properties\<close>

text \<open>
  C17. Inserting any sequence of ints into a new tree gives a tree whose data, read from the \<open>next\<close>
  side to the \<open>prev\<close> side, are the distinct values in ascending order, and a search finds exactly
  the values inserted.
\<close>

theorem tree_refines_sorted_set:
  "\<exists>t. fold_run (\<lambda>x t. insert_bst binary_search_tree_int_compare t x (Suc n)) xs
        binary_search_tree_constructor = Inr t
    \<and> inorder t = sorted_list_of_set (set xs)
    \<and> search_bst binary_search_tree_int_compare t v = Inr (if v \<in> set xs then Some v else None)"
proof -
  have build: "\<exists>t. fold_run (\<lambda>x t. insert_bst binary_search_tree_int_compare t x (Suc n)) xs t0 = Inr t
      \<and> ordered (\<lambda>i. i) t \<and> set (inorder t) = set xs \<union> set (inorder t0)"
    if "ordered (\<lambda>i. i) t0" for t0
    using that
  proof (induction xs arbitrary: t0)
    case (Cons x xs)
    then show ?case
      using Cons.IH [of "int_cmp.ins x t0"] int_cmp.ordered_ins [of t0 x] int_cmp.set_ins [of t0 x]
      by (auto simp: int_cmp.insert_bst_ins)
  qed simp
  then obtain t where t: "fold_run (\<lambda>x t. insert_bst binary_search_tree_int_compare t x (Suc n)) xs
      binary_search_tree_constructor = Inr t" "ordered (\<lambda>i. i) t" "set (inorder t) = set xs"
    using build [of Null] by (auto simp: binary_search_tree_constructor_def)
  have "sorted (inorder t)" "distinct (inorder t)"
    using t(2) by (simp_all add: ordered_def strict_sorted_iff)
  then have "inorder t = sorted_list_of_set (set xs)"
    using sorted_list_of_set.idem_if_sorted_distinct t(3) by metis
  moreover have "find (\<lambda>x. x = v) (inorder t) = (if v \<in> set xs then Some v else None)"
    unfolding t(3) [symmetric] by (rule find_eq)
  ultimately show ?thesis using t int_cmp.search_bst_correct [OF t(2), of v] by auto
qed

text \<open>
  C32. Destroying a tree frees every node exactly once; the destructor of an empty tree reads NULL.
\<close>

theorem tree_destructor_frees_all:
  "(case binary_search_tree_destructor t of
      Inl f \<Rightarrow> t = Null \<and> f = Null_Deref
    | Inr fs \<Rightarrow> t \<noteq> Null \<and> length fs = length (inorder t)
        \<and> (\<forall>x. count_list fs x = count_list (inorder t) x))"
  using destruction_frees_all [of t]
  by (cases "t = Null") (auto simp: binary_search_tree_destructor_def)

end
