(* ===== verification/Dictionary.thy ===== *)
theory Dictionary
  imports Search_Tree
begin

text \<open>
  The dictionary of \<open>src/data_structures/dictionary/dictionary.c\<close>: entries
  (\<open>dictionary/entry.c\<close>) in a search tree compared by their string keys, and a linked list of the
  keys for iteration. A key is copied with the size the caller gives, into a zeroed block of that
  size squared, and read back as a C string: \<open>entry_key\<close>. The callers pass \<open>strlen + 1\<close> or
  \<open>strlen\<close>; \<open>key_size_ok\<close> are the sizes for which the key read back is the key passed.

  The contract of the dictionary for its clients (the request parser, the route table, the
  database pools) is the locale \<open>lookup_table\<close>: an insertion adds the key only if it is not there
  yet.
\<close>

section \<open>Entries\<close>

record 'v entry =
  ekey :: string
  evalue :: 'v

definition entry_constructor :: "string \<Rightarrow> nat \<Rightarrow> 'v \<Rightarrow> 'v entry" where
  "entry_constructor key key_size v = \<lparr>ekey = calloc_copy key key_size, evalue = v\<rparr>"

text \<open>The key and the value are freed.\<close>

definition entry_destructor :: "'v entry \<Rightarrow> string \<times> 'v" where
  "entry_destructor e = (ekey e, evalue e)"

definition entry_key :: "slack \<Rightarrow> 'v entry \<Rightarrow> string" where
  "entry_key slack e = read_cstr slack (ekey e)"

definition compare_string_keys :: "slack \<Rightarrow> 'v entry \<Rightarrow> 'w entry \<Rightarrow> int" where
  "compare_string_keys slack e1 e2 =
     (if strcmp (read_cstr slack (ekey e1)) (read_cstr slack (ekey e2)) > 0 then 1
      else if strcmp (read_cstr slack (ekey e1)) (read_cstr slack (ekey e2)) < 0 then -1
      else 0)"

interpretation keys_cmp: comparator "compare_string_keys slack" "entry_key slack" "entry_key slack"
  for slack
  by unfold_locales (simp add: compare_string_keys_def entry_key_def strcmp_pos strcmp_neg)

interpretation entry_cmp: self_comparator "compare_string_keys slack" "entry_key slack"
  for slack
  by unfold_locales

section \<open>The dictionary\<close>

record 'v dictionary =
  tree :: "'v entry bst"
  keys :: "string linked_list"

definition dictionary_constructor :: "'v dictionary" where
  "dictionary_constructor =
     \<lparr>tree = binary_search_tree_constructor, keys = linked_list_constructor\<rparr>"

text \<open>\<open>sizeof(struct Entry)\<close>: two pointers.\<close>

definition sizeof_entry :: nat where
  "sizeof_entry = 16"

definition insert_dict :: "slack \<Rightarrow> 'v dictionary \<Rightarrow> string \<Rightarrow> nat \<Rightarrow> 'v \<Rightarrow> 'v dictionary run" where
  "insert_dict slack d key key_size v =
     (let new_entry = entry_constructor key key_size v
      in and_then (insert_bst (compare_string_keys slack) (tree d) new_entry sizeof_entry) (\<lambda>t.
         and_then (insert_ll (keys d) (len (keys d)) (copy_str key key_size) key_size) (\<lambda>ks.
           Inr (d\<lparr>tree := t, keys := ks\<rparr>))))"

text \<open>The search compares with an entry that has the key and a dummy int as its value.\<close>

definition search_dict :: "slack \<Rightarrow> 'v dictionary \<Rightarrow> string \<Rightarrow> nat \<Rightarrow> 'v option run" where
  "search_dict slack d key key_size =
     (let searchable = entry_constructor key key_size (0::int)
      in and_then (search_bst (compare_string_keys slack) (tree d) searchable) (\<lambda>result.
           Inr (case result of Some e \<Rightarrow> Some (evalue e) | None \<Rightarrow> None)))"

definition iterate_dict ::
  "slack \<Rightarrow> 'v dictionary \<Rightarrow> (string \<Rightarrow> nat) \<Rightarrow> (string \<Rightarrow> 'v option \<Rightarrow> 's \<Rightarrow> 's run) \<Rightarrow> 's \<Rightarrow> 's run" where
  "iterate_dict slack d key_size callback s =
     fold_run (\<lambda>i s.
       and_then (retrieve_ll (keys d) (int i)) (\<lambda>p.
       and_then (deref p) (\<lambda>block.
       let key = read_cstr slack block
       in and_then (search_dict slack d key (key_size key)) (\<lambda>v. callback key v s))))
     [0..<nat (len (keys d))] s"

text \<open>The nodes and entries freed by the destruction of the tree; an empty tree is allowed.\<close>

fun recursive_dictionary_destroy :: "'v entry bst \<Rightarrow> (string \<times> 'v) list" where
  "recursive_dictionary_destroy Null = []"
| "recursive_dictionary_destroy (BNode p e n) =
     recursive_dictionary_destroy p @ recursive_dictionary_destroy n @ [entry_destructor e]"

definition dictionary_destructor ::
  "'v dictionary \<Rightarrow> (string linked_list \<times> (string \<times> 'v) list) run" where
  "dictionary_destructor d =
     and_then (linked_list_destructor (keys d)) (\<lambda>ks.
       Inr (ks, recursive_dictionary_destroy (tree d)))"

section \<open>Functional correctness\<close>

definition key_size_ok :: "string \<Rightarrow> nat \<Rightarrow> bool" where
  "key_size_ok key n \<longleftrightarrow> nul_free key \<and> (n = Suc (length key) \<or> n = length key \<and> 2 \<le> n)"

lemma key_size_ok_pos [simp]: "key_size_ok key n \<Longrightarrow> 0 < n"
  by (auto simp: key_size_ok_def)

lemma entry_key_constructor [simp]:
  "key_size_ok key n \<Longrightarrow> entry_key slack (entry_constructor key n v) = key"
  by (auto simp: key_size_ok_def entry_key_def entry_constructor_def read_calloc_bare)

definition dict_wf :: "slack \<Rightarrow> 'v dictionary \<Rightarrow> bool" where
  "dict_wf slack d \<longleftrightarrow> ordered (entry_key slack) (tree d) \<and> ll_wf (keys d)"

text \<open>The finite map a dictionary represents.\<close>

definition dict_map :: "slack \<Rightarrow> 'v dictionary \<Rightarrow> string \<Rightarrow> 'v option" where
  "dict_map slack d k =
     map_option evalue (find (\<lambda>e. entry_key slack e = k) (inorder (tree d)))"

lemma dict_wf_constructor [simp, wf_rules]: "dict_wf slack dictionary_constructor"
  by (simp add: dict_wf_def dictionary_constructor_def binary_search_tree_constructor_def)

lemma keys_constructor [simp]: "chain (keys dictionary_constructor) = []"
  by (simp add: dictionary_constructor_def)

lemma dict_map_constructor [simp]: "dict_map slack dictionary_constructor = Map.empty"
  by (simp add: dict_map_def dictionary_constructor_def binary_search_tree_constructor_def fun_eq_iff)

lemma search_dict_eq:
  "dict_wf slack d \<Longrightarrow> key_size_ok key n \<Longrightarrow> search_dict slack d key n = Inr (dict_map slack d key)"
  by (simp add: search_dict_def dict_wf_def keys_cmp.search_bst_correct dict_map_def
      map_option_case cong: option.case_cong)

lemma insert_dict_eq:
  assumes "dict_wf slack d" and "key_size_ok key n"
  shows "\<exists>d'. insert_dict slack d key n v = Inr d' \<and> dict_wf slack d' \<and>
    dict_map slack d' =
      (if key \<in> dom (dict_map slack d) then dict_map slack d else (dict_map slack d)(key \<mapsto> v)) \<and>
    chain (keys d') = chain (keys d) @ [copy_str key n]"
proof -
  let ?e = "entry_constructor key n v"
  let ?t = "entry_cmp.ins slack ?e (tree d)"
  have n: "0 < n" using assms(2) by simp
  have t: "insert_bst (compare_string_keys slack) (tree d) ?e sizeof_entry = Inr ?t"
    by (simp add: entry_cmp.insert_bst_ins sizeof_entry_def)
  have ot: "ordered (entry_key slack) (tree d)" and wl: "ll_wf (keys d)"
    using assms(1) by (auto simp: dict_wf_def)
  obtain ks where ks: "insert_ll (keys d) (len (keys d)) (copy_str key n) n = Inr ks"
    "chain ks = chain (keys d) @ [copy_str key n]"
    using wl n by (auto simp: insert_ll_eq ll_wf_def)
  have wk: "ll_wf ks" using wl ks(1) by (rule insert_ll_wf)
  let ?d = "d\<lparr>tree := ?t, keys := ks\<rparr>"
  have k: "entry_key slack ?e = key" using assms(2) by simp
  have v: "evalue ?e = v" by (simp add: entry_constructor_def)
  have "dict_map slack ?d =
      (if key \<in> dom (dict_map slack d) then dict_map slack d else (dict_map slack d)(key \<mapsto> v))"
  proof
    fix k'
    show "dict_map slack ?d k' =
      (if key \<in> dom (dict_map slack d) then dict_map slack d else (dict_map slack d)(key \<mapsto> v)) k'"
      using entry_cmp.find_ins [OF ot, where d = ?e and k = k']
      by (auto simp: dict_map_def k v domIff split: option.splits)
  qed
  moreover have "dict_wf slack ?d"
    using entry_cmp.ordered_ins [OF ot] wk by (simp add: dict_wf_def)
  moreover have "insert_dict slack d key n v = Inr ?d"
    by (simp add: insert_dict_def t ks(1))
  ultimately show ?thesis using ks(2) by auto
qed

section \<open>The contract of a lookup table\<close>

locale lookup_table =
  fixes empty :: "'d"
    and ins :: "'d \<Rightarrow> string \<Rightarrow> 'v \<Rightarrow> 'd run"
    and look :: "'d \<Rightarrow> string \<Rightarrow> 'v option run"
    and valid :: "'d \<Rightarrow> bool"
    and content :: "'d \<Rightarrow> string \<Rightarrow> 'v option"
    and good :: "string \<Rightarrow> bool"
  assumes valid_empty: "valid empty" and content_empty: "content empty = Map.empty"
    and ins_ok: "valid d \<Longrightarrow> good k \<Longrightarrow>
      \<exists>d'. ins d k v = Inr d' \<and> valid d' \<and>
        content d' = (if k \<in> dom (content d) then content d else (content d)(k \<mapsto> v))"
    and look_ok: "valid d \<Longrightarrow> good k \<Longrightarrow> look d k = Inr (content d k)"
begin

text \<open>A table filled by a sequence of insertions answers with the first one of the key.\<close>

lemma ins_all:
  "valid d \<Longrightarrow> \<forall>(k, v) \<in> set kvs. good k \<Longrightarrow>
   \<exists>d'. fold_run (\<lambda>(k, v) d. ins d k v) kvs d = Inr d' \<and> valid d' \<and>
     content d' = map_of kvs ++ content d"
proof (induction kvs arbitrary: d)
  case (Cons kv kvs)
  obtain k v where kv: "kv = (k, v)" by fastforce
  obtain d1 where d1: "ins d k v = Inr d1" "valid d1"
    "content d1 = (if k \<in> dom (content d) then content d else (content d)(k \<mapsto> v))"
    using ins_ok [OF Cons.prems(1), of k v] Cons.prems(2) kv by auto
  obtain d' where d': "fold_run (\<lambda>(k, v) d. ins d k v) kvs d1 = Inr d'" "valid d'"
    "content d' = map_of kvs ++ content d1"
    using Cons.IH [OF d1(2)] Cons.prems(2) by auto
  have "map_of kvs ++ content d1 = map_of (kv # kvs) ++ content d"
    using d1(3) kv by (auto simp: fun_eq_iff map_add_def dom_def split: option.splits)
  then show ?case using d1 d' kv by (simp add: fun_upd_def)
qed simp

lemma ins_all_empty:
  assumes "\<forall>(k, v) \<in> set kvs. good k" and "good k"
  shows "\<exists>d. fold_run (\<lambda>(k, v) d. ins d k v) kvs empty = Inr d \<and> valid d \<and>
    look d k = Inr (map_of kvs k)"
  using ins_all [OF valid_empty assms(1)] assms(2) by (auto simp: look_ok content_empty)

lemma look_ins:
  assumes "valid d" "good k" "good k'" "ins d k v = Inr d'" "look d k' = Inr r"
  shows "look d' k' = Inr (if k' = k \<and> r = None then Some v else r)"
  using assms ins_ok [OF assms(1,2), of v] by (auto simp: look_ok split: if_splits)

end

text \<open>The dictionary with the two sizes its callers pass.\<close>

interpretation dict_full: lookup_table dictionary_constructor
    "\<lambda>d k v. insert_dict slack d k (Suc (length k)) v"
    "\<lambda>d k. search_dict slack d k (Suc (length k))"
    "dict_wf slack" "dict_map slack" nul_free
  for slack
proof (unfold_locales, goal_cases)
  case (3 d k v)
  then show ?case
    using insert_dict_eq [of slack d k "Suc (length k)" v] by (auto simp: key_size_ok_def)
qed (simp_all add: search_dict_eq key_size_ok_def)

interpretation dict_bare: lookup_table dictionary_constructor
    "\<lambda>d k v. insert_dict slack d k (length k) v"
    "\<lambda>d k. search_dict slack d k (length k)"
    "dict_wf slack" "dict_map slack" "\<lambda>k. nul_free k \<and> 2 \<le> length k"
  for slack
proof (unfold_locales, goal_cases)
  case (3 d k v)
  then show ?case
    using insert_dict_eq [of slack d k "length k" v] by (auto simp: key_size_ok_def)
qed (simp_all add: search_dict_eq key_size_ok_def)

section \<open>Properties\<close>

text \<open>
  C13. A dictionary filled by any sequence of insertions answers every lookup with the first value
  inserted under the key, and with NULL for any other key.
\<close>

theorem dictionary_first_value_wins:
  assumes "\<forall>(k, v) \<in> set kvs. nul_free k" and "nul_free key"
  shows "\<exists>d. fold_run (\<lambda>(k, v) d. insert_dict slack d k (Suc (length k)) v) kvs dictionary_constructor = Inr d
    \<and> search_dict slack d key (Suc (length key)) = Inr (map_of kvs key)"
  using dict_full.ins_all_empty [OF assms] by blast

theorem dictionary_first_value_wins_witness:
  "\<exists>d. fold_run (\<lambda>(k, v) d. insert_dict (\<lambda>b. []) d k (Suc (length k)) v)
       [(''uri'', 1 :: nat), (''name'', 2), (''uri'', 3)] dictionary_constructor = Inr d
    \<and> search_dict (\<lambda>b. []) d ''uri'' (Suc (length ''uri'')) = Inr (Some 1)"
  using dictionary_first_value_wins [of "[(''uri'', 1 :: nat), (''name'', 2), (''uri'', 3)]" "''uri''" "\<lambda>b. []"]
  by (simp add: NUL_def)

end
