(* ===== verification/Http_Request.thy ===== *)
theory Http_Request
  imports Fifo_Queue Dictionary Http_Response
begin

text \<open>
  The request parser of \<open>src/networking/http/http_request.c\<close>: the request string is cut with
  \<open>strtok\<close> into request line, header fields and body, each of which is cut further and stored in a
  dictionary. Values are stored as the blocks \<open>entry_constructor\<close> makes of them. The pieces of the
  query and of the header fields pass through a queue in blocks of \<open>strlen\<close> bytes, without their
  NUL, so that reading them back depends on the allocator's \<open>slack\<close>.

  The arrays \<open>requested\<close> and \<open>fields\<close> are one byte too short for the NUL that \<open>strcpy\<close> writes; the
  model gives them that byte.
\<close>

record http_request =
  request_line :: "string dictionary"
  header_fields :: "string dictionary"
  req_body :: "string dictionary"
  req_query :: "string dictionary"

section \<open>Cutting the request\<close>

text \<open>
  The loop that overwrites the last character of each blank line. It compares four characters at
  every position up to the third last, where the fourth is the NUL.
\<close>

fun mark_blank_lines :: "string \<Rightarrow> string" where
  "mark_blank_lines (a # b # c # d # s) =
     (if [a, b, c, d] = CRLF @ CRLF then a # b # c # CHR ''|'' # mark_blank_lines s
      else a # mark_blank_lines (b # c # d # s))"
| "mark_blank_lines s = s"

text \<open>\<open>d.insert(&d, key, key_size, value, value_size)\<close> with a string as the value.\<close>

definition insert_str ::
  "slack \<Rightarrow> string dictionary \<Rightarrow> string \<Rightarrow> nat \<Rightarrow> string \<Rightarrow> nat \<Rightarrow> string dictionary run" where
  "insert_str slack d key key_size v value_size =
     insert_dict slack d key key_size (calloc_copy v value_size)"

text \<open>One \<open>key=value\<close> field of a query or of a body.\<close>

definition insert_field :: "slack \<Rightarrow> string \<Rightarrow> string dictionary \<Rightarrow> string dictionary run" where
  "insert_field slack field d =
     (let (key, r) = strtok ''='' field; (v, r) = strtok [] r
      in and_then (deref v) (\<lambda>v.
         let v = (if hd v = CHR '' '' then tl v else v)
         in and_then (deref key) (\<lambda>key.
            insert_str slack d key (length key + 1) v (length v + 1))))"

text \<open>\<open>query_string\<close> is None for NULL; \<open>strtok(NULL, "&")\<close> then returns NULL.\<close>

definition extract_request_query :: "slack \<Rightarrow> string option \<Rightarrow> string dictionary run" where
  "extract_request_query slack query_string =
     and_then (fold_run (\<lambda>f q. push q (copy_str f (length f)) (length f))
         (case query_string of None \<Rightarrow> [] | Some s \<Rightarrow> strtok_all ''&'' s) queue_constructor) (\<lambda>flds.
     and_then (drain (\<lambda>block. insert_field slack (read_cstr slack block)) flds dictionary_constructor)
       (\<lambda>(flds, query_dict).
     and_then (queue_destructor flds) (\<lambda>_. Inr query_dict)))"

definition extract_request_line_fields ::
  "slack \<Rightarrow> string option \<Rightarrow> (string dictionary \<times> string dictionary) run" where
  "extract_request_line_fields slack line =
     and_then (deref line) (\<lambda>flds.
     let (meth, r) = strtok '' '' flds; (path, r) = strtok '' '' r; (http_version, r) = strtok [] r
     in and_then (deref meth) (\<lambda>meth.
        and_then (insert_str slack dictionary_constructor ''method'' 7 meth (length meth)) (\<lambda>d.
        let (uri, r) = strtok ''?'' (case path of None \<Rightarrow> r | Some p \<Rightarrow> p);
            (query_string, r) = strtok [] r
        in and_then (extract_request_query slack query_string) (\<lambda>query_dict.
           and_then (deref uri) (\<lambda>uri.
           and_then (insert_str slack d ''uri'' 4 uri (length uri)) (\<lambda>d.
           and_then (deref http_version) (\<lambda>http_version.
           and_then (insert_str slack d ''http_version'' 13 http_version (length http_version)) (\<lambda>d.
             Inr (d, query_dict)))))))))"

definition strip_value :: "string \<Rightarrow> string" where
  "strip_value v =
     (let v = (if hd v = CHR '' '' then tl v else v)
      in if v \<noteq> [] \<and> last v = CHR 0x0D then butlast v else v)"

definition insert_header :: "slack \<Rightarrow> string \<Rightarrow> string dictionary \<Rightarrow> string dictionary run" where
  "insert_header slack header d =
     (let (key, r) = strtok '':'' header; (v, r) = strtok [] r
      in case v of
           None \<Rightarrow> Inr d
         | Some v \<Rightarrow>
             let v = strip_value v
             in and_then (deref key) (\<lambda>key.
                insert_str slack d key (length key + 1) v (length v + 1)))"

definition extract_header_fields :: "slack \<Rightarrow> string option \<Rightarrow> string dictionary run" where
  "extract_header_fields slack flds =
     and_then (deref flds) (\<lambda>flds.
     and_then (fold_run (\<lambda>f q. push q (copy_str f (length f)) (length f))
         (strtok_all [CHR 0x0A] flds) queue_constructor) (\<lambda>headers.
     and_then (drain (\<lambda>block. insert_header slack (read_cstr slack block)) headers dictionary_constructor)
       (\<lambda>(headers, d).
     and_then (queue_destructor headers) (\<lambda>_. Inr d))))"

text \<open>
  The position \<open>strtok\<close> has kept when \<open>body\<close> is NULL is inside the last header line, whose block
  \<open>pop\<close> has freed.
\<close>

definition extract_body :: "slack \<Rightarrow> string dictionary \<Rightarrow> string option \<Rightarrow> string dictionary run" where
  "extract_body slack headers body_text =
     and_then (search_dict slack headers ''Content-Type'' 13) (\<lambda>content_type.
     case content_type of
       None \<Rightarrow> Inr dictionary_constructor
     | Some _ \<Rightarrow>
         (case body_text of
            None \<Rightarrow> Inl Use_After_Free
          | Some b \<Rightarrow>
              and_then (fold_run (\<lambda>f q. push q (copy_str f (length f + 1)) (length f + 1))
                  (strtok_all ''&'' b) queue_constructor) (\<lambda>flds.
              and_then (drain (\<lambda>block. insert_field slack (read_cstr slack block)) flds
                  dictionary_constructor) (\<lambda>(flds, body_dict).
              and_then (queue_destructor flds) (\<lambda>_. Inr body_dict)))))"

text \<open>Below two characters \<open>strlen(requested) - 2\<close> wraps around and the loop leaves the array.\<close>

definition http_request_constructor :: "slack \<Rightarrow> string \<Rightarrow> http_request run" where
  "http_request_constructor slack request_string =
     (if length request_string < 2 then Inl Out_Of_Bounds
      else
        let requested = mark_blank_lines request_string;
            (line, r) = strtok [CHR 0x0A] requested;
            (flds, r) = strtok ''|'' r;
            (body_text, r) = strtok [] r
        in and_then (extract_request_line_fields slack line) (\<lambda>(d, query_dict).
           and_then (extract_header_fields slack flds) (\<lambda>hs.
           and_then (extract_body slack hs body_text) (\<lambda>b.
             Inr \<lparr>request_line = d, header_fields = hs, req_body = b, req_query = query_dict\<rparr>))))"

definition http_request_destructor :: "http_request \<Rightarrow> (string linked_list \<times> (string \<times> string) list) list run"
  where
  "http_request_destructor req =
     and_then (dictionary_destructor (request_line req)) (\<lambda>a.
     and_then (dictionary_destructor (header_fields req)) (\<lambda>b.
     and_then (dictionary_destructor (req_body req)) (\<lambda>c.
     and_then (dictionary_destructor (req_query req)) (\<lambda>d. Inr [a, b, c, d]))))"

text \<open>
  How the handlers read a field: \<open>d.search(&d, "key", sizeof("key"))\<close>, used as a C string.
\<close>

definition request_field :: "slack \<Rightarrow> string dictionary \<Rightarrow> string \<Rightarrow> string option run" where
  "request_field slack d key =
     and_then (search_dict slack d key (length key + 1)) (\<lambda>v. Inr (map_option (read_cstr slack) v))"

text \<open>The same with \<open>sizeof(char[strlen("key")])\<close>, without the NUL.\<close>

definition request_field_bare :: "slack \<Rightarrow> string dictionary \<Rightarrow> string \<Rightarrow> string option run" where
  "request_field_bare slack d key =
     and_then (search_dict slack d key (length key)) (\<lambda>v. Inr (map_option (read_cstr slack) v))"

section \<open>Queues of pieces\<close>

lemma push_all:
  assumes "\<forall>f \<in> set fs. 0 < n f"
  shows "\<exists>q. fold_run (\<lambda>f q. push q (b f) (n f)) fs queue_constructor = Inr q
    \<and> queue_wf q \<and> contents q = map b fs"
proof -
  have "queue_wf q \<Longrightarrow> \<exists>q'. fold_run (\<lambda>f q. push q (b f) (n f)) fs q = Inr q'
    \<and> queue_wf q' \<and> contents q' = contents q @ map b fs" for q
    using assms
  proof (induction fs arbitrary: q)
    case (Cons f fs)
    then obtain q1 where "push q (b f) (n f) = Inr q1" "queue_wf q1" "contents q1 = contents q @ [b f]"
      using push_eq [of q "n f" "b f"] by auto
    then show ?case using Cons.IH [of q1] Cons.prems by auto
  qed simp
  from this [OF queue_wf_constructor] show ?thesis by simp
qed

lemma queue_destructor_total: "queue_wf q \<Longrightarrow> \<exists>q'. queue_destructor q = Inr q'"
  using destroy_loop_eq [of "qlist q" 0]
  by (auto simp: queue_destructor_def linked_list_destructor_def queue_wf_def)

text \<open>Pushing pieces and emptying the queue again processes the pieces in order.\<close>

lemma queue_pipeline:
  assumes "\<forall>f \<in> set fs. 0 < n f"
  shows "and_then (fold_run (\<lambda>f q. push q (b f) (n f)) fs queue_constructor) (\<lambda>q.
      and_then (drain step q s) (\<lambda>(q, s). and_then (queue_destructor q) (\<lambda>_. Inr s)))
    = fold_run (\<lambda>f. step (b f)) fs s"
proof -
  obtain q where q: "fold_run (\<lambda>f q. push q (b f) (n f)) fs queue_constructor = Inr q"
    "queue_wf q" "contents q = map b fs"
    using push_all [OF assms] by blast
  show ?thesis
  proof (cases "fold_run step (contents q) s")
    case (Inl e)
    then show ?thesis using q drain_Inl [OF q(2) Inl] by (simp add: fold_run_map)
  next
    case (Inr s')
    then obtain q' where "drain step q s = Inr (q', s')" "queue_wf q'"
      using drain_Inr [OF q(2) Inr] by blast
    then show ?thesis using q Inr queue_destructor_total [of q'] by (auto simp: fold_run_map)
  qed
qed

lemma strtok_all_pos: "\<forall>f \<in> set (strtok_all d s). 0 < length f"
  by (auto dest: strtok_all_tokens)

lemma extract_request_query_eq:
  "extract_request_query slack (Some s) =
     fold_run (\<lambda>f. insert_field slack (read_cstr slack f)) (strtok_all ''&'' s) dictionary_constructor"
  unfolding extract_request_query_def option.case
  by (subst queue_pipeline) (use strtok_all_pos in simp_all)

lemma extract_request_query_None:
  "extract_request_query slack None = Inr dictionary_constructor"
  unfolding extract_request_query_def option.case
  by (subst queue_pipeline) simp_all

lemma extract_header_fields_eq:
  "extract_header_fields slack (Some s) =
     fold_run (\<lambda>f. insert_header slack (read_cstr slack f)) (strtok_all [CHR 0x0A] s)
       dictionary_constructor"
  unfolding extract_header_fields_def deref_simps and_then_Inr
  by (subst queue_pipeline) (use strtok_all_pos in simp_all)

lemma body_pipeline:
  "and_then (fold_run (\<lambda>f q. push q (copy_str f (length f + 1)) (length f + 1))
      (strtok_all ''&'' b) queue_constructor) (\<lambda>flds.
    and_then (drain (\<lambda>block. insert_field slack (read_cstr slack block)) flds
      dictionary_constructor) (\<lambda>(flds, body_dict).
    and_then (queue_destructor flds) (\<lambda>_. Inr body_dict)))
   = fold_run (\<lambda>f. insert_field slack (read_cstr slack (f @ [NUL]))) (strtok_all ''&'' b)
       dictionary_constructor"
  by (subst queue_pipeline) simp_all

section \<open>Fields and header lines\<close>

definition field_text :: "string \<times> string \<Rightarrow> string" where
  "field_text kv = fst kv @ ''='' @ snd kv"

definition field_ok :: "string \<times> string \<Rightarrow> bool" where
  "field_ok kv \<longleftrightarrow> nul_free (field_text kv) \<and> fst kv \<noteq> [] \<and> snd kv \<noteq> []
     \<and> CHR ''='' \<notin> set (fst kv) \<and> CHR ''&'' \<notin> set (field_text kv)
     \<and> CHR 0x0D \<notin> set (field_text kv) \<and> CHR '' '' \<notin> set (field_text kv)
     \<and> CHR 0x0A \<notin> set (field_text kv)"

text \<open>The block in which a value is stored, terminated.\<close>

definition str_block :: "string \<Rightarrow> string" where
  "str_block s = calloc_copy s (length s + 1)"

lemma read_str_block [simp]: "nul_free s \<Longrightarrow> read_cstr slack (str_block s) = s"
  by (simp add: str_block_def)

lemma insert_field_ok:
  assumes "field_ok kv"
  shows "insert_field slack (field_text kv) d
       = insert_dict slack d (fst kv) (Suc (length (fst kv))) (str_block (snd kv))"
proof -
  obtain k v where kv: "kv = (k, v)" by fastforce
  have "strtok ''='' (k @ CHR ''='' # v) = (Some k, v)"
    using assms kv by (intro strtok_token_delim) (auto simp: field_ok_def)
  moreover have "strtok [] v = (Some v, [])"
    using assms kv by (simp add: strtok_empty_delims field_ok_def)
  moreover have "hd v \<noteq> CHR '' ''"
    using assms kv by (cases v) (auto simp: field_ok_def field_text_def)
  ultimately show ?thesis
    by (simp add: insert_field_def field_text_def kv insert_str_def str_block_def)
qed

lemma fields_fold:
  assumes "\<forall>kv \<in> set kvs. field_ok kv"
    and "\<And>kv. kv \<in> set kvs \<Longrightarrow> read_cstr slack (b (field_text kv)) = field_text kv"
  shows "fold_run (\<lambda>f. insert_field slack (read_cstr slack (b f)))
      (strtok_all ''&'' (join ''&'' (map field_text kvs))) dictionary_constructor
    = fold_run (\<lambda>(k, v) d. insert_dict slack d k (Suc (length k)) v)
        (map (\<lambda>(k, v). (k, str_block v)) kvs) dictionary_constructor"
proof -
  have "strtok_all ''&'' (join ''&'' (map field_text kvs)) = map field_text kvs"
    using assms(1) by (intro strtok_all_join) (auto simp: field_ok_def field_text_def)
  then show ?thesis using assms
    by (auto simp: fold_run_map insert_field_ok intro!: fold_run_cong)
qed

definition header_line :: "string \<times> string \<Rightarrow> string" where
  "header_line kv = fst kv @ '': '' @ snd kv @ [CHR 0x0D]"

definition header_ok :: "string \<times> string \<Rightarrow> bool" where
  "header_ok kv \<longleftrightarrow> nul_free (fst kv @ snd kv) \<and> fst kv \<noteq> []
     \<and> CHR '':'' \<notin> set (fst kv) \<and> CHR ''|'' \<notin> set (fst kv @ snd kv)
     \<and> CHR 0x0D \<notin> set (fst kv @ snd kv) \<and> CHR 0x0A \<notin> set (fst kv @ snd kv)"

lemma insert_header_ok:
  assumes "header_ok kv"
  shows "insert_header slack (header_line kv) d
       = insert_dict slack d (fst kv) (Suc (length (fst kv))) (str_block (snd kv))"
proof -
  obtain k v where kv: "kv = (k, v)" by fastforce
  have "strtok '':'' (k @ CHR '':'' # CHR '' '' # v @ [CHR 0x0D]) = (Some k, CHR '' '' # v @ [CHR 0x0D])"
    using assms kv by (intro strtok_token_delim) (auto simp: header_ok_def)
  then show ?thesis
    by (simp add: insert_header_def header_line_def kv insert_str_def str_block_def
        strtok_empty_delims strip_value_def)
qed

lemma insert_header_end: "insert_header slack [CHR 0x0D] d = Inr d"
  by (simp add: insert_header_def strtok_def)

lemma headers_fold:
  assumes "\<forall>kv \<in> set hs. header_ok kv" and "\<forall>b. slack b = []"
  shows "extract_header_fields slack (Some (concat (map (\<lambda>kv. header_line kv @ [CHR 0x0A]) hs) @ [CHR 0x0D]))
    = fold_run (\<lambda>(k, v) d. insert_dict slack d k (Suc (length k)) v)
        (map (\<lambda>(k, v). (k, str_block v)) hs) dictionary_constructor"
proof -
  have j: "concat (map (\<lambda>kv. header_line kv @ [CHR 0x0A]) hs) @ [CHR 0x0D]
      = join [CHR 0x0A] (map header_line hs @ [[CHR 0x0D]])"
    by (induction hs) (auto simp: join_Cons)
  have "\<forall>t \<in> set (map header_line hs @ [[CHR 0x0D]]). t \<noteq> [] \<and> set t \<inter> set [CHR 0x0A] = {}"
    using assms(1) by (auto simp: header_line_def header_ok_def)
  then have s: "strtok_all [CHR 0x0A] (join [CHR 0x0A] (map header_line hs @ [[CHR 0x0D]]))
      = map header_line hs @ [[CHR 0x0D]]"
    by (intro strtok_all_join) simp_all
  have r: "header_ok kv \<Longrightarrow> read_cstr slack (header_line kv) = header_line kv" for kv
    using assms(2) by (simp add: read_cstr_unterminated header_ok_def header_line_def NUL_def)
  have "read_cstr slack [CHR 0x0D] = [CHR 0x0D]"
    using assms(2) by (simp add: read_cstr_def NUL_def)
  then have e: "fold_run (\<lambda>f. insert_header slack (read_cstr slack f)) [[CHR 0x0D]] = Inr"
    by (simp add: fun_eq_iff insert_header_end)
  show ?thesis unfolding extract_header_fields_eq j s fold_run_append e fold_run_map
    and_then_Inr_right
    using assms(1) r by (auto simp: insert_header_ok intro!: fold_run_cong)
qed

section \<open>Marking the blank line\<close>

lemma mark_skip: "a \<noteq> CHR 0x0D \<Longrightarrow> mark_blank_lines (a # s) = a # mark_blank_lines s"
  by (cases s; cases "tl s"; cases "tl (tl s)") (auto simp: CRLF_def)

lemma mark_skip_all:
  "CHR 0x0D \<notin> set s \<Longrightarrow> mark_blank_lines (s @ t) = s @ mark_blank_lines t"
  by (induction s) (auto simp: mark_skip)

lemma mark_none: "CHR 0x0D \<notin> set s \<Longrightarrow> mark_blank_lines s = s"
  using mark_skip_all [of s "[]"] by simp

lemma mark_line_end:
  "c \<noteq> CHR 0x0D \<Longrightarrow>
   mark_blank_lines (CRLF @ c # s) = CRLF @ mark_blank_lines (c # s)"
  by (cases s) (auto simp: CRLF_def mark_skip)

lemma mark_blank_line:
  "mark_blank_lines (CRLF @ CRLF @ s) = CRLF @ CHR 0x0D # CHR ''|'' # mark_blank_lines s"
  by (simp add: CRLF_def)

lemma mark_headers:
  assumes "\<forall>kv \<in> set hs. header_ok kv" and "CHR 0x0D \<notin> set b"
  shows "mark_blank_lines (CRLF @ concat (map (\<lambda>kv. header_line kv @ [CHR 0x0A]) hs) @ CRLF @ b)
    = CRLF @ concat (map (\<lambda>kv. header_line kv @ [CHR 0x0A]) hs) @ CHR 0x0D # CHR ''|'' # b"
  using assms(1)
proof (induction hs)
  case Nil
  then show ?case using mark_blank_line [of b] mark_none [OF assms(2)] by simp
next
  case (Cons kv hs)
  obtain k v where kv: "kv = (k, v)" by fastforce
  let ?rest = "concat (map (\<lambda>kv. header_line kv @ [CHR 0x0A]) hs) @ CRLF @ b"
  let ?line = "k @ '': '' @ v"
  have ok: "CHR 0x0D \<notin> set ?line" using Cons.prems kv by (auto simp: header_ok_def)
  obtain c l where l: "?line = c # l" by (cases k) auto
  then have c: "c \<noteq> CHR 0x0D" using ok by auto
  have "mark_blank_lines (CRLF @ ?line @ CRLF @ ?rest) = CRLF @ mark_blank_lines (?line @ CRLF @ ?rest)"
    unfolding l using mark_line_end [OF c, of "l @ CRLF @ ?rest"] by simp
  also have "\<dots> = CRLF @ ?line @ mark_blank_lines (CRLF @ ?rest)"
    using mark_skip_all [OF ok] by simp
  finally show ?case using Cons kv by (simp add: header_line_def CRLF_def)
qed

section \<open>Requests as a client writes them\<close>

definition query_text :: "(string \<times> string) list \<Rightarrow> string" where
  "query_text q = (if q = [] then [] else CHR ''?'' # join ''&'' (map field_text q))"

definition request_text ::
  "string \<Rightarrow> string \<Rightarrow> (string \<times> string) list \<Rightarrow> string \<Rightarrow> (string \<times> string) list \<Rightarrow> (string \<times> string) list \<Rightarrow> string"
  where
  "request_text meth uri q version hs b =
     meth @ '' '' @ uri @ query_text q @ '' '' @ version @ CRLF
     @ concat (map (\<lambda>kv. header_line kv @ [CHR 0x0A]) hs) @ CRLF @ join ''&'' (map field_text b)"

definition word_ok :: "string \<Rightarrow> bool" where
  "word_ok s \<longleftrightarrow> nul_free s \<and> s \<noteq> [] \<and> set s \<inter> {CHR '' '', CHR ''?'', CHR 0x0D, CHR 0x0A} = {}"

lemma join_chars:
  "x \<in> set (join sep xs) \<Longrightarrow> x \<in> set sep \<or> (\<exists>t \<in> set xs. x \<in> set t)"
  by (induction xs rule: induct_list012) auto

lemma fields_text_chars:
  assumes "\<forall>kv \<in> set q. field_ok kv"
  shows "set (join ''&'' (map field_text q)) \<inter> {CHR '' '', CHR 0x0D, CHR 0x0A, NUL} = {}"
proof -
  have "x \<notin> {CHR '' '', CHR 0x0D, CHR 0x0A, NUL}" if "x \<in> set (join ''&'' (map field_text q))" for x
    using join_chars [OF that] assms by (auto simp: field_ok_def nul_free_def NUL_def)
  then show ?thesis by blast
qed

lemma query_text_chars:
  assumes "\<forall>kv \<in> set q. field_ok kv"
  shows "set (query_text q) \<inter> {CHR '' '', CHR 0x0D, CHR 0x0A, NUL} = {}"
  using fields_text_chars [OF assms] by (auto simp: query_text_def NUL_def)

lemma join_field_text_ne: "q \<noteq> [] \<Longrightarrow> join ''&'' (map field_text q) \<noteq> []"
  by (cases q) (auto simp: join_Cons field_text_def)

lemma strtok_query:
  assumes "word_ok uri" and "\<forall>kv \<in> set q. field_ok kv"
  shows "strtok ''?'' (uri @ query_text q) = (Some uri, join ''&'' (map field_text q))"
proof (cases "q = []")
  case True
  then show ?thesis using assms(1)
    by (auto simp: query_text_def word_ok_def intro!: strtok_token_end)
next
  case False
  then show ?thesis using assms(1)
    by (auto simp: query_text_def word_ok_def intro!: strtok_token_delim)
qed

section \<open>What the parser returns\<close>

text \<open>A dictionary that holds the given strings, the first one of each key.\<close>

definition holds :: "slack \<Rightarrow> string dictionary \<Rightarrow> (string \<times> string) list \<Rightarrow> bool" where
  "holds slack d kvs \<longleftrightarrow>
     dict_wf slack d \<and> (\<forall>k. map_option (read_cstr slack) (dict_map slack d k) = map_of kvs k)"

lemma holds_field:
  "holds slack d kvs \<Longrightarrow> nul_free k \<Longrightarrow> request_field slack d k = Inr (map_of kvs k)"
  by (simp add: request_field_def search_dict_eq key_size_ok_def holds_def)

lemma holds_field_bare:
  "holds slack d kvs \<Longrightarrow> nul_free k \<Longrightarrow> 2 \<le> length k \<Longrightarrow>
   request_field_bare slack d k = Inr (map_of kvs k)"
  by (simp add: request_field_bare_def search_dict_eq key_size_ok_def holds_def)

lemma holds_empty: "holds slack dictionary_constructor []"
  by (simp add: holds_def)

lemma holds_blocks:
  assumes "\<forall>(k, v) \<in> set kvs. nul_free k \<and> nul_free v"
  shows "\<exists>d. fold_run (\<lambda>(k, v) d. insert_dict slack d k (Suc (length k)) v)
      (map (\<lambda>(k, v). (k, str_block v)) kvs) dictionary_constructor = Inr d \<and> holds slack d kvs"
proof -
  have "\<forall>(k, v) \<in> set (map (\<lambda>(k, v). (k, str_block v)) kvs). nul_free k" using assms by auto
  then obtain d where d: "fold_run (\<lambda>(k, v) d. insert_dict slack d k (Suc (length k)) v)
      (map (\<lambda>(k, v). (k, str_block v)) kvs) dictionary_constructor = Inr d" "dict_wf slack d"
    "dict_map slack d = map_of (map (\<lambda>(k, v). (k, str_block v)) kvs)"
    using dict_full.ins_all [OF dict_full.valid_empty,
        of "map (\<lambda>(k, v). (k, str_block v)) kvs" slack] by auto
  have "map_option (read_cstr slack) (map_option str_block (map_of kvs k)) = map_of kvs k" for k
  proof (cases "map_of kvs k")
    case (Some v)
    then have "nul_free v" using assms by (auto dest: map_of_SomeD)
    then show ?thesis using Some by simp
  qed simp
  then show ?thesis using d by (auto simp: holds_def map_of_map)
qed

lemma query_holds:
  assumes "\<forall>kv \<in> set q. field_ok kv" and "\<forall>b. slack b = []"
  shows "\<exists>d. extract_request_query slack
      (if q = [] then None else Some (join ''&'' (map field_text q))) = Inr d \<and> holds slack d q"
proof (cases "q = []")
  case True
  then show ?thesis by (simp add: extract_request_query_None holds_empty)
next
  case False
  have "\<And>kv. kv \<in> set q \<Longrightarrow> read_cstr slack (field_text kv) = field_text kv"
    using assms by (simp add: read_cstr_unterminated field_ok_def)
  moreover have "\<forall>(k, v) \<in> set q. nul_free k \<and> nul_free v"
    using assms(1) by (auto simp: field_ok_def field_text_def)
  ultimately show ?thesis
    using False holds_blocks [of q slack] fields_fold [OF assms(1), where b = "\<lambda>x. x" and slack = slack]
    by (simp add: extract_request_query_eq)
qed

lemma body_holds:
  assumes "\<forall>kv \<in> set b. field_ok kv" and "holds slack hs kvs"
    and "b = [] \<longrightarrow> ''Content-Type'' \<notin> fst ` set kvs"
  shows "\<exists>d. extract_body slack hs (if b = [] then None else Some (join ''&'' (map field_text b))) = Inr d
     \<and> holds slack d (if ''Content-Type'' \<in> fst ` set kvs then b else [])"
proof (cases "''Content-Type'' \<in> fst ` set kvs")
  case False
  then have "dict_map slack hs ''Content-Type'' = None"
    using assms(2) unfolding holds_def by (metis map_of_eq_None_iff option.map_disc_iff)
  then have "search_dict slack hs ''Content-Type'' 13 = Inr None"
    using assms(2) by (simp add: search_dict_eq key_size_ok_def holds_def NUL_def)
  then show ?thesis using False by (simp add: extract_body_def holds_empty)
next
  case True
  then have "dict_map slack hs ''Content-Type'' \<noteq> None"
    using assms(2) unfolding holds_def by (metis map_of_eq_None_iff option.map_disc_iff)
  then obtain ct where "search_dict slack hs ''Content-Type'' 13 = Inr (Some ct)"
    using assms(2) by (auto simp: search_dict_eq key_size_ok_def holds_def NUL_def)
  moreover have "\<And>kv. kv \<in> set b \<Longrightarrow> read_cstr slack (field_text kv @ [NUL]) = field_text kv"
    using assms(1) by (simp add: field_ok_def)
  moreover have "\<forall>(k, v) \<in> set b. nul_free k \<and> nul_free v"
    using assms(1) by (auto simp: field_ok_def field_text_def)
  moreover have "b \<noteq> []" using True assms(3) by blast
  ultimately show ?thesis
    using True holds_blocks [of b slack] body_pipeline [of "join ''&'' (map field_text b)" slack]
      fields_fold [OF assms(1), where b = "\<lambda>x. x @ [NUL]" and slack = slack]
    by (simp add: extract_body_def)
qed

lemma request_line_holds:
  assumes "word_ok meth" "word_ok uri" "word_ok version" and "\<forall>kv \<in> set q. field_ok kv"
    and "\<forall>b. slack b = []"
  shows "\<exists>d qd. extract_request_line_fields slack
      (Some (meth @ '' '' @ uri @ query_text q @ '' '' @ version @ [CHR 0x0D])) = Inr (d, qd)
    \<and> holds slack d [(''method'', meth), (''uri'', uri), (''http_version'', version @ [CHR 0x0D])]
    \<and> holds slack qd q"
proof -
  let ?v = "version @ [CHR 0x0D]" and ?bare = "\<lambda>s. calloc_copy s (length s)"
  have t1: "strtok '' '' (meth @ CHR '' '' # s) = (Some meth, s)" for s
    using assms(1) by (intro strtok_token_delim) (auto simp: word_ok_def)
  have t2: "strtok '' '' (uri @ query_text q @ CHR '' '' # ?v) = (Some (uri @ query_text q), ?v)"
    using assms(2) query_text_chars [OF assms(4)] strtok_token_delim [of "uri @ query_text q" "'' ''"]
    by (auto simp: word_ok_def)
  have t3: "strtok [] ?v = (Some ?v, [])" by (simp add: strtok_empty_delims)
  have t4: "strtok [] (join ''&'' (map field_text q))
      = (if q = [] then None else Some (join ''&'' (map field_text q)), [])"
    using join_field_text_ne [of q] by (auto simp: strtok_empty_delims)
  obtain qd where qd: "extract_request_query slack
      (if q = [] then None else Some (join ''&'' (map field_text q))) = Inr qd" "holds slack qd q"
    using query_holds [OF assms(4,5)] by blast
  let ?kvs = "[(''method'', ?bare meth), (''uri'', ?bare uri), (''http_version'', ?bare ?v)]"
  have "\<forall>(k, v) \<in> set ?kvs. nul_free k" by (simp add: NUL_def)
  then obtain d where d: "fold_run (\<lambda>(k, v) d. insert_dict slack d k (Suc (length k)) v) ?kvs
      dictionary_constructor = Inr d" "dict_wf slack d" "dict_map slack d = map_of ?kvs"
    using dict_full.ins_all [OF dict_full.valid_empty, of ?kvs slack] by auto
  have n: "Suc (length ''method'') = 7" "Suc (length ''uri'') = 4" "Suc (length ''http_version'') = 13"
    by simp_all
  have d1: "and_then (insert_dict slack dictionary_constructor ''method'' 7 (?bare meth)) (\<lambda>d.
      and_then (insert_dict slack d ''uri'' 4 (?bare uri)) (\<lambda>d.
        insert_dict slack d ''http_version'' 13 (?bare ?v))) = Inr d"
    using d(1) unfolding fold_run.simps case_prod_conv n and_then_Inr_right .
  have r: "read_cstr slack (?bare s) = s" if "nul_free s" for s
    using read_calloc_bare_slackless [OF that] assms(5) by blast
  have "nul_free meth" "nul_free uri" "nul_free ?v"
    using assms(1-3) by (auto simp: word_ok_def NUL_def)
  then have h: "holds slack d [(''method'', meth), (''uri'', uri), (''http_version'', ?v)]"
    using d(2,3) r [of meth] r [of uri] r [of ?v] by (auto simp: holds_def)
  have "extract_request_line_fields slack (Some (meth @ '' '' @ uri @ query_text q @ '' '' @ ?v))
      = Inr (d, qd)"
    using d1 qd(1)
    by (auto simp: extract_request_line_fields_def t1 t2 t3 t4 strtok_query [OF assms(2,4)]
        insert_str_def run_simps simp del: length_append)
  then show ?thesis using h qd(2) by blast
qed

lemma constructor_holds:
  assumes "word_ok meth" "word_ok uri" "word_ok version"
    and "\<forall>kv \<in> set q. field_ok kv" and "\<forall>kv \<in> set hs. header_ok kv" and "\<forall>kv \<in> set b. field_ok kv"
    and "b = [] \<longrightarrow> ''Content-Type'' \<notin> fst ` set hs" and slack: "\<forall>b. slack b = []"
  shows "\<exists>req. http_request_constructor slack (request_text meth uri q version hs b) = Inr req
    \<and> holds slack (request_line req) [(''method'', meth), (''uri'', uri), (''http_version'', version @ [CHR 0x0D])]
    \<and> holds slack (req_query req) q \<and> holds slack (header_fields req) hs
    \<and> holds slack (req_body req) (if ''Content-Type'' \<in> fst ` set hs then b else [])"
proof -
  let ?first = "meth @ '' '' @ uri @ query_text q @ '' '' @ version"
  let ?hs = "concat (map (\<lambda>kv. header_line kv @ [CHR 0x0A]) hs)" and ?b = "join ''&'' (map field_text b)"
  have b: "CHR 0x0D \<notin> set ?b" and qs: "CHR 0x0D \<notin> set (query_text q)" "CHR 0x0A \<notin> set (query_text q)"
    using fields_text_chars [OF assms(6)] query_text_chars [OF assms(4)] by auto
  have "CHR 0x0D \<notin> set ?first" using assms(1-3) qs by (auto simp: word_ok_def)
  then have m: "mark_blank_lines (request_text meth uri q version hs b)
      = ?first @ CHR 0x0D # CHR 0x0A # (?hs @ [CHR 0x0D]) @ CHR ''|'' # ?b"
    using mark_skip_all [of ?first] mark_headers [OF assms(5) b]
    by (simp add: request_text_def CRLF_def)
  have t1: "strtok [CHR 0x0A] ((?first @ [CHR 0x0D]) @ CHR 0x0A # s) = (Some (?first @ [CHR 0x0D]), s)" for s
    using assms(1-3) qs by (intro strtok_token_delim) (auto simp: word_ok_def)
  have t2: "strtok ''|'' ((?hs @ [CHR 0x0D]) @ CHR ''|'' # ?b) = (Some (?hs @ [CHR 0x0D]), ?b)"
    using assms(5) by (intro strtok_token_delim) (auto simp: header_line_def header_ok_def)
  have t3: "strtok [] ?b = (if b = [] then None else Some ?b, [])"
    using join_field_text_ne [of b] by (auto simp: strtok_empty_delims)
  obtain d qd where d: "extract_request_line_fields slack (Some (?first @ [CHR 0x0D])) = Inr (d, qd)"
    "holds slack d [(''method'', meth), (''uri'', uri), (''http_version'', version @ [CHR 0x0D])]"
    "holds slack qd q"
    using request_line_holds [OF assms(1-4) slack] by (auto simp del: length_append)
  have "\<forall>(k, v) \<in> set hs. nul_free k \<and> nul_free v" using assms(5) by (auto simp: header_ok_def)
  then obtain hd where h: "extract_header_fields slack (Some (?hs @ [CHR 0x0D])) = Inr hd"
    "holds slack hd hs"
    using holds_blocks [of hs slack] headers_fold [OF assms(5) slack] by auto
  obtain bd where bd: "extract_body slack hd (if b = [] then None else Some ?b) = Inr bd"
    "holds slack bd (if ''Content-Type'' \<in> fst ` set hs then b else [])"
    using body_holds [OF assms(6) h(2) assms(7)] by blast
  have "\<not> length (request_text meth uri q version hs b) < 2"
    by (simp add: request_text_def CRLF_def)
  then show ?thesis
    using t1 t2 t3 d h bd by (simp add: http_request_constructor_def m)
qed

section \<open>Properties\<close>



end
