(* ===== verification/Base64.thy ===== *)
theory Base64
  imports C_String "HOL-Library.Word"
begin

text \<open>
  Base64 and token generation of \<open>src/http/helper/helper.c\<close>. Octets and sextets are
  \<open>uint32_t\<close> as in the code. The decoding table is a \<open>malloc\<close>ed block of 256 bytes of which only
  the 64 entries of the alphabet are written; what the allocator left in the others is the
  parameter \<open>junk\<close>. The index into it is a signed \<open>char\<close>.
\<close>

unbundle bit_operations_syntax

type_synonym u32 = "32 word"

section \<open>Encoding\<close>

definition encoding_table :: string where
  "encoding_table = ''ABCDEFGHIJKLMNOPQRSTUVWXYZabcdefghijklmnopqrstuvwxyz0123456789+/''"

definition mod_table :: "nat list" where
  "mod_table = [0, 2, 1]"

definition encode_triple :: "u32 \<Rightarrow> u32 \<Rightarrow> u32 \<Rightarrow> string" where
  "encode_triple octet_a octet_b octet_c =
     (let triple = push_bit 16 octet_a + push_bit 8 octet_b + octet_c
      in [encoding_table ! unat (drop_bit 18 triple AND 0x3F),
          encoding_table ! unat (drop_bit 12 triple AND 0x3F),
          encoding_table ! unat (drop_bit 6 triple AND 0x3F),
          encoding_table ! unat (triple AND 0x3F)])"

definition octet :: "char \<Rightarrow> u32" where
  "octet c = of_nat (of_char c)"

fun encode_loop :: "string \<Rightarrow> string" where
  "encode_loop [] = []"
| "encode_loop [a] = encode_triple (octet a) 0 0"
| "encode_loop [a, b] = encode_triple (octet a) (octet b) 0"
| "encode_loop (a # b # c # data) =
     encode_triple (octet a) (octet b) (octet c) @ encode_loop data"

fun pad_loop :: "nat \<Rightarrow> nat \<Rightarrow> nat \<Rightarrow> string \<Rightarrow> string" where
  "pad_loop 0 i output_length encoded = encoded"
| "pad_loop (Suc k) i output_length encoded =
     pad_loop k (i + 1) output_length (encoded[output_length - 1 - i := CHR ''=''])"

definition base64_encode :: "string \<Rightarrow> string" where
  "base64_encode data =
     (let output_length = 4 * ((length data + 2) div 3)
      in pad_loop (mod_table ! (length data mod 3)) 0 output_length (encode_loop data))"

section \<open>Decoding\<close>

fun base64_chars_strchr :: "char \<Rightarrow> u32" where
  "base64_chars_strchr chr =
     (case List.find (\<lambda>i. encoding_table ! i = chr) [0..<length encoding_table] of
        Some i \<Rightarrow> of_nat i | None \<Rightarrow> - 1)"

text \<open>\<open>decoding_table\<close> after \<open>build_decoding_table\<close>: a map from byte to byte.\<close>

definition build_decoding_table :: "(char \<Rightarrow> char) \<Rightarrow> char \<Rightarrow> char" where
  "build_decoding_table junk =
     fold (\<lambda>i table. table(encoding_table ! i := char_of i)) [0..<64] junk"

text \<open>\<open>(uint32_t)\<close> of a \<open>char\<close>: the sign is extended.\<close>

definition uint32_of_char :: "char \<Rightarrow> u32" where
  "uint32_of_char c =
     (let n = of_char c :: nat in if n < 128 then of_nat n else of_nat n - 256)"

definition sextet :: "(char \<Rightarrow> char) \<Rightarrow> char \<Rightarrow> u32 run" where
  "sextet table c =
     (if c = CHR ''='' then Inr 0
      else if (of_char c :: nat) \<ge> 128 then Inl Out_Of_Bounds
      else Inr (uint32_of_char (table c)))"

definition low_byte :: "u32 \<Rightarrow> char" where
  "low_byte w = char_of (unat (w AND 0xFF))"

definition decode_quad :: "u32 \<Rightarrow> u32 \<Rightarrow> u32 \<Rightarrow> u32 \<Rightarrow> string" where
  "decode_quad a b c d =
     (let triple = push_bit 18 a + push_bit 12 b + push_bit 6 c + d
      in [low_byte (drop_bit 16 triple), low_byte (drop_bit 8 triple), low_byte triple])"

text \<open>Each of the three stores of a round happens only below \<open>output_length\<close>.\<close>

fun decode_loop :: "(char \<Rightarrow> char) \<Rightarrow> string \<Rightarrow> nat \<Rightarrow> string run" where
  "decode_loop table (w # x # y # z # data) room =
     and_then (sextet table w) (\<lambda>a.
     and_then (sextet table x) (\<lambda>b.
     and_then (sextet table y) (\<lambda>c.
     and_then (sextet table z) (\<lambda>d.
     let out = take room (decode_quad a b c d)
     in and_then (decode_loop table data (room - length out)) (\<lambda>rest. Inr (out @ rest))))))"
| "decode_loop table data room = Inr []"

definition base64_decode :: "(char \<Rightarrow> char) \<Rightarrow> string \<Rightarrow> string option run" where
  "base64_decode junk data =
     (let n = length data; table = build_decoding_table junk
      in if n mod 4 \<noteq> 0 then Inr None
         else if n = 0 then Inl Out_Of_Bounds
         else
           let output_length = n div 4 * 3;
               output_length = (if data ! (n - 1) = CHR ''='' then output_length - 1 else output_length);
               output_length = (if data ! (n - 2) = CHR ''='' then output_length - 1 else output_length)
           in and_then (decode_loop table data output_length) (\<lambda>out. Inr (Some out)))"

section \<open>Tokens\<close>

definition RAND_MAX :: nat where "RAND_MAX = 2147483647"

text \<open>The array includes its terminating NUL, at index 62.\<close>

definition charset :: string where
  "charset = ''abcdefghijklmnopqrstuvwxyzABCDEFGHIJKLMNOPQRSTUVWXYZ0123456789'' @ [NUL]"

text \<open>
  The key is computed in doubles. \<open>RAND_MAX\<close> is prime, so the exact quotient is an integer
  only for 0 and \<open>RAND_MAX\<close> and otherwise further from one than the rounding error: truncating
  the double is the integer division below.
\<close>

definition token_key :: "nat \<Rightarrow> nat" where
  "token_key r = r * (length charset - 1) div RAND_MAX"

text \<open>\<open>rands\<close> are the results of the successive calls of \<open>rand\<close>.\<close>

definition generate_token :: "nat list \<Rightarrow> nat \<Rightarrow> string" where
  "generate_token rands sz =
     (if sz = 0 then []
      else map (\<lambda>r. charset ! token_key r) (take (sz - 1) rands) @ [NUL])"

section \<open>Lemmas on tokens\<close>

lemma length_charset [simp]: "length charset = 63"
  by (simp add: charset_def)

lemma token_key_le: "r \<le> RAND_MAX \<Longrightarrow> token_key r \<le> 62"
  unfolding token_key_def RAND_MAX_def length_charset by simp

lemma token_key_less: "r < RAND_MAX \<Longrightarrow> token_key r < 62"
  unfolding token_key_def RAND_MAX_def length_charset
  by (simp add: div_less_iff_less_mult)

lemma charset_nth_ok:
  assumes "k < 62" shows "charset ! k \<noteq> NUL"
proof -
  have "\<forall>k \<in> set [0..<62]. charset ! k \<noteq> NUL"
    unfolding charset_def NUL_def by code_simp
  then show ?thesis using assms by auto
qed

lemma generate_token_string:
  assumes "sz \<le> Suc (length rands)" and "0 < sz" and "\<forall>r \<in> set rands. r < RAND_MAX"
  shows "\<exists>s. generate_token rands sz = s @ [NUL] \<and> length s = sz - 1 \<and> nul_free s"
proof -
  let ?s = "map (\<lambda>r. charset ! token_key r) (take (sz - 1) rands)"
  have "nul_free ?s"
    using assms(3) unfolding nul_free_def
    by (auto dest!: in_set_takeD) (metis assms(3) charset_nth_ok token_key_less)
  then show ?thesis using assms(1,2) by (auto simp: generate_token_def)
qed

section \<open>The decoding table inverts the encoding table\<close>

lemma length_encoding_table [simp]: "length encoding_table = 64"
  by (simp add: encoding_table_def)

lemma distinct_encoding_table: "distinct encoding_table"
  unfolding encoding_table_def by code_simp

lemma encoding_table_char:
  "k < 64 \<Longrightarrow> encoding_table ! k \<noteq> CHR ''='' \<and> (of_char (encoding_table ! k) :: nat) < 128"
proof -
  have "\<forall>k \<in> set [0..<64]. encoding_table ! k \<noteq> CHR ''='' \<and> (of_char (encoding_table ! k) :: nat) < 128"
    unfolding encoding_table_def by code_simp
  then show "k < 64 \<Longrightarrow> ?thesis" by auto
qed

lemma table_prefix:
  "n \<le> 64 \<Longrightarrow> k < n \<Longrightarrow>
   fold (\<lambda>i table. table(encoding_table ! i := char_of i)) [0..<n] junk (encoding_table ! k) = char_of k"
proof (induction n)
  case (Suc n)
  then show ?case
    using nth_eq_iff_index_eq [OF distinct_encoding_table, of n k] by (auto simp: less_Suc_eq)
qed simp

lemma uint32_of_char_small: "k < 64 \<Longrightarrow> uint32_of_char (char_of k) = of_nat k"
  by (simp add: uint32_of_char_def)

lemma sextet_encoding_table:
  "k < 64 \<Longrightarrow> sextet (build_decoding_table junk) (encoding_table ! k) = Inr (of_nat k)"
  using encoding_table_char [of k] table_prefix [of 64 k junk]
  by (simp add: sextet_def build_decoding_table_def uint32_of_char_small)

lemma and_3F: "(w :: u32) AND 0x3F = take_bit 6 w"
  by (simp add: take_bit_eq_mask mask_eq_exp_minus_1)

lemma unat_and_3F: "unat (w AND 0x3F :: u32) = unat w mod 64"
  by (simp only: and_3F unsigned_take_bit_eq) (simp add: take_bit_eq_mod)

lemma unat_and_FF: "unat (w AND 0xFF :: u32) = unat w mod 256"
proof -
  have "w AND 0xFF = take_bit 8 w" by (simp add: take_bit_eq_mask mask_eq_exp_minus_1)
  then show ?thesis by (simp only: unsigned_take_bit_eq) (simp add: take_bit_eq_mod)
qed

lemma sextet_and_3F:
  "sextet (build_decoding_table junk) (encoding_table ! unat (w AND 0x3F :: u32)) = Inr (w AND 0x3F)"
proof -
  have "unat (w AND 0x3F) < 64" by (simp only: unat_and_3F mod_less_divisor zero_less_numeral)
  then show ?thesis by (subst sextet_encoding_table) simp_all
qed

section \<open>Three octets are four sextets\<close>

lemma unat_drop: "unat (drop_bit k (w :: u32)) = unat w div 2 ^ k"
  by (simp only: unat_drop_bit_eq) (simp only: drop_bit_eq_div)

lemma unat_push:
  "unat w * 2 ^ k < 2 ^ 32 \<Longrightarrow> unat (push_bit k (w :: u32)) = unat w * 2 ^ k"
  by (simp only: unsigned_push_bit_eq) (simp add: push_bit_eq_mult take_bit_nat_eq_self_iff)

lemma sextets_sum:
  assumes "t < (16777216 :: nat)"
  shows "t div 262144 mod 64 * 262144 + t div 4096 mod 64 * 4096 + t div 64 mod 64 * 64 + t mod 64 = t"
proof -
  define a where "a = t div 262144"
  define b where "b = t div 4096 mod 64"
  define c where "c = t div 64 mod 64"
  define d where "d = t mod 64"
  have a: "a < 64" using assms unfolding a_def by (simp add: div_less_iff_less_mult)
  have p: "t div 4096 = a * 64 + b"
    using div_mult_mod_eq [of "t div 4096" 64] unfolding a_def b_def
    by (simp add: div_mult2_eq [symmetric])
  have q: "t div 64 = t div 4096 * 64 + c"
    using div_mult_mod_eq [of "t div 64" 64] unfolding c_def by (simp add: div_mult2_eq [symmetric])
  have r: "t = t div 64 * 64 + d" unfolding d_def by simp
  have "a * 262144 + b * 4096 + c * 64 + d = ((a * 64 + b) * 64 + c) * 64 + d"
    by (simp add: algebra_simps)
  then have "a * 262144 + b * 4096 + c * 64 + d = t" using p q r by metis
  then show ?thesis using a unfolding a_def b_def c_def d_def by simp
qed

definition triple_of :: "u32 \<Rightarrow> u32 \<Rightarrow> u32 \<Rightarrow> u32" where
  "triple_of a b c = push_bit 16 a + push_bit 8 b + c"

lemma unat_triple_of:
  assumes "unat a < 256" "unat b < 256" "unat c < 256"
  shows "unat (triple_of a b c) = unat a * 65536 + unat b * 256 + unat c"
proof -
  have "unat (push_bit 16 a) = unat a * 65536" "unat (push_bit 8 b) = unat b * 256"
    using assms unat_push [of a 16] unat_push [of b 8] by simp_all
  then show ?thesis using assms unfolding triple_of_def by (simp add: unat_plus_if')
qed

lemma recombine:
  assumes "unat t < 16777216"
  shows "push_bit 18 (drop_bit 18 t AND 0x3F) + push_bit 12 (drop_bit 12 t AND 0x3F)
       + push_bit 6 (drop_bit 6 t AND 0x3F) + (t AND 0x3F :: u32) = t"
proof -
  let ?s = "\<lambda>k. drop_bit k t AND 0x3F"
  have s: "unat (?s k) < 64" for k by (simp add: unat_and_3F)
  have "unat (push_bit 18 (?s 18)) = unat t div 262144 mod 64 * 262144"
       "unat (push_bit 12 (?s 12)) = unat t div 4096 mod 64 * 4096"
       "unat (push_bit 6 (?s 6)) = unat t div 64 mod 64 * 64"
    using s unat_push [of "?s 18" 18] unat_push [of "?s 12" 12] unat_push [of "?s 6" 6]
    by (simp_all add: unat_and_3F unat_drop)
  moreover have "unat (t AND 0x3F) = unat t mod 64" by (rule unat_and_3F)
  ultimately have "unat (push_bit 18 (?s 18) + push_bit 12 (?s 12) + push_bit 6 (?s 6) + (t AND 0x3F))
      = unat t"
    using sextets_sum [OF assms] assms by (simp add: unat_plus_if')
  then show ?thesis by (simp add: word_unat_eq_iff)
qed

lemma decode_quad_sextets:
  assumes "unat a < 256" "unat b < 256" "unat c < 256"
  defines "t \<equiv> triple_of a b c"
  shows "decode_quad (drop_bit 18 t AND 0x3F) (drop_bit 12 t AND 0x3F) (drop_bit 6 t AND 0x3F)
      (t AND 0x3F) = [char_of (unat a), char_of (unat b), char_of (unat c)]"
proof -
  have t: "unat t = unat a * 65536 + unat b * 256 + unat c"
    unfolding t_def using assms(1-3) by (rule unat_triple_of)
  have "unat t < 16777216" using t assms(1-3) by simp
  then have "decode_quad (drop_bit 18 t AND 0x3F) (drop_bit 12 t AND 0x3F) (drop_bit 6 t AND 0x3F)
      (t AND 0x3F) = [low_byte (drop_bit 16 t), low_byte (drop_bit 8 t), low_byte t]"
    by (simp only: decode_quad_def recombine Let_def)
  moreover have "unat t div 65536 = unat a" "unat t div 256 = unat a * 256 + unat b"
    using assms(2,3) unfolding t by (auto intro: div_nat_eqI)
  moreover have "(unat a * 256 + unat b) mod 256 = unat b" using assms(2) by simp
  moreover have "unat t mod 256 = unat c"
  proof -
    have "unat t = (unat a * 256 + unat b) * 256 + unat c" using t by simp
    then show ?thesis using assms(3) by (simp only: mod_mult_self3 mod_less)
  qed
  ultimately show ?thesis using assms(1)
    by (simp add: low_byte_def unat_and_FF unat_drop)
qed

lemma unat_octet: "unat (octet c) = of_char c"
  using less_trans [OF nat_of_char_less_256 [of c], of 4294967296]
  by (simp add: octet_def unsigned_of_nat take_bit_nat_eq_self_iff)

lemma char_of_octet [simp]: "char_of (unat (octet c)) = c"
  by (simp add: unat_octet)

lemma unat_octet_less [simp]: "unat (octet c) < 256"
  unfolding unat_octet by (rule nat_of_char_less_256)

text \<open>Below the values that a partial triple contributes where the code writes the padding.\<close>

lemma sextet_pad: "sextet table (CHR ''='') = Inr 0"
  by (simp add: sextet_def)

lemma pad_sextets_zero:
  assumes "unat a < 256" "unat b < 256"
  shows "triple_of a b 0 AND 0x3F = 0" and "drop_bit 6 (triple_of a 0 0) AND 0x3F = 0"
proof -
  have "unat (triple_of a b 0) = unat a * 65536 + unat b * 256"
    using unat_triple_of [of a b 0] assms by simp
  then have "unat (triple_of a b 0 AND 0x3F) = (unat a * 65536 + unat b * 256) mod 64"
    by (simp only: unat_and_3F)
  also have "\<dots> = 0" by (simp add: mod_eq_0_iff_dvd)
  finally show "triple_of a b 0 AND 0x3F = 0" by (simp only: unat_0_iff)
  have "unat (triple_of a 0 0) = unat a * 65536" using unat_triple_of [of a 0 0] assms by simp
  then have "unat (drop_bit 6 (triple_of a 0 0) AND 0x3F) = (unat a * 65536) div 64 mod 64"
    by (simp add: unat_and_3F unat_drop)
  also have "\<dots> = unat a * 1024 mod 64" by simp
  also have "\<dots> = 0" by (simp add: mod_eq_0_iff_dvd)
  finally show "drop_bit 6 (triple_of a 0 0) AND 0x3F = 0" by (simp only: unat_0_iff)
qed

lemma encode_triple_eq:
  "encode_triple a b c =
     (let t = triple_of a b c
      in [encoding_table ! unat (drop_bit 18 t AND 0x3F), encoding_table ! unat (drop_bit 12 t AND 0x3F),
          encoding_table ! unat (drop_bit 6 t AND 0x3F), encoding_table ! unat (t AND 0x3F)])"
  by (simp only: encode_triple_def triple_of_def)

lemma base64_encode_Nil: "base64_encode [] = []"
  by (simp add: base64_encode_def mod_table_def)

lemma encode_triple_cases:
  obtains p q r s where "encode_triple a b c = [p, q, r, s]"
  by (simp add: encode_triple_def Let_def)

lemma base64_encode_1:
  "base64_encode [a] = take 2 (encode_triple (octet a) 0 0) @ ''==''"
proof -
  obtain p q r s where e: "encode_triple (octet a) 0 0 = [p, q, r, s]"
    by (rule encode_triple_cases)
  have "pad_loop 2 0 4 [p, q, r, s] = [p, q, CHR ''='', CHR ''='']"
    by (simp add: numeral_2_eq_2 numeral_3_eq_3)
  then show ?thesis by (simp add: base64_encode_def mod_table_def e)
qed

lemma base64_encode_2:
  "base64_encode [a, b] = take 3 (encode_triple (octet a) (octet b) 0) @ ''=''"
proof -
  obtain p q r s where e: "encode_triple (octet a) (octet b) 0 = [p, q, r, s]"
    by (rule encode_triple_cases)
  have "pad_loop 1 0 4 [p, q, r, s] = [p, q, r, CHR ''='']"
    by (simp add: numeral_3_eq_3)
  then show ?thesis by (simp add: base64_encode_def mod_table_def e)
qed

lemma length_encode_triple [simp]: "length (encode_triple a b c) = 4"
  by (simp add: encode_triple_def Let_def)

lemma length_encode_loop: "length (encode_loop data) = 4 * ((length data + 2) div 3)"
proof (induction data rule: encode_loop.induct)
  case (4 a b c data)
  have "length (a # b # c # data) + 2 = 3 + (length data + 2)" by simp
  then have "(length (a # b # c # data) + 2) div 3 = 1 + (length data + 2) div 3"
    by (metis div_add_self1 zero_neq_numeral add.commute)
  then show ?case using 4 by simp
qed simp_all

lemma pad_loop_shift:
  "i + k \<le> n \<Longrightarrow> pad_loop k i (n + length p) (p @ e) = p @ pad_loop k i n e"
  by (induction k i n e rule: pad_loop.induct) (auto simp: list_update_append)

lemma length_pad_loop [simp]: "length (pad_loop k i n e) = length e"
  by (induction k i n e rule: pad_loop.induct) auto

lemma base64_encode_3:
  "base64_encode (a # b # c # data) =
     encode_triple (octet a) (octet b) (octet c) @ base64_encode data"
proof -
  let ?k = "mod_table ! (length data mod 3)" and ?n = "4 * ((length data + 2) div 3)"
  have m: "length (a # b # c # data) mod 3 = length data mod 3" by simp
  have n: "4 * ((length (a # b # c # data) + 2) div 3) = ?n + 4"
    using length_encode_loop [of "a # b # c # data"] length_encode_loop [of data] by simp
  have "length data mod 3 = 0 \<or> length data mod 3 = 1 \<or> length data mod 3 = 2" by linarith
  moreover have "length data mod 3 \<noteq> 0 \<Longrightarrow> 4 \<le> ?n"
  proof -
    assume "length data mod 3 \<noteq> 0"
    then have "0 < length data" by (cases data) auto
    then have "3 \<le> length data + 2" by linarith
    then show "4 \<le> ?n" by (simp add: div_greater_zero_iff Suc_le_eq)
  qed
  ultimately have "?k \<le> ?n" by (auto simp: mod_table_def)
  then show ?thesis
    using pad_loop_shift [of 0 ?k ?n "encode_triple (octet a) (octet b) (octet c)" "encode_loop data"]
    unfolding base64_encode_def m n by (simp add: Let_def)
qed

lemma length_base64_encode: "length (base64_encode data) = 4 * ((length data + 2) div 3)"
  by (simp add: base64_encode_def length_encode_loop Let_def)

section \<open>Round trip\<close>

abbreviation the_table :: "(char \<Rightarrow> char) \<Rightarrow> char \<Rightarrow> char" where
  "the_table junk \<equiv> build_decoding_table junk"

lemma encode_triple_padded:
  "take 2 (encode_triple a b c) = (let t = triple_of a b c in
     [encoding_table ! unat (drop_bit 18 t AND 0x3F), encoding_table ! unat (drop_bit 12 t AND 0x3F)])"
  "take 3 (encode_triple a b c) = (let t = triple_of a b c in
     [encoding_table ! unat (drop_bit 18 t AND 0x3F), encoding_table ! unat (drop_bit 12 t AND 0x3F),
      encoding_table ! unat (drop_bit 6 t AND 0x3F)])"
  by (simp_all add: encode_triple_eq Let_def numeral_2_eq_2 numeral_3_eq_3)

lemma decode_full_group:
  "decode_loop (the_table junk) (encode_triple (octet a) (octet b) (octet c) @ data) (Suc (Suc (Suc room)))
   = and_then (decode_loop (the_table junk) data room) (\<lambda>rest. Inr (a # b # c # rest))"
  using decode_quad_sextets [of "octet a" "octet b" "octet c"]
  by (simp only: encode_triple_eq Let_def append.simps decode_loop.simps sextet_and_3F and_then_Inr)
     (simp only: char_of_octet unat_octet_less if_True simp_thms, simp)

lemma char_of_zero: "char_of (0 :: nat) = NUL"
  by (simp add: NUL_def char_of_def)

lemma decode_pad_1:
  "decode_loop (the_table junk) (base64_encode [a]) 1 = Inr [a]"
proof -
  let ?t = "triple_of (octet a) 0 0"
  have z: "?t AND 0x3F = 0" "drop_bit 6 ?t AND 0x3F = 0"
    using pad_sextets_zero [of "octet a" 0] by (simp_all del: One_nat_def)
  have q: "decode_quad (drop_bit 18 ?t AND 0x3F) (drop_bit 12 ?t AND 0x3F) 0 0 = [a, NUL, NUL]"
    using decode_quad_sextets [of "octet a" 0 0] unfolding z by (simp add: char_of_zero)
  show ?thesis
    by (simp only: base64_encode_1 encode_triple_padded Let_def append.simps decode_loop.simps
        sextet_and_3F sextet_pad and_then_Inr q) simp
qed

lemma decode_pad_2:
  "decode_loop (the_table junk) (base64_encode [a, b]) 2 = Inr [a, b]"
proof -
  let ?t = "triple_of (octet a) (octet b) 0"
  have z: "?t AND 0x3F = 0"
    using pad_sextets_zero(1) [of "octet a" "octet b"] by simp
  have q: "decode_quad (drop_bit 18 ?t AND 0x3F) (drop_bit 12 ?t AND 0x3F) (drop_bit 6 ?t AND 0x3F) 0
      = [a, b, NUL]"
    using decode_quad_sextets [of "octet a" "octet b" 0] unfolding z by (simp add: char_of_zero)
  show ?thesis
    by (simp only: base64_encode_2 encode_triple_padded Let_def append.simps decode_loop.simps
        sextet_and_3F sextet_pad and_then_Inr q) simp
qed

lemma decode_loop_encode:
  "decode_loop (the_table junk) (base64_encode data) (length data) = Inr data"
proof (induction data rule: encode_loop.induct)
  case (2 a)
  then show ?case using decode_pad_1 by simp
next
  case (3 a b)
  then show ?case using decode_pad_2 [of junk a b] by (simp add: numeral_2_eq_2)
next
  case (4 a b c data)
  then show ?case by (simp add: base64_encode_3 decode_full_group)
qed (simp add: base64_encode_Nil)

text \<open>The padding tells the length of the data.\<close>

lemma not_pad: "encoding_table ! unat (w AND 0x3F :: u32) \<noteq> CHR ''=''"
proof -
  have "unat (w AND 0x3F) < 64" by (simp only: unat_and_3F mod_less_divisor zero_less_numeral)
  then show ?thesis using encoding_table_char by blast
qed

lemma groups_of: "n = 3 * k + r \<Longrightarrow> r < 3 \<Longrightarrow> (n + 2) div 3 * 3 = (if r = 0 then n else n + (3 - r))"
  for n k r :: nat
proof -
  assume "n = 3 * k + r" "r < 3"
  moreover from this have "r = 0 \<or> r = 1 \<or> r = 2" by linarith
  ultimately show ?thesis by auto
qed

lemma base64_encode_tail:
  "data \<noteq> [] \<Longrightarrow> \<exists>xs p q. base64_encode data = xs @ [p, q]
     \<and> (p = CHR ''='' \<longleftrightarrow> length data mod 3 = 1) \<and> (q = CHR ''='' \<longleftrightarrow> length data mod 3 \<noteq> 0)"
proof (induction data rule: encode_loop.induct)
  case (2 a)
  have "base64_encode [a] = take 2 (encode_triple (octet a) 0 0) @ [CHR ''='', CHR ''='']"
    by (simp add: base64_encode_1)
  then show ?case by force
next
  case (3 a b)
  let ?t = "triple_of (octet a) (octet b) 0"
  have "base64_encode [a, b] = take 2 (encode_triple (octet a) (octet b) 0)
      @ [encoding_table ! unat (drop_bit 6 ?t AND 0x3F), CHR ''='']"
    by (simp add: base64_encode_2 encode_triple_padded Let_def)
  moreover have "encoding_table ! unat (drop_bit 6 ?t AND 0x3F) \<noteq> CHR ''=''"
    by (rule not_pad)
  ultimately show ?case by force
next
  case (4 a b c data)
  show ?case
  proof (cases "data = []")
    case True
    let ?t = "triple_of (octet a) (octet b) (octet c)"
    have "base64_encode [a, b, c] = take 2 (encode_triple (octet a) (octet b) (octet c))
      @ [encoding_table ! unat (drop_bit 6 ?t AND 0x3F), encoding_table ! unat (?t AND 0x3F)]"
      by (simp add: base64_encode_3 base64_encode_Nil encode_triple_padded encode_triple_eq Let_def)
    moreover have "encoding_table ! unat (w AND 0x3F) \<noteq> CHR ''=''" for w :: u32
      by (rule not_pad)
    ultimately show ?thesis unfolding True by force
  next
    case False
    then obtain xs p q where "base64_encode data = xs @ [p, q]"
      "(p = CHR ''='' \<longleftrightarrow> length data mod 3 = 1)" "(q = CHR ''='' \<longleftrightarrow> length data mod 3 \<noteq> 0)"
      using 4 by blast
    then show ?thesis
      by (intro exI [of _ "encode_triple (octet a) (octet b) (octet c) @ xs"] exI [of _ p] exI [of _ q])
         (simp add: base64_encode_3)
  qed
qed simp

lemma decode_encode:
  assumes "data \<noteq> []"
  shows "base64_decode junk (base64_encode data) = Inr (Some data)"
proof -
  obtain xs p q where e: "base64_encode data = xs @ [p, q]"
    and p: "p = CHR ''='' \<longleftrightarrow> length data mod 3 = 1" and q: "q = CHR ''='' \<longleftrightarrow> length data mod 3 \<noteq> 0"
    using base64_encode_tail [OF assms] by blast
  let ?g = "(length data + 2) div 3"
  have len: "length xs + 2 = 4 * ?g" using length_base64_encode [of data] e by simp
  have at: "base64_encode data ! (length (base64_encode data) - 1) = q"
    "base64_encode data ! (length (base64_encode data) - 2) = p"
    by (simp_all add: e nth_append)
  have n: "length (base64_encode data) = 4 * ?g" by (rule length_base64_encode)
  have g: "0 < ?g" using len by (cases ?g) auto
  have room: "(if p = CHR ''='' then (if q = CHR ''='' then ?g * 3 - 1 else ?g * 3) - 1
      else (if q = CHR ''='' then ?g * 3 - 1 else ?g * 3)) = length data"
  proof -
    obtain k r where r: "length data = 3 * k + r" "r < 3" "length data mod 3 = r"
      by (metis mod_less_divisor mult_div_mod_eq zero_less_numeral)
    then show ?thesis unfolding p q groups_of [OF r(1,2)] r(3) by auto
  qed
  have "(4 * ?g) mod 4 = 0" "(4 * ?g) div 4 = ?g" by simp_all
  then show ?thesis using g room decode_loop_encode [of junk data]
    unfolding base64_decode_def Let_def at unfolding n
    by (cases "p = CHR ''=''"; cases "q = CHR ''=''"; simp)
qed

section \<open>Properties\<close>

text \<open>
  C16. Base64 round trip: decoding the encoding of any non-empty data gives the data back, whatever
  the uninitialised entries of the decoding table hold.
\<close>

theorem base64_roundtrip:
  assumes "data \<noteq> []"
  shows "base64_decode junk (base64_encode data) = Inr (Some data)"
  using assms by (rule decode_encode)

theorem base64_roundtrip_witness:
  "base64_encode ''Ma'' = ''TWE='' \<and> base64_decode (\<lambda>c. c) ''TWE='' = Inr (Some ''Ma'')"
proof -
  have "base64_encode ''Ma'' = ''TWE=''" by code_simp
  then show ?thesis using base64_roundtrip [of "''Ma''" "\<lambda>c. c"] by simp
qed

end
