(* ===== verification/User_Controller.thy ===== *)
theory User_Controller
  imports User_Model Http_Request Base64
begin

text \<open>
  Authentication (\<open>get_user_from_request\<close> of \<open>src/http/helper/helper.c\<close>) and the handlers of
  \<open>src/http/controller/user_controller.c\<close>.
\<close>

section \<open>Authentication\<close>

text \<open>
  \<open>token_size\<close> is the size of the caller's \<open>token\<close> array, None when the caller passes NULL. The
  second component of the result is the token copied into it.
\<close>

definition get_user_from_request ::
  "env \<Rightarrow> http_request \<Rightarrow> nat option \<Rightarrow> (user option \<times> string) act" where
  "get_user_from_request e request token_size =
     bind (lift (request_field (slk e) (header_fields request) ''Authorization'')) (\<lambda>auth_header.
     case auth_header of
       None \<Rightarrow> ret (None, [])
     | Some auth_header \<Rightarrow>
         let (token_type, r) = strtok '' '' auth_header
         in bind (deref_act token_type) (\<lambda>token_type.
            if strcmp token_type ''Basic'' \<noteq> 0 then ret (None, [])
            else case fst (strtok [] r) of
              None \<Rightarrow> ret (None, [])
            | Some token_value \<Rightarrow>
                bind (lift (base64_decode (table_junk e) token_value)) (\<lambda>decoded.
                case decoded of
                  None \<Rightarrow> ret (None, [])
                | Some decoded \<Rightarrow>
                    let decoded_token = takeWhile (\<lambda>c. c \<noteq> NUL) decoded
                    in bind (lift (case token_size of
                                     None \<Rightarrow> Inr [] | Some n \<Rightarrow> sprintf n decoded_token)) (\<lambda>token.
                       bind (session_find_by_token e decoded_token) (\<lambda>session.
                       case session of
                         None \<Rightarrow> ret (None, token)
                       | Some session \<Rightarrow>
                           bind (is_expired e session) (\<lambda>expired.
                           if expired
                           then bind (delete_session e session) (\<lambda>_. ret (None, token))
                           else bind (get_user e session) (\<lambda>user.
                                bind (deref_act user) (\<lambda>user. ret (Some user, token))))))))) "

section \<open>Handlers\<close>

definition json_type :: string where
  "json_type = ''application/json''"

definition ok_json :: "string \<Rightarrow> string act" where
  "ok_json content = lift (format_200_with_content_type content json_type)"

definition TOKEN_LENGTH :: nat where "TOKEN_LENGTH = 64"

definition token_json :: "string \<Rightarrow> string" where
  "token_json encoded_token = ''{'' @ quoted ''token'' @ '': '' @ quoted encoded_token @ ''}''"

text \<open>
  64 bytes of the token are encoded; a shorter token is read past its end. The result of
  \<open>session->save\<close> is not looked at.
\<close>

definition login :: "env \<Rightarrow> http_request \<Rightarrow> string act" where
  "login e request =
     bind (lift (request_field (slk e) (req_body request) ''username'')) (\<lambda>un.
     bind (lift (request_field (slk e) (req_body request) ''password'')) (\<lambda>pw.
     if un = None \<or> pw = None then ret format_422
     else
       bind (user_find_by_username e (the un)) (\<lambda>user.
       case user of
         None \<Rightarrow> ret format_401
       | Some user \<Rightarrow>
           if strcmp (password user) (the pw) \<noteq> 0 then ret format_401
           else
             bind (save_session e (session_new (uid user) None)) (\<lambda>(res, session).
             bind (deref_act (ss_token session)) (\<lambda>token.
             if length token + 1 < TOKEN_LENGTH then lift (Inl Out_Of_Bounds)
             else
               let encoded_token = base64_encode (take TOKEN_LENGTH (token @ [NUL]))
               in bind (lift (sprintf_malloc e 100 (token_json encoded_token))) ok_json)))))"

definition register_user :: "env \<Rightarrow> http_request \<Rightarrow> string act" where
  "register_user e request =
     bind (lift (request_field (slk e) (req_body request) ''username'')) (\<lambda>un.
     bind (lift (request_field (slk e) (req_body request) ''password'')) (\<lambda>pw.
     bind (lift (request_field (slk e) (req_body request) ''display_name'')) (\<lambda>dn.
     if un = None \<or> pw = None \<or> dn = None then ret format_422
     else
       bind (user_find_by_username e (the un)) (\<lambda>user.
       if user \<noteq> None then ret format_409
       else
         bind (lift (user_new (the dn) (the un) (the pw))) (\<lambda>user.
         bind (save_user e user) (\<lambda>(res, user).
         if res \<noteq> 0 then ret format_500 else ret format_200))))))"

definition get_me_info :: "env \<Rightarrow> http_request \<Rightarrow> string act" where
  "get_me_info e request =
     bind (get_user_from_request e request None) (\<lambda>(user, _).
     case user of
       None \<Rightarrow> ret format_401
     | Some user \<Rightarrow> bind (lift (json_user e user)) ok_json)"

definition get_user_info :: "env \<Rightarrow> http_request \<Rightarrow> string act" where
  "get_user_info e request =
     bind (lift (request_field (slk e) (req_query request) ''user_id'')) (\<lambda>user_id.
     case user_id of
       None \<Rightarrow> ret format_422
     | Some user_id \<Rightarrow>
         bind (user_find_by_id e (atoi user_id)) (\<lambda>user.
         case user of
           None \<Rightarrow> ret format_404
         | Some user \<Rightarrow> bind (lift (json_user e user)) ok_json))"

definition logout :: "env \<Rightarrow> http_request \<Rightarrow> string act" where
  "logout e request =
     bind (get_user_from_request e request (Some 100)) (\<lambda>(user, token).
     if user = None then ret format_401
     else
       bind (session_find_by_token e token) (\<lambda>session.
       case session of
         None \<Rightarrow> ret format_401
       | Some session \<Rightarrow>
           bind (delete_session e session) (\<lambda>res.
           if res \<noteq> 0 then ret format_500 else ret format_200)))"

section \<open>The handlers keep the schema\<close>

lemma keeps_auth_schema [keep_rules]: "keeps schema_ok (get_user_from_request e request n)"
  unfolding get_user_from_request_def Let_def by (intro keep_rules)+

text \<open>The expiry test is never true, so authentication does not change the tables.\<close>

lemma never_expired: "is_expired e x = ret False"
  by (simp add: is_expired_def ret_def fun_eq_iff split: option.split)

lemma bind_ret: "bind (ret x) k = k x"
  by (simp add: bind_def ret_def fun_eq_iff)

lemma keeps_auth_tables [keep_rules]: "keeps (tables_are d) (get_user_from_request e request n)"
  unfolding get_user_from_request_def Let_def never_expired bind_ret if_False
  by (intro keep_rules)+

lemmas auth_frame [frame_dests] = keeps_tablesD [OF keeps_auth_tables]

lemma ok_json_Inr: "ok_json c s = Inr (r, s') \<Longrightarrow> s' = s"
  by (auto simp: ok_json_def lift_Inr)

lemma keeps_ok_json [keep_rules]: "keeps P (ok_json c)"
  unfolding ok_json_def by (rule keep_rules)

lemma keeps_user_controller [keep_rules]:
  "keeps schema_ok (login e request)" "keeps schema_ok (register_user e request)"
  "keeps schema_ok (get_me_info e request)" "keeps schema_ok (get_user_info e request)"
  "keeps schema_ok (logout e request)"
  unfolding login_def register_user_def get_me_info_def get_user_info_def logout_def Let_def
  by (intro keep_rules)+

lemma reads_user_controller [keep_rules]:
  "keeps (tables_are d) (get_me_info e request)" "keeps (tables_are d) (get_user_info e request)"
  unfolding get_me_info_def get_user_info_def by (intro keep_rules)+

section \<open>Sessions and users as the lookups return them\<close>

text \<open>A row that fits \<open>struct User\<close>.\<close>

definition user_fits :: "user \<Rightarrow> bool" where
  "user_fits u \<longleftrightarrow> length (display_name u) < 255 \<and> length (username u) < 50 \<and> length (password u) < 50
     \<and> 0 < uid u \<and> uid u < 2 ^ 31 \<and> - (2 ^ 31) \<le> ustatus u \<and> ustatus u < 2 ^ 31"

lemma find_user_callback_ok: "user_fits u \<Longrightarrow> find_user_callback u = Inr u"
  by (simp add: find_user_callback_def user_new_def sprintf_def user_fits_def int32_id)

lemma find_user_callback_Inr:
  "find_user_callback r = Inr u \<Longrightarrow>
   uid u = int32 (uid r) \<and> username u = username r \<and> password u = password r \<and> display_name u = display_name r"
  by (auto simp: find_user_callback_def user_new_def sprintf_def run_simps split: if_splits)

text \<open>Every text of a 31-bit number fits the block for numbers.\<close>

definition numbers_fit :: "env \<Rightarrow> bool" where
  "numbers_fit e \<longleftrightarrow> 10 < usable e 10"

lemma bind_long_small:
  assumes "numbers_fit e" and "0 \<le> i" and "i < 2 ^ 31"
  shows "bind_long e i = Inr i"
proof -
  have "nat i < 10 ^ 10" using assms(3) by simp
  then have "length (show_int i) \<le> 10"
    using length_show_nat_le [of "nat i" 10] assms(2) by (simp add: show_int_def)
  then show ?thesis using assms(1) by (intro bind_long_eq) (simp add: numbers_fit_def)
qed

lemma find_by_id_ok:
  assumes "db_wf (db s)" and "u \<in> set (users (db s))" and "user_fits u" and "numbers_fit e"
    and "\<not> db_fails e (db_calls s)"
  shows "user_find_by_id e (uid u) s = Inr (Some u, s\<lparr>db_calls := db_calls s + 1\<rparr>)"
proof -
  have b: "bind_long e (uid u) = Inr (uid u)"
    using assms(3,4) by (intro bind_long_small) (simp_all add: user_fits_def)
  have "filter (\<lambda>r. uid r = uid u) (users (db s)) = [u]"
    using assms(1,2) by (intro filter_unique) (auto simp: db_wf_defs fresh_ids_def)
  then show ?thesis using find_one_unique [OF assms(5)] find_user_callback_ok [OF assms(3)]
    by (simp add: user_find_by_id_def bind_def lift_def b)
qed

lemma find_by_username_ok:
  assumes "db_wf (db s)" and "u \<in> set (users (db s))" and "user_fits u"
    and "\<not> db_fails e (db_calls s)"
  shows "user_find_by_username e (username u) s = Inr (Some u, s\<lparr>db_calls := db_calls s + 1\<rparr>)"
proof -
  have "filter (\<lambda>r. username r = username u) (users (db s)) = [u]"
    using assms(1,2) by (intro filter_unique) (auto simp: db_wf_defs)
  then show ?thesis using find_one_unique [OF assms(4)] find_user_callback_ok [OF assms(3)]
    by (simp add: user_find_by_username_def)
qed

lemma find_by_token_ok:
  assumes "db_wf (db s)" and "x \<in> set (sessions (db s))" and "\<not> db_fails e (db_calls s)"
  shows "\<exists>y. session_find_by_token e (stoken x) s = Inr (Some y, s\<lparr>db_calls := db_calls s + 1\<rparr>)
    \<and> ss_user y = int32 (suser x) \<and> ss_id y = int32 (sid x)"
proof -
  have "filter (\<lambda>r. stoken r = stoken x) (sessions (db s)) = [x]"
    using assms(1,2) by (intro filter_unique) (auto simp: db_wf_defs)
  then show ?thesis
    using find_one_unique [OF assms(3), of "\<lambda>d. filter (\<lambda>r. stoken r = stoken x) (sessions d)" x
        find_session_callback]
    by (simp add: session_find_by_token_def find_session_callback_def session_new_def)
qed

section \<open>Authentication is sound and complete\<close>

definition basic_header :: "string \<Rightarrow> string" where
  "basic_header token = ''Basic '' @ base64_encode token"

lemma strtok_basic:
  assumes "token \<noteq> []"
  shows "strtok '' '' (basic_header token) = (Some ''Basic'', base64_encode token)"
    and "strtok [] (base64_encode token) = (Some (base64_encode token), [])"
proof -
  have "strtok '' '' (''Basic'' @ CHR '' '' # base64_encode token) = (Some ''Basic'', base64_encode token)"
    by (rule strtok_token_delim) auto
  then show "strtok '' '' (basic_header token) = (Some ''Basic'', base64_encode token)"
    by (simp add: basic_header_def)
  have "base64_encode token \<noteq> []"
    using base64_encode_tail [OF assms] by auto
  then show "strtok [] (base64_encode token) = (Some (base64_encode token), [])"
    by (simp add: strtok_empty_delims)
qed

lemma takeWhile_nul_free: "nul_free t \<Longrightarrow> takeWhile (\<lambda>c. c \<noteq> NUL) t = t"
  by (intro takeWhile_all) (auto simp: nul_free_def)

lemma auth_complete:
  assumes "request_field (slk e) (header_fields request) ''Authorization'' = Inr (Some (basic_header token))"
    and "nul_free token" and "token \<noteq> []"
    and "db_wf (db s)" and "x \<in> set (sessions (db s))" and "stoken x = token"
    and "u \<in> set (users (db s))" and "suser x = uid u" and "user_fits u" and "numbers_fit e"
    and "\<not> db_fails e (db_calls s)" and "\<not> db_fails e (db_calls s + 1)"
    and "n = None \<or> (\<exists>k. n = Some k \<and> length token < k)"
  shows "\<exists>t. get_user_from_request e request n s = Inr ((Some u, t), s\<lparr>db_calls := db_calls s + 2\<rparr>)
    \<and> (n \<noteq> None \<longrightarrow> t = token)"
proof -
  have d: "base64_decode (table_junk e) (base64_encode token) = Inr (Some token)"
    using assms(3) by (rule decode_encode)
  obtain y where y: "session_find_by_token e token s = Inr (Some y, s\<lparr>db_calls := db_calls s + 1\<rparr>)"
    "ss_user y = int32 (suser x)"
    using find_by_token_ok [OF assms(4,5,11)] assms(6) by auto
  have "ss_user y = uid u" using y(2) assms(8,9) by (simp add: user_fits_def int32_id)
  then have g: "get_user e y (s\<lparr>db_calls := db_calls s + 1\<rparr>) = Inr (Some u, s\<lparr>db_calls := db_calls s + 2\<rparr>)"
    using find_by_id_ok [of "s\<lparr>db_calls := db_calls s + 1\<rparr>" u e] assms(4,7,9,10,12)
    by (simp add: get_user_def)
  have b: "(case n of None \<Rightarrow> Inr [] | Some k \<Rightarrow> sprintf k token)
      = Inr (if n = None then [] else token)"
    using assms(13) by (auto simp: sprintf_def split: option.split)
  show ?thesis using y(1) g
    by (simp add: get_user_from_request_def bind_def lift_def ret_def deref_act_def assms(1)
        strtok_basic [OF assms(3)] d takeWhile_nul_free [OF assms(2)] b never_expired)
qed

text \<open>
  What authentication promises: the token the request presents, and the users it may act for. The
  header is \<open>Basic\<close> followed by the token in Base64; a user may act if one of its sessions has the
  token.
\<close>

definition presented_token :: "env \<Rightarrow> http_request \<Rightarrow> string \<Rightarrow> bool" where
  "presented_token e request token \<longleftrightarrow>
     (\<exists>h rest v decoded.
        request_field (slk e) (header_fields request) ''Authorization'' = Inr (Some h)
      \<and> strtok '' '' h = (Some ''Basic'', rest) \<and> fst (strtok [] rest) = Some v
      \<and> base64_decode (table_junk e) v = Inr (Some decoded) \<and> token = takeWhile (\<lambda>c. c \<noteq> NUL) decoded)"

definition bearer :: "env \<Rightarrow> http_request \<Rightarrow> user \<Rightarrow> db \<Rightarrow> bool" where
  "bearer e request u d \<longleftrightarrow>
     (\<exists>x r. x \<in> set (sessions d) \<and> presented_token e request (stoken x) \<and> r \<in> set (users d)
        \<and> uid r = int32 (suser x) \<and> uid u = uid r \<and> username u = username r)"

text \<open>The path through \<open>get_user_from_request\<close> that finds a user.\<close>

lemma auth_path:
  assumes "get_user_from_request e request n s = Inr ((Some u, t), s')"
  shows "\<exists>token s1 y s2. presented_token e request token
    \<and> session_find_by_token e token s1 = Inr (Some y, s2) \<and> get_user e y s2 = Inr (Some u, s')
    \<and> db s1 = db s \<and> (n \<noteq> None \<longrightarrow> t = token)"
  using assms unfolding get_user_from_request_def never_expired bind_ret Let_def if_False presented_token_def
  by (elim bindE) (auto simp: ret_Inr lift_Inr deref_act_Inr sprintf_def elim!: bindE
      split: option.split_asm prod.split_asm if_split_asm, force+)

lemma session_row:
  assumes "session_find_by_token e token s = Inr (Some y, s')"
  shows "db s' = db s \<and> (\<exists>x \<in> set (sessions (db s)). stoken x = token \<and> ss_user y = int32 (suser x)
    \<and> ss_id y = int32 (sid x))"
  using find_one_SomeD [OF assms [unfolded session_find_by_token_def]]
  by (auto simp: find_session_callback_def session_new_def)

lemma user_row:
  assumes "user_find_by_id e i s = Inr (Some u, s')"
  shows "db s' = db s \<and> (\<exists>r \<in> set (users (db s)). uid r = i \<and> uid u = int32 i \<and> username u = username r)"
proof -
  obtain k where k: "bind_long e i = Inr k"
    "find_one e (\<lambda>d. filter (\<lambda>r. uid r = k) (users d)) find_user_callback s = Inr (Some u, s')"
    using assms by (auto simp: user_find_by_id_def act_Inr)
  then show ?thesis using find_one_SomeD [OF k(2)] bind_long_Inr [OF k(1)]
    by (auto dest: find_user_callback_Inr)
qed

text \<open>Nobody is authenticated without a session of theirs.\<close>

lemma auth_sound:
  assumes "get_user_from_request e request n s = Inr ((Some u, t), s')"
  shows "db s' = db s \<and> bearer e request u (db s) \<and> (n \<noteq> None \<longrightarrow> presented_token e request t)"
proof -
  obtain token s1 y s2 where p: "presented_token e request token"
    "session_find_by_token e token s1 = Inr (Some y, s2)" "get_user e y s2 = Inr (Some u, s')"
    "db s1 = db s" "n \<noteq> None \<longrightarrow> t = token"
    using auth_path [OF assms] by blast
  obtain x where x: "db s2 = db s1" "x \<in> set (sessions (db s))" "stoken x = token" "ss_user y = int32 (suser x)"
    using session_row [OF p(2)] p(4) by auto
  obtain r where r: "db s' = db s2" "r \<in> set (users (db s2))" "uid r = int32 (suser x)" "uid u = uid r"
    "username u = username r"
    using user_row [OF p(3) [unfolded get_user_def]] x(4) by (auto simp: int32_idem)
  have "bearer e request u (db s)"
    unfolding bearer_def using x r p(1,4) by (intro exI [of _ x] exI [of _ r]) simp
  then show ?thesis using p x(1) r(1) by simp
qed

section \<open>Logging in\<close>

lemma save_session_ok:
  assumes "db_wf (db s)" and "numbers_fit e" and "has_user (db s) i" and "0 \<le> i" and "i < 2 ^ 31"
    and "next_session (db s) < 2 ^ 31"
    and "random_hex e (db_calls s) 32 \<notin> stoken ` set (sessions (db s))"
    and "\<not> db_fails e (db_calls s)" and "\<not> db_fails e (db_calls s + 1)"
  shows "\<exists>y s'. save_session e (session_new i None) s = Inr ((0, y), s')
    \<and> ss_token y = Some (random_hex e (db_calls s) 32) \<and> db_calls s' = db_calls s + 2
    \<and> insert_session i (random_hex e (db_calls s) 32) (clock e (db_calls s)) (db s) = Some (db s')"
proof -
  let ?t = "random_hex e (db_calls s) 32" and ?now = "clock e (db_calls s)" and ?k = "next_session (db s)"
  have k: "0 < ?k" "?k \<notin> sid ` set (sessions (db s))"
    using assms(1) by (auto simp: db_wf_defs fresh_ids_def)
  let ?row = "\<lparr>sid = ?k, suser = i, stoken = ?t, screated = ?now\<rparr>"
  let ?d = "(db s)\<lparr>sessions := sessions (db s) @ [?row], next_session := ?k + 1, last_rowid := ?k\<rparr>"
  have ins: "insert_session i ?t ?now (db s) = Some ?d" using assms(3,7) by (simp add: insert_session_def)
  have b: "bind_long e i = Inr i" "bind_long e ?k = Inr ?k" "int32 ?k = ?k"
    using assms(2,4-6) k(1) by (simp_all add: bind_long_small int32_id)
  have f: "filter (\<lambda>r. sid r = ?k) (sessions (db s) @ [?row]) = [?row]"
    using k(2) by (auto simp: filter_empty_conv image_iff)
  show ?thesis using assms(8,9) ins f
    by (simp add: save_session_def session_new_def bind_def lift_def b exec_update_def exec_query_def
        last_insert_rowid_def ret_def Let_def)
qed

text \<open>The answer to a login: 101 characters of JSON.\<close>

lemma length_token_json:
  assumes "length token = 64"
  shows "length (token_json (base64_encode token)) = 101"
  using assms by (simp add: token_json_def quoted_def length_base64_encode)

text \<open>What both logins below assume: the right password, and nothing failing.\<close>

definition login_ready :: "env \<Rightarrow> http_request \<Rightarrow> user \<Rightarrow> app \<Rightarrow> bool" where
  "login_ready e request u s \<longleftrightarrow>
     request_field (slk e) (req_body request) ''username'' = Inr (Some (username u))
   \<and> request_field (slk e) (req_body request) ''password'' = Inr (Some (password u))
   \<and> db_wf (db s) \<and> u \<in> set (users (db s)) \<and> user_fits u \<and> numbers_fit e
   \<and> next_session (db s) < 2 ^ 31 \<and> \<not> db_fails e (db_calls s) \<and> \<not> db_fails e (db_calls s + 1)
   \<and> \<not> db_fails e (db_calls s + 2)
   \<and> length (random_hex e (db_calls s + 1) 32) = 64
   \<and> random_hex e (db_calls s + 1) 32 \<notin> stoken ` set (sessions (db s))"

lemma login_eq:
  assumes "login_ready e request u s"
  defines "t \<equiv> random_hex e (db_calls s + 1) 32"
  shows "\<exists>d. insert_session (uid u) t (clock e (db_calls s + 1)) (db s) = Some d \<and>
    login e request s = bind (lift (sprintf_malloc e 100 (token_json (base64_encode t)))) ok_json
      (s\<lparr>db := d, db_calls := db_calls s + 3\<rparr>)"
proof -
  let ?s1 = "s\<lparr>db_calls := db_calls s + 1\<rparr>"
  have f: "user_find_by_username e (username u) s = Inr (Some u, ?s1)"
    using assms(1) by (intro find_by_username_ok) (simp_all add: login_ready_def)
  have "has_user (db s) (uid u)" using assms(1) by (auto simp: login_ready_def has_user_def)
  then obtain y s' where y: "save_session e (session_new (uid u) None) ?s1 = Inr ((0, y), s')"
    "ss_token y = Some t" "db_calls s' = db_calls s + 3"
    "insert_session (uid u) t (clock e (db_calls s + 1)) (db s) = Some (db s')"
    using save_session_ok [of ?s1 e "uid u"] assms unfolding t_def
    by (auto simp: login_ready_def user_fits_def)
  have os: "os_calls s' = os_calls s"
    using y(1) by (auto simp: save_session_def exec_update_def exec_query_def last_insert_rowid_def
        Let_def ret_Inr lift_Inr elim!: bindE split: option.split_asm if_split_asm)
  have "s' = s\<lparr>db := db s', db_calls := db_calls s + 3\<rparr>" using y(3) os by simp
  moreover have "login e request s = bind (lift (sprintf_malloc e 100 (token_json (base64_encode t)))) ok_json s'"
    using assms(1) f y(1,2) unfolding login_ready_def t_def
    by (simp add: login_def bind_def lift_def ret_def deref_act_def TOKEN_LENGTH_def Let_def)
  ultimately show ?thesis using y(4) by auto
qed

lemma login_response:
  assumes "login_ready e request u s"
  defines "t \<equiv> random_hex e (db_calls s + 1) 32"
  shows "\<exists>d. insert_session (uid u) t (clock e (db_calls s + 1)) (db s) = Some d \<and>
    login e request s =
      (if 101 < usable e 100
       then Inr (content_response json_type (show_nat 101) (token_json (base64_encode t)),
                 s\<lparr>db := d, db_calls := db_calls s + 3\<rparr>)
       else Inl Out_Of_Bounds)"
proof -
  have n: "length (token_json (base64_encode t)) = 101"
    using assms by (intro length_token_json) (simp add: login_ready_def)
  have "format_200_with_content_type (token_json (base64_encode t)) json_type
      = Inr (content_response json_type (show_nat 101) (token_json (base64_encode t)))"
    using json_response_fits [of "token_json (base64_encode t)"] n by (simp add: json_type_def)
  then show ?thesis using login_eq [OF assms(1)] n
    by (auto simp: t_def bind_def lift_def sprintf_malloc_def sprintf_def ok_json_def)
qed

end
