(* ===== verification/Group_Controller.thy ===== *)
theory Group_Controller
  imports Group_Model User_Controller
begin

text \<open>
  The handlers of \<open>src/http/controller/group_controller.c\<close>. The keys are passed without their NUL
  except in \<open>join_group\<close>.
\<close>

abbreviation body_bare :: "env \<Rightarrow> http_request \<Rightarrow> string \<Rightarrow> string option act" where
  "body_bare e request key \<equiv> lift (request_field_bare (slk e) (req_body request) key)"

definition create_group :: "env \<Rightarrow> http_request \<Rightarrow> string act" where
  "create_group e request =
     bind (body_bare e request ''name'') (\<lambda>nm.
     bind (body_bare e request ''description'') (\<lambda>description.
     bind (body_bare e request ''avatar'') (\<lambda>avatar.
     case nm of
       None \<Rightarrow> ret format_422
     | Some nm \<Rightarrow>
         bind (get_user_from_request e request None) (\<lambda>(user, _).
         case user of
           None \<Rightarrow> ret format_401
         | Some user \<Rightarrow>
             bind (group_save e (group_new nm description avatar (uid user))) (\<lambda>(res, grp).
             if res \<noteq> 0 then ret format_500
             else bind (lift (group_to_json e grp)) ok_json)))))"

definition update_group :: "env \<Rightarrow> http_request \<Rightarrow> string act" where
  "update_group e request =
     bind (body_bare e request ''code'') (\<lambda>code.
     bind (body_bare e request ''name'') (\<lambda>nm.
     bind (body_bare e request ''description'') (\<lambda>description.
     bind (body_bare e request ''avatar'') (\<lambda>avatar.
     case code of
       None \<Rightarrow> ret format_422
     | Some code \<Rightarrow>
         bind (get_user_from_request e request None) (\<lambda>(user, _).
         case user of
           None \<Rightarrow> ret format_401
         | Some user \<Rightarrow>
             bind (group_find_by_code e code) (\<lambda>grp.
             case grp of
               None \<Rightarrow> ret format_404
             | Some grp \<Rightarrow>
                 if go_owner grp \<noteq> uid user then ret format_403
                 else
                   let grp = (case nm of None \<Rightarrow> grp | Some x \<Rightarrow> grp\<lparr>go_name := x\<rparr>);
                       grp = (case description of None \<Rightarrow> grp | Some x \<Rightarrow> grp\<lparr>go_description := Some x\<rparr>);
                       grp = (case avatar of None \<Rightarrow> grp | Some x \<Rightarrow> grp\<lparr>go_avatar := Some x\<rparr>)
                   in bind (group_update e grp) (\<lambda>res.
                      if res \<noteq> 0 then ret format_500
                      else bind (lift (group_to_json e grp)) ok_json)))))))"

text \<open>
  \<open>members->to_json(members, user->to_json)\<close>: every element is printed into its own block.
\<close>

definition list_json :: "env \<Rightarrow> 'a linked_list option \<Rightarrow> ('a \<Rightarrow> string run) \<Rightarrow> ('a \<Rightarrow> string) \<Rightarrow> string run" where
  "list_json e l to_json json_text =
     and_then (deref l) (\<lambda>l.
     and_then (fold_run (\<lambda>x _. and_then (to_json x) (\<lambda>_. Inr ())) (chain l) ()) (\<lambda>_.
       to_json_ll l json_text))"

definition get_group_members :: "env \<Rightarrow> http_request \<Rightarrow> string act" where
  "get_group_members e request =
     bind (lift (request_field_bare (slk e) (req_query request) ''code'')) (\<lambda>code.
     case code of
       None \<Rightarrow> ret format_422
     | Some code \<Rightarrow>
         bind (get_user_from_request e request None) (\<lambda>(user, _).
         case user of
           None \<Rightarrow> ret format_401
         | Some user \<Rightarrow>
             bind (group_find_by_code e code) (\<lambda>grp.
             case grp of
               None \<Rightarrow> ret format_404
             | Some grp \<Rightarrow>
                 if go_owner grp \<noteq> uid user then ret format_403
                 else
                   bind (group_get_members e grp) (\<lambda>members.
                   bind (lift (list_json e members (json_user e) json_user_text)) ok_json))))"

definition delete_group :: "env \<Rightarrow> http_request \<Rightarrow> string act" where
  "delete_group e request =
     bind (body_bare e request ''code'') (\<lambda>code.
     case code of
       None \<Rightarrow> ret format_422
     | Some code \<Rightarrow>
         bind (get_user_from_request e request None) (\<lambda>(user, _).
         case user of
           None \<Rightarrow> ret format_401
         | Some user \<Rightarrow>
             bind (group_find_by_code e code) (\<lambda>grp.
             case grp of
               None \<Rightarrow> ret format_404
             | Some grp \<Rightarrow>
                 if go_owner grp \<noteq> uid user then ret format_403
                 else
                   bind (group_remove e grp) (\<lambda>res.
                   if res \<noteq> 0 then ret format_500 else ret format_200))))"

definition join_group :: "env \<Rightarrow> http_request \<Rightarrow> string act" where
  "join_group e request =
     bind (lift (request_field (slk e) (req_body request) ''code'')) (\<lambda>code.
     case code of
       None \<Rightarrow> ret format_422
     | Some code \<Rightarrow>
         bind (get_user_from_request e request None) (\<lambda>(user, _).
         case user of
           None \<Rightarrow> ret format_401
         | Some user \<Rightarrow>
             bind (group_find_by_code e code) (\<lambda>grp.
             case grp of
               None \<Rightarrow> ret format_404
             | Some grp \<Rightarrow>
                 bind (group_is_member e grp user) (\<lambda>is_member.
                 if is_member \<noteq> 0 then ret format_403
                 else
                   bind (group_add_member e grp user) (\<lambda>res.
                   if res \<noteq> 0 then ret format_500
                   else bind (lift (group_to_json e grp)) ok_json)))))"

definition leave_group :: "env \<Rightarrow> http_request \<Rightarrow> string act" where
  "leave_group e request =
     bind (body_bare e request ''code'') (\<lambda>code.
     case code of
       None \<Rightarrow> ret format_422
     | Some code \<Rightarrow>
         bind (get_user_from_request e request None) (\<lambda>(user, _).
         case user of
           None \<Rightarrow> ret format_401
         | Some user \<Rightarrow>
             bind (group_find_by_code e code) (\<lambda>grp.
             case grp of
               None \<Rightarrow> ret format_404
             | Some grp \<Rightarrow>
                 bind (group_is_member e grp user) (\<lambda>is_member.
                 if is_member = 0 then ret format_403
                 else
                   bind (group_leave e grp user) (\<lambda>res.
                   if res \<noteq> 0 then ret format_500 else ret format_200)))))"

definition kick_member_group :: "env \<Rightarrow> http_request \<Rightarrow> string act" where
  "kick_member_group e request =
     bind (body_bare e request ''code'') (\<lambda>code.
     bind (body_bare e request ''member_id'') (\<lambda>member_id.
     if code = None \<or> member_id = None then ret format_422
     else
       bind (get_user_from_request e request None) (\<lambda>(user, _).
       case user of
         None \<Rightarrow> ret format_401
       | Some user \<Rightarrow>
           bind (group_find_by_code e (the code)) (\<lambda>grp.
           case grp of
             None \<Rightarrow> ret format_404
           | Some grp \<Rightarrow>
               if go_owner grp \<noteq> uid user then ret format_403
               else
                 bind (user_find_by_id e (atoi (the member_id))) (\<lambda>mem.
                 case mem of
                   None \<Rightarrow> ret format_404
                 | Some mem \<Rightarrow>
                     bind (group_is_member e grp mem) (\<lambda>is_member.
                     if is_member = 0 then ret format_400
                     else
                       bind (group_leave e grp mem) (\<lambda>res.
                       if res \<noteq> 0 then ret format_500 else ret format_200)))))))"

definition get_my_groups :: "env \<Rightarrow> http_request \<Rightarrow> string act" where
  "get_my_groups e request =
     bind (get_user_from_request e request None) (\<lambda>(user, _).
     case user of
       None \<Rightarrow> ret format_401
     | Some user \<Rightarrow>
         bind (group_find_by_member e (uid user)) (\<lambda>gs.
         bind (lift (list_json e gs (group_to_json e) (group_json_text e))) ok_json))"

section \<open>What the handlers keep\<close>

lemmas group_handlers = create_group_def update_group_def get_group_members_def delete_group_def
  join_group_def leave_group_def kick_member_group_def get_my_groups_def

lemma keeps_group_controller [keep_rules]:
  "keeps schema_ok (create_group e request)" "keeps schema_ok (update_group e request)"
  "keeps schema_ok (get_group_members e request)" "keeps schema_ok (delete_group e request)"
  "keeps schema_ok (join_group e request)" "keeps schema_ok (leave_group e request)"
  "keeps schema_ok (kick_member_group e request)" "keeps schema_ok (get_my_groups e request)"
  unfolding group_handlers Let_def by (intro keep_rules)+

lemma reads_group_controller [keep_rules]:
  "keeps (tables_are d) (get_group_members e request)" "keeps (tables_are d) (get_my_groups e request)"
  unfolding group_handlers by (intro keep_rules)+

end
