(* ===== verification/Node_Controller.thy ===== *)
theory Node_Controller
  imports Node_Model Group_Controller
begin

text \<open>
  The handlers of \<open>src/http/controller/directory_controller.c\<close> and
  \<open>src/http/controller/file_controller.c\<close>. The keys are passed with their NUL.
\<close>

abbreviation body_field :: "env \<Rightarrow> http_request \<Rightarrow> string \<Rightarrow> string option act" where
  "body_field e request key \<equiv> lift (request_field (slk e) (req_body request) key)"

abbreviation query_field :: "env \<Rightarrow> http_request \<Rightarrow> string \<Rightarrow> string option act" where
  "query_field e request key \<equiv> lift (request_field (slk e) (req_query request) key)"

section \<open>Directories\<close>

definition make_directory :: "env \<Rightarrow> http_request \<Rightarrow> string act" where
  "make_directory e request =
     bind (body_field e request ''name'') (\<lambda>nm.
     bind (body_field e request ''group_id'') (\<lambda>group_id.
     bind (body_field e request ''parent_id'') (\<lambda>parent_id.
     if nm = None \<or> group_id = None then ret format_422
     else
       bind (group_find_by_id e (atol (the group_id))) (\<lambda>grp.
       case grp of
         None \<Rightarrow> ret format_404
       | Some grp \<Rightarrow>
           bind (case parent_id of
                   None \<Rightarrow> ret True
                 | Some p \<Rightarrow> bind (group_has_directory e grp (atol p)) (\<lambda>r. ret (r = 1))) (\<lambda>parent_ok.
           if \<not> parent_ok then ret format_403
           else
             bind (get_user_from_request e request None) (\<lambda>(user, _).
             case user of
               None \<Rightarrow> ret format_401
             | Some user \<Rightarrow>
                 bind (group_is_member e grp user) (\<lambda>is_member.
                 if is_member \<noteq> 1 then ret format_403
                 else
                   bind (directory_save e (directory_new (the nm) (uid user) (go_id grp)
                           (map_option atol parent_id))) (\<lambda>(res, dir).
                   if res \<noteq> 0 then ret format_500
                   else bind (lift (directory_json e dir)) ok_json))))))))"

definition delete_directory :: "env \<Rightarrow> http_request \<Rightarrow> string act" where
  "delete_directory e request =
     bind (body_field e request ''directory_id'') (\<lambda>i.
     case i of
       None \<Rightarrow> ret format_422
     | Some i \<Rightarrow>
         bind (get_user_from_request e request None) (\<lambda>(user, _).
         case user of
           None \<Rightarrow> ret format_401
         | Some user \<Rightarrow>
             bind (directory_find_by_id e (atol i)) (\<lambda>dir.
             case dir of
               None \<Rightarrow> ret format_404
             | Some dir \<Rightarrow>
                 if do_owner dir \<noteq> uid user then ret format_403
                 else
                   bind (directory_remove e dir) (\<lambda>res.
                   if res \<noteq> 0 then ret format_500 else ret format_200))))"

definition update_directory :: "env \<Rightarrow> http_request \<Rightarrow> string act" where
  "update_directory e request =
     bind (body_field e request ''directory_id'') (\<lambda>i.
     bind (body_field e request ''permission'') (\<lambda>permission.
     if i = None \<or> permission = None then ret format_422
     else
       bind (get_user_from_request e request None) (\<lambda>(user, _).
       case user of
         None \<Rightarrow> ret format_401
       | Some user \<Rightarrow>
           bind (directory_find_by_id e (atol (the i))) (\<lambda>dir.
           case dir of
             None \<Rightarrow> ret format_404
           | Some dir \<Rightarrow>
               if do_owner dir \<noteq> uid user then ret format_403
               else
                 bind (directory_update e (dir\<lparr>do_permission := int32 (atol (the permission))\<rparr>))
                   (\<lambda>(res, dir).
                 if res \<noteq> 0 then ret format_500
                 else bind (lift (directory_json e dir)) ok_json)))))"

definition node_json_text :: "env \<Rightarrow> fnode \<Rightarrow> string" where
  "node_json_text e n =
     (case n of
        FDIRECTORY dir \<Rightarrow>
          ''{'' @ quoted ''node'' @ '':'' @ directory_json_text e dir @ '', '' @ quoted ''type'' @ '': ''
          @ quoted ''directory'' @ ''}''
      | FFILE f \<Rightarrow>
          ''{'' @ quoted ''node'' @ '':'' @ file_json_text e f @ '', '' @ quoted ''type'' @ '': ''
          @ quoted ''file'' @ ''}'')"

definition node_to_json :: "env \<Rightarrow> fnode \<Rightarrow> string run" where
  "node_to_json e n =
     and_then (case n of FDIRECTORY dir \<Rightarrow> directory_json e dir | FFILE f \<Rightarrow> file_to_json e f) (\<lambda>js.
       sprintf_malloc e (length js + 100) (node_json_text e n))"

definition get_directory_children :: "env \<Rightarrow> http_request \<Rightarrow> string act" where
  "get_directory_children e request =
     bind (query_field e request ''directory_id'') (\<lambda>i.
     case i of
       None \<Rightarrow> ret format_422
     | Some i \<Rightarrow>
         bind (get_user_from_request e request None) (\<lambda>(user, _).
         case user of
           None \<Rightarrow> ret format_401
         | Some user \<Rightarrow>
             bind (directory_find_by_id e (atol i)) (\<lambda>dir.
             case dir of
               None \<Rightarrow> ret format_404
             | Some dir \<Rightarrow>
                 bind (directory_get_group e dir) (\<lambda>grp.
                 bind (deref_act grp) (\<lambda>grp.
                 bind (group_is_member e grp user) (\<lambda>is_member.
                 if is_member \<noteq> 1 then ret format_403
                 else
                   bind (directory_get_children e dir) (\<lambda>children.
                   if children = None then ret format_500
                   else bind (lift (list_json e children (node_to_json e) (node_json_text e))) ok_json)))))))"

definition get_group_node_tree :: "env \<Rightarrow> http_request \<Rightarrow> string act" where
  "get_group_node_tree e request =
     bind (query_field e request ''group_id'') (\<lambda>i.
     case i of
       None \<Rightarrow> ret format_422
     | Some i \<Rightarrow>
         bind (get_user_from_request e request None) (\<lambda>(user, _).
         case user of
           None \<Rightarrow> ret format_401
         | Some user \<Rightarrow>
             bind (group_find_by_id e (atol i)) (\<lambda>grp.
             case grp of
               None \<Rightarrow> ret format_404
             | Some grp \<Rightarrow>
                 bind (group_is_member e grp user) (\<lambda>is_member.
                 if is_member \<noteq> 1 then ret format_403
                 else
                   bind (get_root_node_by_group e (go_id grp)) (\<lambda>children.
                   if children = None then ret format_500
                   else bind (lift (list_json e children (node_to_json e) (node_json_text e))) ok_json)))))"

definition get_directory_info :: "env \<Rightarrow> http_request \<Rightarrow> string act" where
  "get_directory_info e request =
     bind (query_field e request ''directory_id'') (\<lambda>i.
     case i of
       None \<Rightarrow> ret format_422
     | Some i \<Rightarrow>
         bind (get_user_from_request e request None) (\<lambda>(user, _).
         case user of
           None \<Rightarrow> ret format_401
         | Some user \<Rightarrow>
             bind (directory_find_by_id e (atol i)) (\<lambda>dir.
             case dir of
               None \<Rightarrow> ret format_404
             | Some dir \<Rightarrow>
                 bind (directory_get_group e dir) (\<lambda>grp.
                 bind (deref_act grp) (\<lambda>grp.
                 bind (group_is_member e grp user) (\<lambda>is_member.
                 if is_member \<noteq> 1 then ret format_403
                 else bind (lift (directory_json e dir)) ok_json))))))"

section \<open>Files\<close>

text \<open>
  When \<open>directory_id\<close> names no directory, \<open>directory_free(NULL)\<close> reads a field of NULL before the
  403 is returned. \<open>has_directory\<close> runs only when the directory exists.
\<close>

definition create_file :: "env \<Rightarrow> http_request \<Rightarrow> string act" where
  "create_file e request =
     bind (body_field e request ''name'') (\<lambda>nm.
     bind (body_field e request ''group_id'') (\<lambda>group_id.
     bind (body_field e request ''directory_id'') (\<lambda>directory_id.
     if nm = None \<or> group_id = None then ret format_422
     else
       bind (get_user_from_request e request None) (\<lambda>(user, _).
       case user of
         None \<Rightarrow> ret format_401
       | Some user \<Rightarrow>
           bind (group_find_by_id e (atol (the group_id))) (\<lambda>grp.
           case grp of
             None \<Rightarrow> ret format_404
           | Some grp \<Rightarrow>
               bind (group_is_member e grp user) (\<lambda>is_member.
               if is_member \<noteq> 1 then ret format_403
               else
                 bind
                   (case directory_id of
                      None \<Rightarrow>
                        bind (lift (sprintf 1024 (shown e (go_code grp) @ ''/'' @ the nm))) (\<lambda>path. ret (Some path))
                    | Some i \<Rightarrow>
                        bind (directory_find_by_id e (atol i)) (\<lambda>dir.
                        bind (deref_act dir) (\<lambda>dir.
                        bind (group_has_directory e grp (atol i)) (\<lambda>has.
                        if has \<noteq> 1 \<or> (do_permission dir = READ \<and> uid user \<noteq> do_owner dir \<and> uid user \<noteq> go_owner grp)
                        then ret None
                        else
                          bind (lift (sprintf 1024 (shown e (do_path dir) @ ''/'' @ the nm))) (\<lambda>path. ret (Some path))))))
                   (\<lambda>path.
                 case path of
                   None \<Rightarrow> ret format_403
                 | Some path \<Rightarrow>
                     bind (file_find_by_name e (the nm) (go_id grp) (map_option atol directory_id)) (\<lambda>f.
                     if f \<noteq> None then ret format_409
                     else
                       bind (lift (sprintf 4096 (''{'' @ quoted ''path'' @ '': '' @ quoted path @ ''}'')))
                         ok_json))))))))"

definition delete_file :: "env \<Rightarrow> http_request \<Rightarrow> string act" where
  "delete_file e request =
     bind (body_field e request ''file_id'') (\<lambda>file_id.
     case file_id of
       None \<Rightarrow> ret format_422
     | Some file_id \<Rightarrow>
         bind (get_user_from_request e request None) (\<lambda>(user, _).
         case user of
           None \<Rightarrow> ret format_401
         | Some user \<Rightarrow>
             bind (file_find_by_id e (atol file_id)) (\<lambda>f.
             case f of
               None \<Rightarrow> ret format_400
             | Some f \<Rightarrow>
                 bind (group_find_by_id e (fo_group f)) (\<lambda>grp.
                 case grp of
                   None \<Rightarrow> ret format_400
                 | Some grp \<Rightarrow>
                     if fo_owner f \<noteq> uid user \<and> go_owner grp \<noteq> uid user then ret format_403
                     else
                       bind (file_remove e f) (\<lambda>res.
                       if res \<noteq> 0 then ret format_500 else ret format_200)))))"

definition update_file :: "env \<Rightarrow> http_request \<Rightarrow> string act" where
  "update_file e request =
     bind (body_field e request ''file_id'') (\<lambda>file_id.
     bind (body_field e request ''size'') (\<lambda>sz.
     bind (body_field e request ''permission'') (\<lambda>permission.
     if file_id = None \<or> (sz = None \<and> permission = None) then ret format_422
     else
       bind (get_user_from_request e request None) (\<lambda>(user, _).
       case user of
         None \<Rightarrow> ret format_401
       | Some user \<Rightarrow>
           bind (file_find_by_id e (atol (the file_id))) (\<lambda>f.
           case f of
             None \<Rightarrow> ret format_400
           | Some f \<Rightarrow>
               bind (group_find_by_id e (fo_group f)) (\<lambda>grp.
               case grp of
                 None \<Rightarrow> ret format_400
               | Some grp \<Rightarrow>
                   bind (group_is_member e grp user) (\<lambda>is_member.
                   if is_member \<noteq> 1
                      \<and> (fo_permission f \<noteq> WRITE \<or> (fo_owner f \<noteq> uid user \<and> go_owner grp \<noteq> uid user))
                   then ret format_403
                   else
                     let f = (case sz of None \<Rightarrow> f | Some x \<Rightarrow> f\<lparr>fo_size := atol x\<rparr>);
                         f = (case permission of None \<Rightarrow> f | Some x \<Rightarrow> f\<lparr>fo_permission := atoi x\<rparr>);
                         f = f\<lparr>fo_modified := uid user\<rparr>
                     in bind (file_update e f) (\<lambda>(res, f).
                        if res \<noteq> 0 then ret format_500
                        else bind (lift (file_to_json e f)) ok_json))))))))"

definition get_file :: "env \<Rightarrow> http_request \<Rightarrow> string act" where
  "get_file e request =
     bind (body_field e request ''file_id'') (\<lambda>file_id.
     case file_id of
       None \<Rightarrow> ret format_422
     | Some file_id \<Rightarrow>
         bind (get_user_from_request e request None) (\<lambda>(user, _).
         case user of
           None \<Rightarrow> ret format_401
         | Some user \<Rightarrow>
             bind (file_find_by_id e (atol file_id)) (\<lambda>f.
             case f of
               None \<Rightarrow> ret format_400
             | Some f \<Rightarrow>
                 bind (group_find_by_id e (fo_group f)) (\<lambda>grp.
                 case grp of
                   None \<Rightarrow> ret format_400
                 | Some grp \<Rightarrow>
                     bind (group_is_member e grp user) (\<lambda>is_member.
                     if is_member \<noteq> 1 then ret format_403
                     else bind (lift (file_to_json e f)) ok_json)))))"

definition save_file :: "env \<Rightarrow> http_request \<Rightarrow> string act" where
  "save_file e request =
     bind (body_field e request ''name'') (\<lambda>nm.
     bind (body_field e request ''size'') (\<lambda>sz.
     bind (body_field e request ''path'') (\<lambda>path.
     bind (body_field e request ''group_id'') (\<lambda>group_id.
     bind (body_field e request ''directory_id'') (\<lambda>directory_id.
     if nm = None \<or> sz = None \<or> path = None \<or> group_id = None then ret format_422
     else
       bind (get_user_from_request e request None) (\<lambda>(user, _).
       case user of
         None \<Rightarrow> ret format_401
       | Some user \<Rightarrow>
           bind (lift (sprintf 1024 (UPLOAD_DIR @ ''/'' @ the path))) (\<lambda>fullpath.
           bind (os_do e (Access fullpath)) (\<lambda>found.
           if \<not> found then ret format_400
           else
             bind (file_save e ((file_new (the nm) (atol (the sz)) (uid user) (atol (the group_id)) None)
                     \<lparr>fo_path := path,
                      fo_directory := (case directory_id of None \<Rightarrow> 0 | Some i \<Rightarrow> atol i)\<rparr>)) (\<lambda>(res, f).
             if res \<noteq> 0 then bind (os_do e (Remove fullpath)) (\<lambda>_. ret format_500)
             else bind (lift (file_to_json e f)) ok_json)))))))))"

section \<open>What the handlers keep\<close>

lemmas directory_handlers = make_directory_def delete_directory_def update_directory_def
  get_directory_children_def get_group_node_tree_def get_directory_info_def

lemmas file_handlers = create_file_def delete_file_def update_file_def get_file_def save_file_def

lemma keeps_directory_controller [keep_rules]:
  "keeps schema_ok (make_directory e request)" "keeps schema_ok (delete_directory e request)"
  "keeps schema_ok (update_directory e request)" "keeps schema_ok (get_directory_children e request)"
  "keeps schema_ok (get_group_node_tree e request)" "keeps schema_ok (get_directory_info e request)"
  unfolding directory_handlers by (intro keep_rules)+

lemma keeps_file_controller [keep_rules]:
  "keeps schema_ok (create_file e request)" "keeps schema_ok (delete_file e request)"
  "keeps schema_ok (update_file e request)" "keeps schema_ok (get_file e request)"
  "keeps schema_ok (save_file e request)"
  unfolding file_handlers Let_def by (intro keep_rules)+

lemma reads_node_controller [keep_rules]:
  "keeps (tables_are d) (get_directory_children e request)"
  "keeps (tables_are d) (get_group_node_tree e request)"
  "keeps (tables_are d) (get_directory_info e request)"
  "keeps (tables_are d) (create_file e request)" "keeps (tables_are d) (get_file e request)"
  unfolding directory_handlers file_handlers by (intro keep_rules)+

end
