(* ===== verification/Handler_Logic.thy ===== *)
theory Handler_Logic
  imports Node_Controller
begin

text \<open>
  A small Hoare logic for actions: \<open>runs d m R\<close> says that \<open>m\<close>, started on the tables \<open>d\<close>, ends (if it
  does not fault) with a value and tables related by \<open>R\<close>. There is one rule per construct and one per
  operation of the model, so that the specification of a handler is derived by walking over its text.
\<close>

definition runs :: "db \<Rightarrow> 'a act \<Rightarrow> ('a \<Rightarrow> db \<Rightarrow> bool) \<Rightarrow> bool" where
  "runs d m R \<longleftrightarrow> (\<forall>s x s'. db s = d \<longrightarrow> m s = Inr (x, s') \<longrightarrow> R x (db s'))"

named_theorems read_rules \<open>what an operation that leaves the tables alone returns\<close>
named_theorems write_rules \<open>what an operation that changes the tables does\<close>
named_theorems walk_rules \<open>the rules for the constructs\<close>

section \<open>Rules for the constructs\<close>

lemma runsD: "runs (db s) m R \<Longrightarrow> m s = Inr (x, s') \<Longrightarrow> R x (db s')"
  unfolding runs_def by blast

lemma runs_bind: "runs d m R \<Longrightarrow> (\<And>x d1. R x d1 \<Longrightarrow> runs d1 (k x) S) \<Longrightarrow> runs d (bind m k) S"
  unfolding runs_def bind_Inr by blast

text \<open>An action that reads: the tables stay and the value satisfies \<open>Q\<close>.\<close>

abbreviation reads :: "db \<Rightarrow> 'a act \<Rightarrow> ('a \<Rightarrow> bool) \<Rightarrow> bool" where
  "reads d m Q \<equiv> runs d m (\<lambda>x d1. d1 = d \<and> Q x)"

lemma bind_read: "reads d m Q \<Longrightarrow> (\<And>x. Q x \<Longrightarrow> runs d (k x) S) \<Longrightarrow> runs d (bind m k) S"
  unfolding runs_def bind_Inr by blast

lemma readsI:
  assumes "keeps (tables_are d) m" and "\<And>s x s'. db s = d \<Longrightarrow> m s = Inr (x, s') \<Longrightarrow> Q x"
  shows "reads d m Q"
  using assms unfolding runs_def keeps_def by blast

lemma reads_keeps: "keeps (tables_are d) m \<Longrightarrow> reads d m (\<lambda>_. True)"
  by (rule readsI) simp_all

lemma reads_lift [read_rules]: "reads d (lift r) (\<lambda>x. r = Inr x)"
  unfolding runs_def lift_Inr by blast

lemma reads_deref [read_rules]: "reads d (deref_act p) (\<lambda>x. p = Some x)"
  unfolding runs_def deref_act_Inr by blast

lemma runs_ret [walk_rules]: "R x d \<Longrightarrow> runs d (ret x) R"
  unfolding runs_def ret_Inr by blast

lemma runs_lift [walk_rules]: "(\<And>x. r = Inr x \<Longrightarrow> R x d) \<Longrightarrow> runs d (lift r) R"
  unfolding runs_def lift_Inr by blast

lemma runs_if [walk_rules]:
  "(c \<Longrightarrow> runs d m R) \<Longrightarrow> (\<not> c \<Longrightarrow> runs d n R) \<Longrightarrow> runs d (if c then m else n) R"
  by simp

lemma runs_option [walk_rules]:
  "(p = None \<Longrightarrow> runs d m R) \<Longrightarrow> (\<And>x. p = Some x \<Longrightarrow> runs d (k x) R) \<Longrightarrow>
   runs d (case p of None \<Rightarrow> m | Some x \<Rightarrow> k x) R"
  by (cases p) auto

lemma runs_prod [walk_rules]:
  "(\<And>x y. p = (x, y) \<Longrightarrow> runs d (k x y) R) \<Longrightarrow> runs d (case p of (x, y) \<Rightarrow> k x y) R"
  by (cases p) auto

text \<open>A branch inside a sequence.\<close>

lemma bind_branch:
  "(c \<Longrightarrow> runs d (bind m k) R) \<Longrightarrow> (\<not> c \<Longrightarrow> runs d (bind n k) R) \<Longrightarrow> runs d (bind (if c then m else n) k) R"
  "(p = None \<Longrightarrow> runs d (bind m k) R) \<Longrightarrow> (\<And>x. p = Some x \<Longrightarrow> runs d (bind (h x) k) R) \<Longrightarrow>
   runs d (bind (case p of None \<Rightarrow> m | Some x \<Rightarrow> h x) k) R"
  by (simp_all split: option.split)

lemma bind_seq: "runs d (bind l (\<lambda>y. bind (h y) k)) R \<Longrightarrow> runs d (bind (bind l h) k) R"
  unfolding runs_def bind_Inr by blast

lemma bind_done: "runs d (k x) R \<Longrightarrow> runs d (bind (ret x) k) R"
  by (simp add: bind_ret)

lemmas bind_rules = bind_branch bind_seq bind_done

text \<open>The rule of consequence.\<close>

lemma runs_weaken: "runs d m R \<Longrightarrow> (\<And>x d1. R x d1 \<Longrightarrow> S x d1) \<Longrightarrow> runs d m S"
  unfolding runs_def by blast

lemma runs_keeps: "keeps (tables_are d) m \<Longrightarrow> (\<And>x. R x d) \<Longrightarrow> runs d m R"
  by (rule runs_weaken [OF reads_keeps]) simp_all

section \<open>Responses\<close>

text \<open>A response of the status 200.\<close>

definition is_ok :: "string \<Rightarrow> bool" where
  "is_ok r \<longleftrightarrow> take 12 r = ''HTTP/1.1 200''"

lemma is_ok_formats [simp]:
  "\<not> is_ok format_400" "\<not> is_ok format_401" "\<not> is_ok format_403" "\<not> is_ok format_404"
  "\<not> is_ok format_409" "\<not> is_ok format_422" "\<not> is_ok format_500" "is_ok format_200"
  by (simp_all add: is_ok_def format_400_def format_401_def format_403_def format_404_def format_409_def
      format_422_def format_500_def format_200_def empty_response_def)

lemma is_ok_json: "format_200_with_content_type c ty = Inr r \<Longrightarrow> is_ok r"
  by (auto simp: format_200_with_content_type_def sprintf_def content_response_def is_ok_def split: if_splits)

lemma runs_ok_json [walk_rules]: "(\<And>r. is_ok r \<Longrightarrow> R r d) \<Longrightarrow> runs d (ok_json c) R"
  unfolding runs_def ok_json_def lift_Inr using is_ok_json by blast

section \<open>What the lookups return\<close>

lemma reads_auth [read_rules]:
  "reads d (get_user_from_request e request n) (\<lambda>(u, t). \<forall>v. u = Some v \<longrightarrow>
     bearer e request v d \<and> (n \<noteq> None \<longrightarrow> presented_token e request t))"
proof (rule readsI)
  fix s x s' assume "db s = d" "get_user_from_request e request n s = Inr (x, s')"
  then show "case x of (u, t) \<Rightarrow> \<forall>v. u = Some v \<longrightarrow>
      bearer e request v d \<and> (n \<noteq> None \<longrightarrow> presented_token e request t)"
    using auth_sound by (cases x) blast
qed (rule keep_rules)

lemma reads_session_by_token [read_rules]:
  "reads d (session_find_by_token e t) (\<lambda>y. \<forall>v. y = Some v \<longrightarrow>
     (\<exists>x \<in> set (sessions d). stoken x = t \<and> ss_id v = int32 (sid x)))"
  by (rule readsI) (auto intro: keep_rules dest!: session_row)

lemma reads_user_by_id [read_rules]:
  "reads d (user_find_by_id e i) (\<lambda>u. \<forall>v. u = Some v \<longrightarrow> (\<exists>r \<in> set (users d). uid r = i) \<and> uid v = int32 i)"
  by (rule readsI) (auto intro: keep_rules dest!: user_row)

lemma reads_user_by_name [read_rules]:
  "reads d (user_find_by_username e un) (\<lambda>u. \<forall>v. u = Some v \<longrightarrow>
     (\<exists>r \<in> set (users d). username r = un \<and> password v = password r \<and> uid v = int32 (uid r)))"
  by (rule readsI)
    (auto simp: user_find_by_username_def intro: keep_rules dest!: find_one_SomeD find_user_callback_Inr)

lemma reads_group_by_code [read_rules]:
  "reads d (group_find_by_code e c) (\<lambda>g. \<forall>x. g = Some x \<longrightarrow>
     (\<exists>r \<in> set (groups d). gcode r = c \<and> group_of_row r x))"
  by (rule readsI) (auto intro: keep_rules dest!: group_find_by_code_SomeD)

lemma reads_group_by_id [read_rules]:
  "reads d (group_find_by_id e i) (\<lambda>g. \<forall>x. g = Some x \<longrightarrow>
     (\<exists>r \<in> set (groups d). gid r = i \<and> group_of_row r x))"
  by (rule readsI) (auto intro: keep_rules dest!: group_find_by_id_SomeD)

lemma member_row: "r \<in> set rs \<Longrightarrow> mgroup r = i \<Longrightarrow> muser r = j \<Longrightarrow> \<lparr>mgroup = i, muser = j\<rparr> \<in> set rs"
  by (cases r) simp

lemma reads_is_member [read_rules]:
  "reads d (group_is_member e g u)
    (\<lambda>r. (r = 1 \<longrightarrow> \<lparr>mgroup = go_id g, muser = uid u\<rparr> \<in> set (group_members d))
       \<and> (r = 0 \<longrightarrow> \<lparr>mgroup = go_id g, muser = uid u\<rparr> \<notin> set (group_members d)))"
proof (rule readsI)
  fix s x s'
  assume s: "db s = d" "group_is_member e g u s = Inr (x, s')"
  obtain i j rs where r: "bind_long e (go_id g) = Inr i" "bind_long e (uid u) = Inr j"
    and q: "exec_query e (\<lambda>d. filter (\<lambda>r. mgroup r = i \<and> muser r = j) (group_members d)) s = Inr (rs, s')"
    and x: "x = (case rs of None \<Rightarrow> -1 | Some rs \<Rightarrow> if rs = [] then 0 else 1)"
    using s(2) by (auto simp: group_is_member_def ret_Inr lift_Inr elim!: bindE split: option.split_asm)
  have "i = go_id g" "j = uid u" using bind_long_Inr r by auto
  moreover have "rs = None \<or> rs = Some (filter (\<lambda>r. mgroup r = i \<and> muser r = j) (group_members d))"
    using q s(1) by (auto simp: exec_query_def Let_def split: if_splits)
  ultimately show "(x = 1 \<longrightarrow> \<lparr>mgroup = go_id g, muser = uid u\<rparr> \<in> set (group_members d))
      \<and> (x = 0 \<longrightarrow> \<lparr>mgroup = go_id g, muser = uid u\<rparr> \<notin> set (group_members d))"
    using x by (cases rs) (auto simp: filter_empty_conv member_row split: if_splits)
qed (rule keep_rules)

lemma directory_find_by_id_SomeD:
  assumes "directory_find_by_id e i s = Inr (Some x, s')"
  shows "\<exists>r \<in> set (directories (db s)). did r = i \<and> do_id x = i \<and> downer r = do_owner x \<and> dgroup r = do_group x
    \<and> do_permission x = int32 (dpermission r) \<and> do_path x = Some (dpath r)"
proof -
  obtain k where k: "bind_long e i = Inr k"
    "find_one e (\<lambda>d. filter (\<lambda>r. did r = k) (directories d)) get_directory_callback s = Inr (Some x, s')"
    using assms by (auto simp: directory_find_by_id_def act_Inr)
  then show ?thesis using find_one_SomeD [OF k(2)] bind_long_Inr [OF k(1)]
    by (auto simp: get_directory_callback_def directory_new_def)
qed

lemma reads_directory_by_id [read_rules]:
  "reads d (directory_find_by_id e i) (\<lambda>p. \<forall>x. p = Some x \<longrightarrow>
     (\<exists>r \<in> set (directories d). did r = i \<and> do_id x = i \<and> downer r = do_owner x \<and> dgroup r = do_group x
       \<and> do_permission x = int32 (dpermission r) \<and> do_path x = Some (dpath r)))"
  by (rule readsI) (auto intro: keep_rules dest!: directory_find_by_id_SomeD)

lemma file_find_by_id_SomeD:
  assumes "file_find_by_id e i s = Inr (Some x, s')"
  shows "\<exists>r \<in> set (files (db s)). fid r = i \<and> fo_id x = i \<and> fowner r = fo_owner x \<and> fgroup r = fo_group x
    \<and> fo_permission x = int32 (fpermission r) \<and> fo_size x = fsize r"
proof -
  obtain k where k: "bind_long e i = Inr k"
    "find_one e (\<lambda>d. filter (\<lambda>r. fid r = k) (files d)) get_file_callback s = Inr (Some x, s')"
    using assms by (auto simp: file_find_by_id_def act_Inr)
  then show ?thesis using find_one_SomeD [OF k(2)] bind_long_Inr [OF k(1)]
    by (auto simp: get_file_callback_def file_new_def)
qed

lemma reads_file_by_id [read_rules]:
  "reads d (file_find_by_id e i) (\<lambda>p. \<forall>x. p = Some x \<longrightarrow>
     (\<exists>r \<in> set (files d). fid r = i \<and> fo_id x = i \<and> fowner r = fo_owner x \<and> fgroup r = fo_group x
       \<and> fo_permission x = int32 (fpermission r) \<and> fo_size x = fsize r))"
  by (rule readsI) (auto intro: keep_rules dest!: file_find_by_id_SomeD)

lemma reads_rowid [read_rules]: "reads d last_insert_rowid (\<lambda>i. i = last_rowid d)"
  by (auto simp: runs_def last_insert_rowid_def)

lemma reads_has_directory [read_rules]:
  "reads d (group_has_directory e g i)
    (\<lambda>r. r = 1 \<longrightarrow> (\<exists>x \<in> set (directories d). did x = i \<and> dgroup x = go_id g))"
proof (rule readsI)
  fix s x s'
  assume s: "db s = d" "group_has_directory e g i s = Inr (x, s')"
  obtain j k rs where r: "bind_long e (go_id g) = Inr j" "bind_long e i = Inr k"
    and q: "exec_query e (\<lambda>d. filter (\<lambda>r. dgroup r = j \<and> did r = k) (directories d)) s = Inr (rs, s')"
    and x: "x = (case rs of None \<Rightarrow> -1 | Some rs \<Rightarrow> if rs = [] then 0 else 1)"
    using s(2) by (auto simp: group_has_directory_def ret_Inr lift_Inr elim!: bindE split: option.split_asm)
  have "rs = None \<or> rs = Some (filter (\<lambda>r. dgroup r = j \<and> did r = k) (directories d))"
    using q s(1) by (auto simp: exec_query_def Let_def split: if_splits)
  then show "x = 1 \<longrightarrow> (\<exists>y \<in> set (directories d). did y = i \<and> dgroup y = go_id g)"
    using x bind_long_Inr [OF r(1)] bind_long_Inr [OF r(2)]
    by (cases rs) (auto simp: filter_empty_conv split: if_splits)
qed (rule keep_rules)

text \<open>
  The place of a new directory: below its parent, whose permission it inherits, or at the top of
  its group.
\<close>

definition placed :: "db \<Rightarrow> int \<Rightarrow> string \<Rightarrow> int option \<Rightarrow> string \<Rightarrow> int \<Rightarrow> bool" where
  "placed d g nm parent path perm \<longleftrightarrow>
     (case parent of
        None \<Rightarrow> \<exists>r \<in> set (groups d). gid r = g \<and> path = gcode r @ ''/'' @ nm \<and> perm = READ
      | Some p \<Rightarrow> \<exists>r \<in> set (directories d). did r = p \<and> path = dpath r @ ''/'' @ nm \<and> perm = int32 (dpermission r))"

abbreviation parent_of :: "dir_obj \<Rightarrow> int option" where
  "parent_of r \<equiv> (if do_parent r = 0 then None else Some (do_parent r))"

lemma reads_locate [read_rules]:
  "reads d (directory_locate e r) (\<lambda>x. \<forall>y. x = Some y \<longrightarrow> (do_permission r = READ \<longrightarrow>
     (\<exists>path perm. y = r\<lparr>do_path := Some path, do_permission := perm\<rparr>
       \<and> placed d (do_group r) (do_name r) (parent_of r) path perm)))"
  unfolding directory_locate_def directory_get_group_def
  by (intro walk_rules read_rules [THEN bind_read] keep_rules)
    (force simp: placed_def sprintf_def group_of_row_def split: if_splits)+

section \<open>What the writing operations do\<close>

lemma runs_update [write_rules]:
  "runs d (exec_update e upd) (\<lambda>ok d1. if ok then \<exists>n. upd n d = Some d1 else d1 = d)"
  unfolding runs_def exec_update_def Let_def by (auto split: if_splits option.splits)

lemma bind_update:
  "(\<And>n d1. upd n d = Some d1 \<Longrightarrow> runs d1 (k True) R) \<Longrightarrow> runs d (k False) R \<Longrightarrow> runs d (bind (exec_update e upd) k) R"
  by (rule runs_bind [OF runs_update]) (auto split: if_splits)

lemmas walk_model = bind_rules bind_update read_rules [THEN bind_read] walk_rules bind_read [OF reads_keeps] keep_rules

text \<open>Every operation: 0 if the statement took effect, another value if the tables are unchanged.\<close>

lemmas bound_values = bind_long_Inr bind_int_Inr

lemma runs_group_update [write_rules]:
  "runs d (group_update e g) (\<lambda>res d1. if res = 0
     then update_group_row (go_name g) (go_description g) (go_avatar g) (go_status g) (go_id g) d = Some d1
     else d1 = d)"
  unfolding group_update_def by (intro walk_model) (auto dest!: bound_values)

lemma runs_group_remove [write_rules]:
  "runs d (group_remove e g) (\<lambda>res d1. if res = 0 then d1 = delete_group_row (go_id g) d else d1 = d)"
  unfolding group_remove_def by (intro walk_model) (auto dest!: bound_values)

lemma runs_group_add_member [write_rules]:
  "runs d (group_add_member e g u) (\<lambda>res d1. if res = 0 then insert_member (go_id g) (uid u) d = Some d1 else d1 = d)"
  unfolding group_add_member_def by (intro walk_model) (auto dest!: bound_values)

lemma runs_group_leave [write_rules]:
  "runs d (group_leave e g u) (\<lambda>res d1. if res = 0 then d1 = delete_member_row (go_id g) (uid u) d else d1 = d)"
  unfolding group_leave_def by (intro walk_model) (auto dest!: bound_values)

lemma runs_directory_remove [write_rules]:
  "runs d (directory_remove e r) (\<lambda>res d1. if res = 0 then d1 = delete_directory_row (do_id r) d else d1 = d)"
  unfolding directory_remove_def by (intro walk_model) (auto dest!: bound_values)

lemma runs_directory_update [write_rules]:
  "runs d (directory_update e r) (\<lambda>(res, r') d1. if res = 0
     then \<exists>t. update_directory_row (do_permission r) t (do_id r) d = Some d1 else d1 = d)"
  unfolding directory_update_def by (intro walk_model) (auto dest!: bound_values)

lemma runs_file_remove [write_rules]:
  "runs d (file_remove e f) (\<lambda>res d1. if res = 0 then d1 = delete_file_row (fo_id f) d else d1 = d)"
  unfolding file_remove_def by (intro walk_model) (auto dest!: bound_values)

lemma runs_file_update [write_rules]:
  "runs d (file_update e f) (\<lambda>(res, f') d1. if res = 0
     then \<exists>t. update_file_row (fo_size f) (enum_value (fo_permission f)) (fo_modified f) t (fo_id f) d = Some d1
     else d1 = d)"
  unfolding file_update_def by (intro walk_model) (auto dest!: bound_values)

lemma runs_delete_session [write_rules]:
  "runs d (delete_session e x) (\<lambda>res d1. if res = 0 then d1 = delete_session_row (ss_id x) d else d1 = d)"
  unfolding delete_session_def by (intro walk_model) (auto dest!: bound_values)

lemma runs_save_session [write_rules]:
  "runs d (save_session e x) (\<lambda>(res, y) d1. (\<exists>t c. insert_session (ss_user x) t c d = Some d1)
     \<or> d1 = d \<and> ss_token y = ss_token x)"
  unfolding save_session_def Let_def by (intro walk_model) (auto dest!: bound_values)

lemma runs_save_user [write_rules]:
  "runs d (save_user e u) (\<lambda>(res, v) d1.
     if res = 0 then insert_user (display_name u) (username u) (password u) d = Some d1 else d1 = d)"
  unfolding save_user_def by (intro walk_model) auto

lemma runs_file_save [write_rules]:
  "runs d (file_save e f) (\<lambda>(res, f') d1. if res = 0
     then \<exists>path perm t. fo_path f = Some path \<and> insert_file (fo_name f) (fo_size f) perm path
       (if fo_directory f = 0 then None else Some (fo_directory f)) (fo_group f) (fo_owner f) (fo_modified f) t d = Some d1
     else d1 = d)"
  unfolding file_save_def Let_def
  by (intro walk_model) (auto dest!: bound_values simp: sprintf_def split: if_splits option.splits)

lemma runs_directory_save [write_rules]:
  "do_permission r = READ \<Longrightarrow> runs d (directory_save e r) (\<lambda>(res, r') d1. if res = 0
     then \<exists>path perm t. placed d (do_group r) (do_name r) (parent_of r) path perm
       \<and> insert_directory (do_name r) (do_owner r) (do_group r) (parent_of r) path perm t d = Some d1
     else d1 = d)"
  unfolding directory_save_def
  by (intro walk_model) (auto dest!: bound_values simp: sprintf_def split: if_splits option.splits)

text \<open>
  Creating a group: when it fails after the first statement, the group stays or is removed again.
\<close>

definition group_left_over :: "group_obj \<Rightarrow> db \<Rightarrow> db \<Rightarrow> bool" where
  "group_left_over g d d' \<longleftrightarrow> d' = d \<or> (\<exists>code t d1.
     insert_group (go_name g) (go_description g) (go_avatar g) (go_owner g) (go_status g) code t d = Some d1
     \<and> (d' = d1 \<or> d' = delete_group_row (int32 (last_rowid d1)) d1))"

definition group_created :: "group_obj \<Rightarrow> db \<Rightarrow> db \<Rightarrow> bool" where
  "group_created g d d' \<longleftrightarrow> (\<exists>code t d1.
     insert_group (go_name g) (go_description g) (go_avatar g) (go_owner g) (go_status g) code t d = Some d1
     \<and> insert_member (int32 (last_rowid d1)) (go_owner g) d1 = Some d')"

lemma runs_group_save [write_rules]:
  "runs d (group_save e g) (\<lambda>(res, g') d1. if res = 0 then group_created g d d1 else group_left_over g d d1)"
  unfolding group_save_def Let_def rollback_group_def
  by (intro walk_model)
    (auto dest!: bound_values simp: sprintf_def group_left_over_def group_created_def split: if_splits option.splits)

end
