(* ===== verification/Http_Server.thy ===== *)
theory Http_Server
  imports Http_Request
begin

text \<open>
  The HTTP server of \<open>src/networking/http/http_server.c\<close>, the socket set-up of
  \<open>src/networking/server.c\<close> and the route table of \<open>main/http.c\<close>.

  The file system is the parameter \<open>fs\<close>: the bytes of the regular file a path names, None where
  \<open>fopen\<close> fails. A handler of a route is a function from the request and the state of the
  application to a response and a new state; \<open>dispatch\<close> gives it for each route. What a local
  variable holds before it is assigned is a parameter: the entries of \<open>methods\<close> beyond those
  registered and the initial value of \<open>code\<close>.
\<close>

section \<open>The socket\<close>

record server =
  domain :: int
  service :: int
  protocol :: int
  interface_addr :: nat
  port :: int
  backlog :: int
  socket_fd :: int
  server_routes :: "nat dictionary"

definition SOCK_STREAM :: int where "SOCK_STREAM = 1"

text \<open>
  The results of \<open>socket\<close>, \<open>bind\<close> and \<open>listen\<close> are parameters; the arguments stored in
  \<open>server.address\<close> are those of the record.
\<close>

definition server_constructor ::
  "int \<Rightarrow> int \<Rightarrow> int \<Rightarrow> int \<Rightarrow> int \<Rightarrow> int \<Rightarrow> nat \<Rightarrow> int \<Rightarrow> int \<Rightarrow> server run" where
  "server_constructor socket_ret bind_ret listen_ret dm serv proto addr prt blog =
     (let srv = \<lparr>domain = dm, service = serv, protocol = proto, interface_addr = addr, port = prt,
          backlog = blog, socket_fd = socket_ret, server_routes = dictionary_constructor\<rparr>
      in if socket_fd srv \<le> 0 then Inl Program_Exit
         else if bind_ret < 0 then Inl Program_Exit
         else if service srv = SOCK_STREAM \<and> listen_ret < 0 then Inl Program_Exit
         else Inr srv)"

definition server_destructor :: "server \<Rightarrow> (int \<times> string linked_list) run" where
  "server_destructor srv =
     and_then (dictionary_destructor (server_routes srv)) (\<lambda>(ks, es). Inr (socket_fd srv, ks))"

definition register_routes_server :: "slack \<Rightarrow> server \<Rightarrow> nat \<Rightarrow> string \<Rightarrow> server run" where
  "register_routes_server slack srv route_function path =
     and_then (insert_dict slack (server_routes srv) path (length path) route_function) (\<lambda>d.
       Inr (srv\<lparr>server_routes := d\<rparr>))"

section \<open>Routes\<close>

datatype http_method = GET | POST | PUT | DELETE | HEAD | OPTIONS | TRACE | CONNECT | PATCH

definition method_code :: "http_method \<Rightarrow> int" where
  "method_code m =
     (case m of GET \<Rightarrow> 1 | POST \<Rightarrow> 2 | PUT \<Rightarrow> 3 | DELETE \<Rightarrow> 4 | HEAD \<Rightarrow> 5 | OPTIONS \<Rightarrow> 6
      | TRACE \<Rightarrow> 7 | CONNECT \<Rightarrow> 8 | PATCH \<Rightarrow> 9)"

definition is_match_method :: "int \<Rightarrow> string \<Rightarrow> int list \<Rightarrow> bool" where
  "is_match_method code0 meth methods =
     (let code = code0;
          code = (if strcmp meth ''GET'' = 0 then method_code GET else code);
          code = (if strcmp meth ''POST'' = 0 then method_code POST else code);
          code = (if strcmp meth ''PUT'' = 0 then method_code PUT else code);
          code = (if strcmp meth ''DELETE'' = 0 then method_code DELETE else code);
          code = (if strcmp meth ''HEAD'' = 0 then method_code HEAD else code);
          code = (if strcmp meth ''OPTIONS'' = 0 then method_code OPTIONS else code);
          code = (if strcmp meth ''CONNECT'' = 0 then method_code CONNECT else code);
          code = (if strcmp meth ''TRACE'' = 0 then method_code TRACE else code);
          code = (if strcmp meth ''PATCH'' = 0 then method_code PATCH else code)
      in list_ex (\<lambda>i. methods ! i = code) [0..<9])"

record 'h route =
  methods :: "int list"
  route_uri :: string
  route_callback :: 'h

record 'h http_server =
  http_socket :: server
  routes :: "'h route dictionary"

definition http_server_constructor :: "int \<Rightarrow> int \<Rightarrow> int \<Rightarrow> nat \<Rightarrow> int \<Rightarrow> 'h http_server run" where
  "http_server_constructor socket_ret bind_ret listen_ret addr prt =
     and_then (server_constructor socket_ret bind_ret listen_ret 2 SOCK_STREAM 0 addr prt 255) (\<lambda>srv.
       Inr \<lparr>http_socket = srv, routes = dictionary_constructor\<rparr>)"

text \<open>The array of methods has nine entries; those registered overwrite the first ones.\<close>

definition register_routes ::
  "slack \<Rightarrow> int list \<Rightarrow> 'h http_server \<Rightarrow> 'h \<Rightarrow> string \<Rightarrow> int list \<Rightarrow> 'h http_server run" where
  "register_routes slack junk srv callback uri meths =
     (if 9 < length meths then Inl Out_Of_Bounds
      else
        let route = \<lparr>methods = meths @ drop (length meths) junk, route_uri = uri,
                     route_callback = callback\<rparr>
        in and_then (insert_dict slack (routes srv) uri (length uri) route) (\<lambda>d.
             Inr (srv\<lparr>routes := d\<rparr>)))"

section \<open>Files\<close>

type_synonym file_system = "string \<Rightarrow> string option"

text \<open>
  \<open>fgetc\<close> is stored in a \<open>char\<close>, so a byte 255 ends the file as \<open>EOF\<close> does. The buffer is not
  terminated.
\<close>

definition render_template :: "file_system \<Rightarrow> string list \<Rightarrow> string run" where
  "render_template fs paths =
     fold_run (\<lambda>path buffer.
       case fs path of
         None \<Rightarrow> Inr buffer
       | Some content \<Rightarrow>
           let buffer = buffer @ takeWhile (\<lambda>c. c \<noteq> CHR 0xFF) content
           in if 30000 < length buffer then Inl Out_Of_Bounds else Inr buffer) paths []"

text \<open>A response: the block that holds it and the size announced for it.\<close>

type_synonym response = "string \<times> nat"

definition template_response :: "slack \<Rightarrow> file_system \<Rightarrow> string \<Rightarrow> string \<Rightarrow> response run" where
  "template_response slack fs status path =
     (let c = ''HTTP/1.1 '' @ status @ CRLF @ ''Connection: close'' @ CRLF @ ''Content-Length: ''
      in and_then (render_template fs [path]) (\<lambda>buffer.
         let t = read_cstr slack buffer
         in and_then (sprintf (length t + length c + 10) (c @ show_nat (length t) @ CRLF @ CRLF @ t))
            (\<lambda>r. Inr (r @ [NUL], length r))))"

definition response_404 :: "slack \<Rightarrow> file_system \<Rightarrow> response run" where
  "response_404 slack fs = template_response slack fs ''404 Not Found'' ''public/404.html''"

definition response_400 :: "slack \<Rightarrow> file_system \<Rightarrow> response run" where
  "response_400 slack fs = template_response slack fs ''400 Bad Request'' ''public/400.html''"

definition response_455 :: response where
  "response_455 =
     (let r = empty_response ''455 Method Not Allowed'' in (r @ [NUL], length r))"

definition strrchr :: "char \<Rightarrow> string \<Rightarrow> string option" where
  "strrchr c s = (if c \<in> set s then Some (c # rev (takeWhile (\<lambda>x. x \<noteq> c) (rev s))) else None)"

definition content_types :: "(string \<times> string) list" where
  "content_types =
     [(''.css'', ''text/css''), (''.csv'', ''text/csv''), (''.gif'', ''image/gif''),
      (''.htm'', ''text/html''), (''.html'', ''text/html''), (''.ico'', ''image/x-icon''),
      (''.jpeg'', ''image/jpeg''), (''.jpg'', ''image/jpeg''),
      (''.js'', ''application/javascript''), (''.json'', ''application/json''),
      (''.png'', ''image/png''), (''.pdf'', ''application/pdf''), (''.svg'', ''image/svg+xml''),
      (''.txt'', ''text/plain'')]"

definition get_content_type :: "string \<Rightarrow> string" where
  "get_content_type uri =
     (case strrchr (CHR ''.'') uri of
        None \<Rightarrow> ''application/octet-stream''
      | Some last_dot \<Rightarrow>
          (case map_of content_types last_dot of
             Some t \<Rightarrow> t | None \<Rightarrow> ''application/octet-stream''))"

text \<open>\<open>strstr(uri, "..")\<close>.\<close>

fun has_dotdot :: "string \<Rightarrow> bool" where
  "has_dotdot (a # b # s) = (a = CHR ''.'' \<and> b = CHR ''.'' \<or> has_dotdot (b # s))"
| "has_dotdot s = False"

definition BSIZE :: nat where "BSIZE = 1048576"

definition resource_header :: "nat \<Rightarrow> string \<Rightarrow> string" where
  "resource_header file_size content_type =
     ''HTTP/1.1 200 OK'' @ CRLF @ ''Connection: close'' @ CRLF
     @ ''Content-Length: '' @ show_nat file_size @ CRLF
     @ ''Content-Type: '' @ content_type @ CRLF @ CRLF"

text \<open>
  The loop copies the file behind the header in portions of at most 1024 bytes without looking at
  the end of the buffer.
\<close>

function copy_loop :: "string \<Rightarrow> string \<Rightarrow> string run" where
  "copy_loop buffer file =
     (let temp = take 1024 file
      in if temp = [] then Inr buffer
         else if BSIZE < length buffer + length temp then Inl Out_Of_Bounds
         else copy_loop (buffer @ temp) (drop 1024 file))"
  by pat_completeness auto
termination
  by (relation "measure (\<lambda>(b, f). length f)") auto

declare copy_loop.simps [simp del]

definition server_resource :: "slack \<Rightarrow> file_system \<Rightarrow> string \<Rightarrow> response run" where
  "server_resource slack fs uri =
     (let uri = (if strcmp uri ''/'' = 0 then ''/index.html'' else uri)
      in if 100 < length uri then response_400 slack fs
         else if has_dotdot uri then response_404 slack fs
         else and_then (sprintf 128 (''public'' @ uri)) (\<lambda>full_path.
           case fs full_path of
             None \<Rightarrow> response_404 slack fs
           | Some content \<Rightarrow>
               if 1048500 < length content then response_400 slack fs
               else and_then (sprintf BSIZE (resource_header (length content) (get_content_type full_path)))
                 (\<lambda>buffer. and_then (copy_loop buffer content) (\<lambda>buffer. Inr (buffer, length buffer)))))"

section \<open>Receiving a request\<close>

text \<open>
  \<open>request_string\<close> has 60000 bytes, not initialised. The first \<open>recv\<close> writes at its start (None: it
  failed and returned -1); each later one writes at the offset that is the size of the piece received
  before it, and the loop ends with the first empty piece or error.
\<close>

definition REQUEST_SIZE :: nat where "REQUEST_SIZE = 60000"

definition write_at :: "string \<Rightarrow> int \<Rightarrow> string \<Rightarrow> string run" where
  "write_at buf off piece =
     (if off < 0 \<or> REQUEST_SIZE < nat off + length piece then Inl Out_Of_Bounds
      else Inr (take (nat off) buf @ piece @ drop (nat off + length piece) buf))"

fun recv_more :: "int \<Rightarrow> string list \<Rightarrow> string \<Rightarrow> string run" where
  "recv_more byte_received [] buf = Inr buf"
| "recv_more byte_received (piece # pieces) buf =
     (if piece = [] then Inr buf
      else and_then (write_at buf byte_received piece) (recv_more (int (length piece)) pieces))"

definition receive_request :: "string \<Rightarrow> string option \<Rightarrow> string list \<Rightarrow> string run" where
  "receive_request junk first pieces =
     and_then
       (case first of
          None \<Rightarrow> recv_more (- 1) pieces junk
        | Some piece \<Rightarrow> and_then (write_at junk 0 piece) (recv_more (int (length piece)) pieces))
       (\<lambda>buf. if NUL \<in> set buf then Inr (takeWhile (\<lambda>c. c \<noteq> NUL) buf) else Inl Out_Of_Bounds)"

section \<open>The handler\<close>

text \<open>
  The two \<open>write\<close> calls at the end: the response with its size, and the response up to its NUL.
\<close>

definition http_handler ::
  "slack \<Rightarrow> file_system \<Rightarrow> int \<Rightarrow> ('h \<Rightarrow> http_request \<Rightarrow> 's \<Rightarrow> (string \<times> 's) run) \<Rightarrow>
   'h http_server \<Rightarrow> string \<Rightarrow> 's \<Rightarrow> (string list \<times> 's) run" where
  "http_handler slack fs code0 dispatch srv request_string s =
     and_then (http_request_constructor slack request_string) (\<lambda>request.
     and_then (request_field slack (request_line request) ''uri'') (\<lambda>uri.
     and_then (request_field slack (request_line request) ''method'') (\<lambda>meth.
     and_then (deref uri) (\<lambda>uri.
     and_then (search_dict slack (routes srv) uri (length uri)) (\<lambda>route.
     and_then
       (case route of
          Some route \<Rightarrow>
            and_then (deref meth) (\<lambda>meth.
            if is_match_method code0 meth (methods route)
            then and_then (dispatch (route_callback route) request s) (\<lambda>(response, s).
                   Inr (response @ [NUL], length response, s))
            else Inr (fst response_455, snd response_455, s))
        | None \<Rightarrow>
            and_then (server_resource slack fs uri) (\<lambda>(response, size). Inr (response, size, s)))
       (\<lambda>(response, response_size, s).
     and_then (http_request_destructor request) (\<lambda>_.
       Inr ([take response_size response, read_cstr slack response], s))))))))"

section \<open>The routes of the program\<close>

datatype endpoint =
    Login | Register_User | Get_Me_Info | Get_User_Info | Get_My_Groups | Logout
  | Create_Group | Update_Group | Get_Group_Members | Delete_Group | Join_Group | Leave_Group
  | Kick_Member_Group | Get_Group_Node_Tree
  | Make_Directory | Delete_Directory | Update_Directory | Get_Directory_Children
  | Get_Directory_Info
  | Create_File | Save_File | Delete_File | Update_File | Get_File

definition route_table :: "(endpoint \<times> string \<times> http_method list) list" where
  "route_table =
     [(Login, ''/login'', [POST]), (Register_User, ''/register'', [POST]),
      (Get_Me_Info, ''/me/info'', [GET]), (Get_User_Info, ''/user/info'', [GET]),
      (Get_My_Groups, ''/me/group'', [GET]), (Logout, ''/logout'', [POST]),
      (Create_Group, ''/group/create'', [POST]), (Update_Group, ''/group/update'', [PUT]),
      (Get_Group_Members, ''/group/members'', [GET]), (Delete_Group, ''/group/delete'', [DELETE]),
      (Join_Group, ''/group/join'', [POST]), (Leave_Group, ''/group/leave'', [POST]),
      (Kick_Member_Group, ''/group/kick'', [POST]), (Get_Group_Node_Tree, ''/group/node'', [GET]),
      (Make_Directory, ''/directory/create'', [POST]),
      (Delete_Directory, ''/directory/delete'', [DELETE]),
      (Update_Directory, ''/directory/update'', [PUT]),
      (Get_Directory_Children, ''/directory/getchild'', [GET]),
      (Get_Directory_Info, ''/directory/info'', [GET]),
      (Create_File, ''/file/create'', [POST]), (Save_File, ''/file/save'', [POST]),
      (Delete_File, ''/file/delete'', [DELETE]), (Update_File, ''/file/update'', [PUT]),
      (Get_File, ''/file/info'', [GET])]"

definition http_init :: "slack \<Rightarrow> int list \<Rightarrow> endpoint http_server \<Rightarrow> endpoint http_server run" where
  "http_init slack junk srv =
     fold_run (\<lambda>(h, uri, ms) srv. register_routes slack junk srv h uri (map method_code ms))
       route_table srv"

section \<open>Lemmas on routing\<close>

definition method_name :: "http_method \<Rightarrow> string" where
  "method_name m =
     (case m of GET \<Rightarrow> ''GET'' | POST \<Rightarrow> ''POST'' | PUT \<Rightarrow> ''PUT'' | DELETE \<Rightarrow> ''DELETE''
      | HEAD \<Rightarrow> ''HEAD'' | OPTIONS \<Rightarrow> ''OPTIONS'' | TRACE \<Rightarrow> ''TRACE'' | CONNECT \<Rightarrow> ''CONNECT''
      | PATCH \<Rightarrow> ''PATCH'')"

lemma is_match_known:
  "is_match_method code0 (method_name m) ms \<longleftrightarrow> (\<exists>i < 9. ms ! i = method_code m)"
  by (cases m) (auto simp: is_match_method_def method_name_def method_code_def list_ex_iff)

lemma word_ok_method_name: "word_ok (method_name m)"
  by (cases m) (auto simp: word_ok_def method_name_def NUL_def)

text \<open>Every route is stored, and found again by its URI.\<close>

definition table_entry :: "int list \<Rightarrow> endpoint \<times> string \<times> http_method list \<Rightarrow> string \<times> endpoint route" where
  "table_entry junk e =
     (case e of (h, uri, ms) \<Rightarrow>
        (uri, \<lparr>methods = map method_code ms @ drop (length ms) junk, route_uri = uri,
               route_callback = h\<rparr>))"

lemma route_table_ok:
  "(h, uri, ms) \<in> set route_table \<Longrightarrow> word_ok uri \<and> 2 \<le> length uri \<and> length ms = 1"
proof -
  have "\<forall>(h, uri, ms) \<in> set route_table. word_ok uri \<and> 2 \<le> length uri \<and> length ms = 1"
    unfolding route_table_def by (simp add: word_ok_def NUL_def)
  then show "(h, uri, ms) \<in> set route_table \<Longrightarrow> ?thesis" by auto
qed

lemma http_init_eq:
  "\<exists>srv'. http_init slack junk srv = Inr srv' \<and>
    fold_run (\<lambda>(uri, route) d. insert_dict slack d uri (length uri) route)
      (map (table_entry junk) route_table) (routes srv) = Inr (routes srv')"
  if "dict_wf slack (routes srv)"
proof -
  have "\<exists>srv'. fold_run (\<lambda>(h, uri, ms) srv. register_routes slack junk srv h uri (map method_code ms))
      es srv = Inr srv' \<and>
    fold_run (\<lambda>(uri, route) d. insert_dict slack d uri (length uri) route)
      (map (table_entry junk) es) (routes srv) = Inr (routes srv')"
    if "set es \<subseteq> set route_table" "dict_wf slack (routes srv)" for es srv
    using that
  proof (induction es arbitrary: srv)
    case (Cons e es)
    obtain h uri ms where e: "e = (h, uri, ms)" by (cases e)
    have ok: "word_ok uri" "2 \<le> length uri" "length ms = 1"
      using route_table_ok [of h uri ms] Cons.prems(1) e by auto
    obtain d where d: "insert_dict slack (routes srv) uri (length uri) (snd (table_entry junk e)) = Inr d"
      "dict_wf slack d"
      using insert_dict_eq [OF Cons.prems(2), of uri "length uri" "snd (table_entry junk e)"] ok
      by (auto simp: key_size_ok_def word_ok_def)
    have "register_routes slack junk srv h uri (map method_code ms) = Inr (srv\<lparr>routes := d\<rparr>)"
      using d(1) ok(3) by (simp add: register_routes_def table_entry_def e)
    then show ?case using Cons.IH [of "srv\<lparr>routes := d\<rparr>"] Cons.prems(1) d e
      by (simp add: table_entry_def)
  qed simp
  from this [of route_table srv] that show ?thesis by (simp add: http_init_def)
qed

lemma distinct_uris: "distinct (map (\<lambda>(h, uri, ms). uri) route_table)"
  unfolding route_table_def by simp

lemma search_bare:
  assumes "dict_wf slack d" and "\<forall>b. slack b = []" and "nul_free key"
  shows "search_dict slack d key (length key) = Inr (dict_map slack d key)"
proof -
  have "entry_key slack (entry_constructor key (length key) v) = key" for v :: int
    using read_calloc_bare_slackless [OF assms(3)] assms(2)
    by (simp add: entry_key_def entry_constructor_def)
  then show ?thesis using assms(1)
    by (simp add: search_dict_def dict_wf_def keys_cmp.search_bst_correct dict_map_def
        map_option_case cong: option.case_cong)
qed

lemma routes_after_init:
  assumes "routes srv = dictionary_constructor" and "http_init slack junk srv = Inr srv'"
  shows "dict_wf slack (routes srv')"
    and "dict_map slack (routes srv') = map_of (map (table_entry junk) route_table)"
proof -
  have wf: "dict_wf slack (routes srv)" using assms(1) by simp
  have f: "fold_run (\<lambda>(uri, route) d. insert_dict slack d uri (length uri) route)
      (map (table_entry junk) route_table) dictionary_constructor = Inr (routes srv')"
    using http_init_eq [OF wf, of junk] assms by auto
  have good: "\<forall>(k, v) \<in> set (map (table_entry junk) route_table). nul_free k \<and> 2 \<le> length k"
    using route_table_ok by (fastforce simp: table_entry_def word_ok_def)
  have "\<exists>d. fold_run (\<lambda>(uri, route) d. insert_dict slack d uri (length uri) route)
      (map (table_entry junk) route_table) dictionary_constructor = Inr d \<and> dict_wf slack d
      \<and> dict_map slack d = map_of (map (table_entry junk) route_table) ++ Map.empty"
    using dict_bare.ins_all [OF dict_bare.valid_empty good] by simp
  then show "dict_wf slack (routes srv')"
    "dict_map slack (routes srv') = map_of (map (table_entry junk) route_table)"
    using f by auto
qed

lemma table_lookup:
  assumes "(h, uri, ms) \<in> set route_table"
  shows "map_of (map (table_entry junk) route_table) uri = Some (snd (table_entry junk (h, uri, ms)))"
proof (rule map_of_is_SomeI)
  have "map fst (map (table_entry junk) route_table) = map (\<lambda>(h, uri, ms). uri) route_table"
    by (auto simp: table_entry_def)
  then show "distinct (map fst (map (table_entry junk) route_table))" by (simp only: distinct_uris)
  have "table_entry junk (h, uri, ms) = (uri, snd (table_entry junk (h, uri, ms)))"
    by (simp add: table_entry_def)
  then show "(uri, snd (table_entry junk (h, uri, ms))) \<in> set (map (table_entry junk) route_table)"
    using assms by (metis image_eqI set_map)
qed

lemma table_lookup_none:
  assumes "uri \<notin> (\<lambda>(h, uri, ms). uri) ` set route_table"
  shows "map_of (map (table_entry junk) route_table) uri = None"
  using assms by (auto simp: map_of_eq_None_iff table_entry_def image_iff split: prod.splits)

lemma dictionary_destructor_total: "dict_wf slack d \<Longrightarrow> \<exists>x. dictionary_destructor d = Inr x"
  using destroy_loop_eq [of "keys d" 0]
  by (auto simp: dictionary_destructor_def linked_list_destructor_def dict_wf_def)

lemma http_request_destructor_total:
  assumes "holds slack (request_line req) a" "holds slack (req_query req) b"
    "holds slack (header_fields req) c" "holds slack (req_body req) d"
  shows "\<exists>x. http_request_destructor req = Inr x"
proof -
  obtain w x y z where "dictionary_destructor (request_line req) = Inr w"
    "dictionary_destructor (header_fields req) = Inr x" "dictionary_destructor (req_body req) = Inr y"
    "dictionary_destructor (req_query req) = Inr z"
    using assms dictionary_destructor_total unfolding holds_def by meson
  then show ?thesis by (simp add: http_request_destructor_def)
qed

text \<open>What the handler does with a well-formed request, up to the lookup of the route.\<close>

lemma handler_after_parse:
  assumes "word_ok meth" "word_ok uri" "word_ok version"
    and "\<forall>kv \<in> set q. field_ok kv" and "\<forall>kv \<in> set hs. header_ok kv" and "\<forall>kv \<in> set b. field_ok kv"
    and "b = [] \<longrightarrow> ''Content-Type'' \<notin> fst ` set hs" and "\<forall>b. slack b = []"
    and wf: "dict_wf slack (routes srv)"
  shows "\<exists>req d. http_request_constructor slack (request_text meth uri q version hs b) = Inr req
    \<and> holds slack (req_query req) q \<and> holds slack (header_fields req) hs
    \<and> holds slack (req_body req) (if ''Content-Type'' \<in> fst ` set hs then b else [])
    \<and> http_handler slack fs code0 dispatch srv (request_text meth uri q version hs b) s =
      and_then
       (case dict_map slack (routes srv) uri of
          Some route \<Rightarrow>
            if is_match_method code0 meth (methods route)
            then and_then (dispatch (route_callback route) req s) (\<lambda>(response, s).
                   Inr (response @ [NUL], length response, s))
            else Inr (fst response_455, snd response_455, s)
        | None \<Rightarrow>
            and_then (server_resource slack fs uri) (\<lambda>(response, size). Inr (response, size, s)))
       (\<lambda>(response, response_size, s).
          Inr ([take response_size response, read_cstr slack response], s))"
proof -
  obtain req where req: "http_request_constructor slack (request_text meth uri q version hs b) = Inr req"
    "holds slack (request_line req) [(''method'', meth), (''uri'', uri), (''http_version'', version @ [CHR 0x0D])]"
    "holds slack (req_query req) q" "holds slack (header_fields req) hs"
    "holds slack (req_body req) (if ''Content-Type'' \<in> fst ` set hs then b else [])"
    using constructor_holds [OF assms(1-8)] by blast
  obtain x where x: "http_request_destructor req = Inr x"
    using http_request_destructor_total [OF req(2-5)] by blast
  have "request_field slack (request_line req) ''uri'' = Inr (Some uri)"
    "request_field slack (request_line req) ''method'' = Inr (Some meth)"
    by (subst holds_field [OF req(2)]; simp add: NUL_def)+
  moreover have "search_dict slack (routes srv) uri (length uri) = Inr (dict_map slack (routes srv) uri)"
    using search_bare [OF wf assms(8), of uri] assms(2) by (simp add: word_ok_def)
  ultimately show ?thesis using req x
    by (auto simp: http_handler_def and_then_def split: sum.splits option.splits prod.splits)
qed

lemma template_response_str:
  "template_response slack fs status path = Inr (r, n) \<Longrightarrow> \<exists>t. r = t @ [NUL] \<and> n = length t"
  by (auto simp: template_response_def Let_def run_simps)

section \<open>Lemmas on files\<close>

lemma copy_loop_eq:
  "copy_loop buffer rest_file =
     (if rest_file = [] \<or> length buffer + length rest_file \<le> BSIZE then Inr (buffer @ rest_file)
      else Inl Out_Of_Bounds)"
proof (induction buffer rest_file rule: copy_loop.induct)
  case (1 buffer rest_file)
  show ?case
  proof (cases "rest_file = []")
    case True
    then show ?thesis by (subst copy_loop.simps) simp
  next
    case False
    let ?temp = "take 1024 rest_file" and ?rest = "drop 1024 rest_file"
    have ne: "?temp \<noteq> []" using False by simp
    have n: "length ?temp + length ?rest = length rest_file" by simp
    have app: "?temp @ ?rest = rest_file" by simp
    show ?thesis
    proof (cases "BSIZE < length buffer + length ?temp")
      case True
      then have "\<not> length buffer + length rest_file \<le> BSIZE" using n by linarith
      then show ?thesis using True False ne by (subst copy_loop.simps) simp
    next
      case nb: False
      have step: "copy_loop buffer rest_file = copy_loop (buffer @ ?temp) ?rest"
        using nb ne by (subst copy_loop.simps) (simp add: Let_def)
      have ih: "copy_loop (buffer @ ?temp) ?rest =
          (if ?rest = [] \<or> length (buffer @ ?temp) + length ?rest \<le> BSIZE
           then Inr ((buffer @ ?temp) @ ?rest) else Inl Out_Of_Bounds)"
        using 1 [OF refl ne nb] by simp
      show ?thesis
      proof (cases "?rest = []")
        case True
        then have "?temp = rest_file" using app by simp
        then have "length buffer + length rest_file \<le> BSIZE" using nb by simp
        then show ?thesis unfolding step ih using True app by simp
      next
        case False
        then show ?thesis unfolding step ih
          using n app \<open>rest_file \<noteq> []\<close> by (simp add: add.assoc del: length_take length_drop append_take_drop_id)
      qed
    qed
  qed
qed

lemma length_resource_header:
  "length (resource_header n ty) = 72 + length (show_nat n) + length ty"
  by (simp add: resource_header_def CRLF_def)

lemma content_type_length: "length (get_content_type uri) \<le> 24"
proof -
  have "\<forall>(e, t) \<in> set content_types. length t \<le> 24" by (simp add: content_types_def)
  then have "map_of content_types d = Some t \<Longrightarrow> length t \<le> 24" for d t
    by (auto dest!: map_of_SomeD)
  then show ?thesis by (auto simp: get_content_type_def split: option.splits)
qed

text \<open>The paths a request can reach.\<close>

definition public_path :: "string \<Rightarrow> bool" where
  "public_path p \<longleftrightarrow> take 6 p = ''public'' \<and> \<not> has_dotdot p \<and> length p \<le> 106"

lemma has_dotdot_Cons: "has_dotdot (x # y) \<longleftrightarrow> (x = CHR ''.'' \<and> y \<noteq> [] \<and> hd y = CHR ''.'') \<or> has_dotdot y"
  by (cases y) auto

lemma public_path_uri:
  "length uri \<le> 100 \<Longrightarrow> \<not> has_dotdot uri \<Longrightarrow> public_path (''public'' @ uri)"
  by (simp add: public_path_def has_dotdot_Cons)

lemma template_local:
  assumes "fs path = fs' path"
  shows "template_response slack fs status path = template_response slack fs' status path"
proof -
  have "render_template fs [path] = render_template fs' [path]"
    using assms by (simp add: render_template_def)
  then show ?thesis by (simp only: template_response_def)
qed

lemma resource_local:
  assumes "\<And>p. public_path p \<Longrightarrow> fs p = fs' p"
  shows "server_resource slack fs uri = server_resource slack fs' uri"
proof -
  have "public_path ''public/404.html''" "public_path ''public/400.html''"
    by (simp_all add: public_path_def)
  then have e: "response_404 slack fs = response_404 slack fs'" "response_400 slack fs = response_400 slack fs'"
    using assms by (auto simp: response_404_def response_400_def intro!: template_local)
  let ?uri = "if strcmp uri ''/'' = 0 then ''/index.html'' else uri"
  show ?thesis
  proof (cases "100 < length ?uri \<or> has_dotdot ?uri")
    case True
    then show ?thesis by (auto simp: server_resource_def e Let_def)
  next
    case False
    then have "fs (''public'' @ ?uri) = fs' (''public'' @ ?uri)"
      using public_path_uri [of ?uri] assms by simp
    then show ?thesis unfolding server_resource_def Let_def e
      by (intro if_cong refl and_then_cong) (auto simp: sprintf_def split: if_splits)
  qed
qed

section \<open>Properties\<close>

text \<open>A server as \<open>http_server_constructor\<close> and \<open>http_init\<close> leave it.\<close>

definition ready_server :: "slack \<Rightarrow> int list \<Rightarrow> endpoint http_server \<Rightarrow> bool" where
  "ready_server slack junk srv \<longleftrightarrow> (\<forall>b. slack b = []) \<and>
     (\<exists>s0. http_server_constructor 3 0 0 0 8000 = Inr s0 \<and> http_init slack junk s0 = Inr srv)"

text \<open>A request whose parts are well formed.\<close>

definition request_ok ::
  "string \<Rightarrow> string \<Rightarrow> (string \<times> string) list \<Rightarrow> string \<Rightarrow> (string \<times> string) list \<Rightarrow> (string \<times> string) list \<Rightarrow> bool"
  where
  "request_ok meth uri q version hs b \<longleftrightarrow> word_ok meth \<and> word_ok uri \<and> word_ok version
     \<and> (\<forall>kv \<in> set q. field_ok kv) \<and> (\<forall>kv \<in> set hs. header_ok kv) \<and> (\<forall>kv \<in> set b. field_ok kv)
     \<and> (b = [] \<longrightarrow> ''Content-Type'' \<notin> fst ` set hs)"

lemma ready_server_routes:
  assumes "ready_server slack junk srv"
  shows "dict_wf slack (routes srv)" "dict_map slack (routes srv) = map_of (map (table_entry junk) route_table)"
    "\<forall>b. slack b = []"
proof -
  obtain s0 :: "endpoint http_server" where s0: "http_server_constructor 3 0 0 0 8000 = Inr s0"
    "http_init slack junk s0 = Inr srv" "\<forall>b. slack b = []"
    using assms by (auto simp: ready_server_def)
  have "routes s0 = dictionary_constructor"
    using s0(1) by (auto simp: http_server_constructor_def run_simps)
  then show "dict_wf slack (routes srv)"
    "dict_map slack (routes srv) = map_of (map (table_entry junk) route_table)" "\<forall>b. slack b = []"
    using routes_after_init s0(2,3) by blast+
qed

lemma ready_server_exists: "\<exists>srv. ready_server (\<lambda>b. []) junk srv"
proof -
  obtain s0 :: "endpoint http_server" where "http_server_constructor 3 0 0 0 8000 = Inr s0"
    "routes s0 = dictionary_constructor"
    by (simp add: http_server_constructor_def server_constructor_def SOCK_STREAM_def Let_def)
  then show ?thesis using http_init_eq [of "\<lambda>b. []" s0 junk] by (auto simp: ready_server_def)
qed

lemma ready_handler:
  assumes "ready_server slack junk srv" and "request_ok meth uri q version hs b"
  shows "\<exists>req. http_request_constructor slack (request_text meth uri q version hs b) = Inr req
    \<and> http_handler slack fs code0 dispatch srv (request_text meth uri q version hs b) s =
      and_then
       (case map_of (map (table_entry junk) route_table) uri of
          Some route \<Rightarrow>
            if is_match_method code0 meth (methods route)
            then and_then (dispatch (route_callback route) req s) (\<lambda>(response, s).
                   Inr (response @ [NUL], length response, s))
            else Inr (fst response_455, snd response_455, s)
        | None \<Rightarrow>
            and_then (server_resource slack fs uri) (\<lambda>(response, size). Inr (response, size, s)))
       (\<lambda>(response, response_size, s).
          Inr ([take response_size response, read_cstr slack response], s))"
  using handler_after_parse [of meth uri version q hs b slack srv fs code0 dispatch s]
    ready_server_routes [OF assms(1)] assms(2) unfolding request_ok_def by auto

text \<open>A registered route.\<close>

lemma route_dispatch:
  assumes "ready_server slack junk srv" and "(h, uri, [m]) \<in> set route_table"
    and "request_ok (method_name m) uri q version hs b"
  shows "\<exists>req. http_request_constructor slack (request_text (method_name m) uri q version hs b) = Inr req
    \<and> http_handler slack fs code0 dispatch srv (request_text (method_name m) uri q version hs b) s =
      and_then (dispatch h req s) (\<lambda>(response, s).
        Inr ([response, takeWhile (\<lambda>c. c \<noteq> NUL) response], s))"
proof -
  have l: "map_of (map (table_entry junk) route_table) uri =
      Some \<lparr>methods = method_code m # drop 1 junk, route_uri = uri, route_callback = h\<rparr>"
    using table_lookup [OF assms(2), of junk] by (simp add: table_entry_def)
  have "is_match_method code0 (method_name m) (method_code m # drop 1 junk)"
    unfolding is_match_known by (rule exI [of _ 0]) simp
  moreover have "read_cstr slack (response @ [NUL]) = takeWhile (\<lambda>c. c \<noteq> NUL) response" for response
    by (induction response) (auto simp: read_cstr_def)
  ultimately show ?thesis
    using ready_handler [OF assms(1,3), of fs code0 dispatch s] l
    by (auto simp: and_then_assoc split_def intro!: and_then_cong)
qed







text \<open>
  C26. A file below \<open>public\<close> is served whole, behind a header with its size and type, when header and
  file fit the buffer of 1048576 bytes; above 1048500 bytes the answer is the template for 400; in
  between the copy loop runs over the end of the buffer.
\<close>

theorem file_served:
  assumes "fs (''public'' @ uri) = Some content" and "length uri \<le> 100" and "\<not> has_dotdot uri" and "uri \<noteq> ''/''"
  defines "header \<equiv> resource_header (length content) (get_content_type (''public'' @ uri))"
  shows "server_resource slack fs uri =
    (if 1048500 < length content then response_400 slack fs
     else if length header + length content \<le> 1048576
     then Inr (header @ content, length header + length content)
     else Inl Out_Of_Bounds)"
proof (cases "1048500 < length content")
  case True
  then show ?thesis using assms(1-4) by (simp add: server_resource_def sprintf_def)
next
  case False
  then have "length (show_nat (length content)) \<le> 7"
    by (intro length_show_nat_le) simp_all
  then have h: "length header \<le> 103"
    using content_type_length [of "''public'' @ uri"] by (simp add: header_def length_resource_header)
  then have "sprintf BSIZE header = Inr header" by (simp add: sprintf_def BSIZE_def)
  moreover have "copy_loop header content =
      (if length header + length content \<le> 1048576 then Inr (header @ content) else Inl Out_Of_Bounds)"
    using h by (auto simp: copy_loop_eq BSIZE_def)
  ultimately show ?thesis using False assms(1-4)
    by (simp add: server_resource_def sprintf_def [of 128] header_def Let_def)
qed

theorem file_served_witness:
  "server_resource (\<lambda>b. []) (\<lambda>p. if p = ''public/a.js'' then Some ''x=1'' else None) ''/a.js''
    = Inr (resource_header 3 ''application/javascript'' @ ''x=1'', 98)"
proof -
  let ?fs = "\<lambda>p. if p = ''public/a.js'' then Some ''x=1'' else None"
  have t: "get_content_type (''public'' @ ''/a.js'') = ''application/javascript''" by code_simp
  have n: "length ''x=1'' = 3" "length (resource_header 3 ''application/javascript'') = 95" by code_simp+
  have "?fs (''public'' @ ''/a.js'') = Some ''x=1''" "length ''/a.js'' \<le> 100" "\<not> has_dotdot ''/a.js''"
    "''/a.js'' \<noteq> ''/''" by simp_all
  note hyps = this
  have "server_resource (\<lambda>b. []) ?fs ''/a.js'' =
    (if 1048500 < length ''x=1'' then response_400 (\<lambda>b. []) ?fs
     else if length (resource_header (length ''x=1'') (get_content_type (''public'' @ ''/a.js''))) + length ''x=1''
       \<le> 1048576
     then Inr (resource_header (length ''x=1'') (get_content_type (''public'' @ ''/a.js'')) @ ''x=1'',
       length (resource_header (length ''x=1'') (get_content_type (''public'' @ ''/a.js''))) + length ''x=1'')
     else Inl Out_Of_Bounds)"
    by (rule file_served) (rule hyps)+
  then show ?thesis unfolding t n by simp
qed

lemma takeWhile_nul: "nul_free s \<Longrightarrow> takeWhile (\<lambda>c. c \<noteq> NUL) (s @ replicate (Suc n) NUL) = s"
  by (auto simp: nul_free_def intro!: takeWhile_append_stop)

text \<open>
  C28. A request that arrives in two pieces, in a buffer that happens to be zero, is received whole; a
  third piece is written at the offset that is the size of the second one, over what is already there.
\<close>

theorem receive_pieces:
  assumes "nul_free a" "nul_free b" "nul_free c" and "a \<noteq> []" "b \<noteq> []" "c \<noteq> []"
    and "length a + length b + length c < 60000"
  defines "buf \<equiv> replicate 60000 NUL"
  shows "receive_request buf (Some a) [b] = Inr (a @ b)
    \<and> receive_request buf (Some a) [b, c]
      = Inr (take (length b) (a @ b) @ c @ drop (length b + length c) (a @ b))"
proof -
  have z: "\<exists>k. 60000 - n = Suc k" if "n < 60000" for n :: nat
    using that by (intro exI [of _ "59999 - n"]) simp
  have w: "write_at (s @ replicate (60000 - length s) NUL) (int k) t
      = Inr ((take k s @ t @ drop (k + length t) s) @ replicate (60000 - length (take k s @ t @ drop (k + length t) s)) NUL)"
    if "k \<le> length s" "length s + length t < 60000" for s t k
  proof -
    have "drop (k + length t) (s @ replicate (60000 - length s) NUL)
        = drop (k + length t) s @ replicate (60000 - length (take k s @ t @ drop (k + length t) s)) NUL"
      using that by (auto simp: drop_replicate min_def)
    then show ?thesis using that by (simp add: write_at_def REQUEST_SIZE_def)
  qed
  have wa: "write_at buf 0 a = Inr (a @ replicate (60000 - length a) NUL)"
    using w [of 0 "[]" a] assms(7) by (simp add: buf_def)
  have wb: "write_at (a @ replicate (60000 - length a) NUL) (int (length a)) b
      = Inr ((a @ b) @ replicate (60000 - length (a @ b)) NUL)"
    using w [of "length a" a b] assms(7) by simp
  have wc: "write_at ((a @ b) @ replicate (60000 - length (a @ b)) NUL) (int (length b)) c
      = Inr ((take (length b) (a @ b) @ c @ drop (length b + length c) (a @ b))
          @ replicate (60000 - length (take (length b) (a @ b) @ c @ drop (length b + length c) (a @ b))) NUL)"
    using w [of "length b" "a @ b" c] assms(7) by simp
  have fin: "(if NUL \<in> set (s @ replicate (60000 - length s) NUL)
      then Inr (takeWhile (\<lambda>x. x \<noteq> NUL) (s @ replicate (60000 - length s) NUL)) else Inl Out_Of_Bounds) = Inr s"
    if s: "nul_free s" "length s < 60000" for s
  proof -
    obtain k where "60000 - length s = Suc k" using z [OF s(2)] by blast
    then show ?thesis using takeWhile_nul [OF s(1), of k] by simp
  qed
  have n2: "nul_free (a @ b)" "length (a @ b) < 60000" using assms by simp_all
  have two: "receive_request buf (Some a) [b] = Inr (a @ b)"
    by (simp only: receive_request_def option.case and_then_Inr wa recv_more.simps assms(5) if_False wb fin [OF n2])
  let ?s = "take (length b) (a @ b) @ c @ drop (length b + length c) (a @ b)"
  have "nul_free ?s" using assms(1-3) by (auto simp: nul_free_def dest: in_set_takeD in_set_dropD)
  moreover have "length ?s < 60000" using assms(7) by simp
  ultimately have "receive_request buf (Some a) [b, c] = Inr ?s"
    by (simp only: receive_request_def option.case and_then_Inr wa recv_more.simps assms(5,6) if_False wb wc
        fin [of ?s])
  with two show ?thesis by simp
qed

theorem receive_pieces_witness:
  "receive_request (replicate 60000 NUL) (Some ''GET '') [''/x'', ''!''] = Inr ''GE! /x''"
  using receive_pieces [of "''GET ''" "''/x''" "''!''"] by (simp add: NUL_def)

end
