(* ===== verification/Application.thy ===== *)
theory Application
  imports Node_Controller Http_Server
begin

text \<open>
  The program put together: the handler that \<open>main/http.c\<close> registers for each endpoint, and the
  server running on them.
\<close>

fun endpoint_handler :: "env \<Rightarrow> endpoint \<Rightarrow> http_request \<Rightarrow> string act" where
  "endpoint_handler e Login = login e"
| "endpoint_handler e Register_User = register_user e"
| "endpoint_handler e Get_Me_Info = get_me_info e"
| "endpoint_handler e Get_User_Info = get_user_info e"
| "endpoint_handler e Get_My_Groups = get_my_groups e"
| "endpoint_handler e Logout = logout e"
| "endpoint_handler e Create_Group = create_group e"
| "endpoint_handler e Update_Group = update_group e"
| "endpoint_handler e Get_Group_Members = get_group_members e"
| "endpoint_handler e Delete_Group = delete_group e"
| "endpoint_handler e Join_Group = join_group e"
| "endpoint_handler e Leave_Group = leave_group e"
| "endpoint_handler e Kick_Member_Group = kick_member_group e"
| "endpoint_handler e Get_Group_Node_Tree = get_group_node_tree e"
| "endpoint_handler e Make_Directory = make_directory e"
| "endpoint_handler e Delete_Directory = delete_directory e"
| "endpoint_handler e Update_Directory = update_directory e"
| "endpoint_handler e Get_Directory_Children = get_directory_children e"
| "endpoint_handler e Get_Directory_Info = get_directory_info e"
| "endpoint_handler e Create_File = create_file e"
| "endpoint_handler e Save_File = save_file e"
| "endpoint_handler e Delete_File = delete_file e"
| "endpoint_handler e Update_File = update_file e"
| "endpoint_handler e Get_File = get_file e"

text \<open>One request to the HTTP server of the program: what is written to the client, and the new state.\<close>

definition serve :: "env \<Rightarrow> file_system \<Rightarrow> int \<Rightarrow> endpoint http_server \<Rightarrow> string \<Rightarrow> string list act" where
  "serve e fs code0 srv request_string = http_handler (slk e) fs code0 (endpoint_handler e) srv request_string"

section \<open>Every request keeps the schema\<close>

lemma keeps_endpoint [keep_rules]: "keeps schema_ok (endpoint_handler e h request)"
  by (cases h) (simp_all add: keep_rules)

text \<open>What the server does to the state is what the handler of some route did, or nothing.\<close>

lemma http_handler_keeps:
  assumes "\<And>h request s r s'. dispatch h request s = Inr (r, s') \<Longrightarrow> P s \<Longrightarrow> P s'"
    and "http_handler slack fs code0 dispatch srv request_string s = Inr (w, s')" and "P s"
  shows "P s'"
  using assms(2,3) unfolding http_handler_def
  by (auto simp: and_then_eq_Inr split: option.split_asm if_split_asm prod.split_asm dest: assms(1))

lemma keeps_serve [keep_rules]: "keeps schema_ok (serve e fs code0 srv request_string)"
  unfolding serve_def
proof (rule keepsI)
  fix s w s'
  assume s: "schema_ok s"
    and r: "http_handler (slk e) fs code0 (endpoint_handler e) srv request_string s = Inr (w, s')"
  show "schema_ok s'"
    by (rule http_handler_keeps [OF _ r, of schema_ok]) (auto intro: keepsD [OF keeps_endpoint] s)
qed

text \<open>A run of the server over a sequence of requests.\<close>

definition serve_all :: "env \<Rightarrow> file_system \<Rightarrow> int \<Rightarrow> endpoint http_server \<Rightarrow> string list \<Rightarrow> app \<Rightarrow> app run" where
  "serve_all e fs code0 srv = fold_run (\<lambda>r s. and_then (serve e fs code0 srv r s) (\<lambda>(w, s). Inr s))"

lemma serve_all_keeps: "serve_all e fs code0 srv rs s = Inr s' \<Longrightarrow> schema_ok s \<Longrightarrow> schema_ok s'"
  unfolding serve_all_def
proof (induction rs arbitrary: s)
  case (Cons r rs)
  then obtain w s1 where s1: "serve e fs code0 srv r s = Inr (w, s1)"
    "fold_run (\<lambda>r s. and_then (serve e fs code0 srv r s) (\<lambda>(w, s). Inr s)) rs s1 = Inr s'"
    by (auto simp: run_simps)
  then show ?case using Cons.IH keepsD [OF keeps_serve Cons.prems(2) s1(1)] by blast
qed simp

text \<open>
  The server from its construction: the socket is made, bound and listening, the routes are
  registered, and the requests are handled one after the other.
\<close>

definition run_http :: "env \<Rightarrow> file_system \<Rightarrow> int \<Rightarrow> int list \<Rightarrow> string list \<Rightarrow> app \<Rightarrow> app run" where
  "run_http e fs code0 junk rs s =
     and_then (http_server_constructor 3 0 0 0 8000) (\<lambda>srv.
     and_then (http_init (slk e) junk srv) (\<lambda>srv. serve_all e fs code0 srv rs s))"

lemma run_http_keeps: "run_http e fs code0 junk rs s = Inr s' \<Longrightarrow> schema_ok s \<Longrightarrow> schema_ok s'"
  unfolding run_http_def by (auto simp: run_simps dest: serve_all_keeps)

end
