(* ===== verification/Endpoint_Spec.thy ===== *)
theory Endpoint_Spec
  imports Handler_Logic Application
begin

text \<open>
  What every endpoint promises, without its code: who may use it, on which objects, and what happens
  to the tables. An answer with the status 200 reports the effect of the endpoint; with any other
  answer the tables are as before, except that a failed creation of a group may leave the group.
\<close>

section \<open>The objects a request names\<close>

definition body_has :: "env \<Rightarrow> http_request \<Rightarrow> string \<Rightarrow> string \<Rightarrow> bool" where
  "body_has e request key v \<longleftrightarrow> request_field (slk e) (req_body request) key = Inr (Some v)"

definition bare_has :: "env \<Rightarrow> http_request \<Rightarrow> string \<Rightarrow> string \<Rightarrow> bool" where
  "bare_has e request key v \<longleftrightarrow> request_field_bare (slk e) (req_body request) key = Inr (Some v)"

definition query_has :: "env \<Rightarrow> http_request \<Rightarrow> string \<Rightarrow> string \<Rightarrow> bool" where
  "query_has e request key v \<longleftrightarrow> request_field (slk e) (req_query request) key = Inr (Some v)"

text \<open>An optional field, and the value it replaces when it is there.\<close>

definition body_opt :: "env \<Rightarrow> http_request \<Rightarrow> string \<Rightarrow> string option" where
  "body_opt e request key = (case request_field (slk e) (req_body request) key of Inr v \<Rightarrow> v | Inl _ \<Rightarrow> None)"

definition bare_opt :: "env \<Rightarrow> http_request \<Rightarrow> string \<Rightarrow> string option" where
  "bare_opt e request key = (case request_field_bare (slk e) (req_body request) key of Inr v \<Rightarrow> v | Inl _ \<Rightarrow> None)"

definition named_group :: "env \<Rightarrow> http_request \<Rightarrow> group \<Rightarrow> db \<Rightarrow> bool" where
  "named_group e request g d \<longleftrightarrow> g \<in> set (groups d) \<and> bare_has e request ''code'' (gcode g)"

definition named_directory :: "env \<Rightarrow> http_request \<Rightarrow> directory \<Rightarrow> db \<Rightarrow> bool" where
  "named_directory e request r d \<longleftrightarrow>
     r \<in> set (directories d) \<and> (\<exists>i. body_has e request ''directory_id'' i \<and> did r = atol i)"

definition named_file :: "env \<Rightarrow> http_request \<Rightarrow> file_row \<Rightarrow> db \<Rightarrow> bool" where
  "named_file e request f d \<longleftrightarrow>
     f \<in> set (files d) \<and> (\<exists>i. body_has e request ''file_id'' i \<and> fid f = atol i)"

definition is_group_owner :: "user \<Rightarrow> int \<Rightarrow> db \<Rightarrow> bool" where
  "is_group_owner u i d \<longleftrightarrow> (\<exists>g \<in> set (groups d). gid g = i \<and> gowner g = uid u)"

definition is_group_member :: "user \<Rightarrow> int \<Rightarrow> db \<Rightarrow> bool" where
  "is_group_member u i d \<longleftrightarrow> \<lparr>mgroup = i, muser = uid u\<rparr> \<in> set (group_members d)"

definition owned_group :: "env \<Rightarrow> http_request \<Rightarrow> user \<Rightarrow> group \<Rightarrow> db \<Rightarrow> bool" where
  "owned_group e request u g d \<longleftrightarrow> bearer e request u d \<and> named_group e request g d \<and> gowner g = uid u"

definition owned_directory :: "env \<Rightarrow> http_request \<Rightarrow> user \<Rightarrow> directory \<Rightarrow> db \<Rightarrow> bool" where
  "owned_directory e request u r d \<longleftrightarrow> bearer e request u d \<and> named_directory e request r d \<and> downer r = uid u"

definition may_see_directory :: "env \<Rightarrow> http_request \<Rightarrow> db \<Rightarrow> bool" where
  "may_see_directory e request d \<longleftrightarrow>
     (\<exists>u r i. bearer e request u d \<and> r \<in> set (directories d) \<and> query_has e request ''directory_id'' i
        \<and> did r = atol i \<and> is_group_member u (dgroup r) d)"

section \<open>The effect of each endpoint\<close>

definition replaced :: "'a \<Rightarrow> 'a option \<Rightarrow> 'a" where
  "replaced x v = (case v of None \<Rightarrow> x | Some y \<Rightarrow> y)"

text \<open>The number 0 stands for no directory.\<close>

definition directory_ref :: "int \<Rightarrow> int option" where
  "directory_ref i = (if i = 0 then None else Some i)"

fun effect :: "env \<Rightarrow> endpoint \<Rightarrow> http_request \<Rightarrow> db \<Rightarrow> db \<Rightarrow> bool" where
  "effect e Login request d d' \<longleftrightarrow>
     (\<exists>u t c. u \<in> set (users d) \<and> body_has e request ''username'' (username u)
        \<and> body_has e request ''password'' (password u) \<and> insert_session (int32 (uid u)) t c d = Some d')"
| "effect e Register_User request d d' \<longleftrightarrow>
     (\<exists>dn un pw. body_has e request ''username'' un \<and> body_has e request ''password'' pw
        \<and> body_has e request ''display_name'' dn \<and> insert_user dn un pw d = Some d')"
| "effect e Logout request d d' \<longleftrightarrow>
     (\<exists>u x. bearer e request u d \<and> x \<in> set (sessions d) \<and> presented_token e request (stoken x)
        \<and> d' = delete_session_row (int32 (sid x)) d)"
| "effect e Create_Group request d d' \<longleftrightarrow>
     (\<exists>u nm. bearer e request u d \<and> bare_has e request ''name'' nm
        \<and> group_created (group_new nm (bare_opt e request ''description'') (bare_opt e request ''avatar'') (uid u)) d d')"
| "effect e Update_Group request d d' \<longleftrightarrow>
     (\<exists>u g. owned_group e request u g d
        \<and> update_group_row (replaced (gname g) (bare_opt e request ''name''))
            (case bare_opt e request ''description'' of None \<Rightarrow> gdescription g | Some x \<Rightarrow> Some x)
            (case bare_opt e request ''avatar'' of None \<Rightarrow> gavatar g | Some x \<Rightarrow> Some x)
            (int32 (gstatus g)) (gid g) d = Some d')"
| "effect e Delete_Group request d d' \<longleftrightarrow>
     (\<exists>u g. owned_group e request u g d \<and> d' = delete_group_row (gid g) d)"
| "effect e Join_Group request d d' \<longleftrightarrow>
     (\<exists>u g. bearer e request u d \<and> g \<in> set (groups d) \<and> body_has e request ''code'' (gcode g)
        \<and> \<not> is_group_member u (gid g) d \<and> insert_member (gid g) (uid u) d = Some d')"
| "effect e Leave_Group request d d' \<longleftrightarrow>
     (\<exists>u g. bearer e request u d \<and> named_group e request g d \<and> d' = delete_member_row (gid g) (uid u) d)"
| "effect e Kick_Member_Group request d d' \<longleftrightarrow>
     (\<exists>u g m. owned_group e request u g d \<and> bare_has e request ''member_id'' m
        \<and> d' = delete_member_row (gid g) (int32 (atoi m)) d)"
| "effect e Make_Directory request d d' \<longleftrightarrow>
     (\<exists>u nm g parent path perm t. bearer e request u d \<and> body_has e request ''name'' nm
        \<and> body_has e request ''group_id'' g \<and> is_group_member u (atol g) d
        \<and> (\<forall>p. parent = Some p \<longrightarrow> (\<exists>r \<in> set (directories d). did r = p \<and> dgroup r = atol g))
        \<and> placed d (atol g) nm parent path perm
        \<and> insert_directory nm (uid u) (atol g) parent path perm t d = Some d')"
| "effect e Delete_Directory request d d' \<longleftrightarrow>
     (\<exists>u r. owned_directory e request u r d \<and> d' = delete_directory_row (did r) d)"
| "effect e Update_Directory request d d' \<longleftrightarrow>
     (\<exists>u r p t. owned_directory e request u r d \<and> body_has e request ''permission'' p
        \<and> update_directory_row (int32 (atol p)) t (did r) d = Some d')"
| "effect e Save_File request d d' \<longleftrightarrow>
     (\<exists>u nm sz path g perm t. bearer e request u d \<and> body_has e request ''name'' nm
        \<and> body_has e request ''size'' sz \<and> body_has e request ''path'' path \<and> body_has e request ''group_id'' g
        \<and> insert_file nm (atol sz) perm path
             (directory_ref (case body_opt e request ''directory_id'' of None \<Rightarrow> 0 | Some i \<Rightarrow> atol i))
             (atol g) (uid u) (uid u) t d = Some d')"
| "effect e Delete_File request d d' \<longleftrightarrow>
     (\<exists>u f. bearer e request u d \<and> named_file e request f d
        \<and> (fowner f = uid u \<or> is_group_owner u (fgroup f) d) \<and> d' = delete_file_row (fid f) d)"
| "effect e Update_File request d d' \<longleftrightarrow>
     (\<exists>u f t. bearer e request u d \<and> named_file e request f d
        \<and> (is_group_member u (fgroup f) d
           \<or> int32 (fpermission f) = WRITE \<and> (fowner f = uid u \<or> is_group_owner u (fgroup f) d))
        \<and> update_file_row (replaced (fsize f) (map_option atol (body_opt e request ''size'')))
            (enum_value (replaced (int32 (fpermission f)) (map_option atoi (body_opt e request ''permission''))))
            (uid u) t (fid f) d = Some d')"
| "effect e Get_File request d d' \<longleftrightarrow>
     d' = d \<and> (\<exists>u f. bearer e request u d \<and> named_file e request f d \<and> is_group_member u (fgroup f) d)"
| "effect e Create_File request d d' \<longleftrightarrow>
     d' = d \<and> (\<exists>u g. bearer e request u d \<and> body_has e request ''group_id'' g \<and> is_group_member u (atol g) d)"
| "effect e Get_Group_Members request d d' \<longleftrightarrow>
     d' = d \<and> (\<exists>u g. bearer e request u d \<and> g \<in> set (groups d) \<and> gowner g = uid u
       \<and> request_field_bare (slk e) (req_query request) ''code'' = Inr (Some (gcode g)))"
| "effect e Get_Group_Node_Tree request d d' \<longleftrightarrow>
     d' = d \<and> (\<exists>u i. bearer e request u d \<and> query_has e request ''group_id'' i \<and> is_group_member u (atol i) d)"
| "effect e Get_Directory_Children request d d' \<longleftrightarrow> d' = d \<and> may_see_directory e request d"
| "effect e Get_Directory_Info request d d' \<longleftrightarrow> d' = d \<and> may_see_directory e request d"
| "effect e Get_User_Info request d d' \<longleftrightarrow> d' = d"
| "effect e _ request d d' \<longleftrightarrow> d' = d \<and> (\<exists>u. bearer e request u d)"

text \<open>What an answer with another status leaves behind.\<close>

definition residue :: "env \<Rightarrow> endpoint \<Rightarrow> http_request \<Rightarrow> db \<Rightarrow> db \<Rightarrow> bool" where
  "residue e h request d d' \<longleftrightarrow> d' = d \<or> h = Create_Group \<and>
     (\<exists>u nm. bearer e request u d \<and> bare_has e request ''name'' nm
        \<and> group_left_over (group_new nm (bare_opt e request ''description'') (bare_opt e request ''avatar'') (uid u)) d d')"

definition promise :: "env \<Rightarrow> endpoint \<Rightarrow> http_request \<Rightarrow> db \<Rightarrow> string \<Rightarrow> db \<Rightarrow> bool" where
  "promise e h request d r d' \<longleftrightarrow> (if is_ok r then effect e h request d d' else residue e h request d d')"

section \<open>The handlers keep the promises\<close>

lemmas named_defs = named_group_def named_directory_def named_file_def is_group_owner_def is_group_member_def
  owned_group_def owned_directory_def may_see_directory_def body_has_def query_has_def bare_has_def body_opt_def bare_opt_def replaced_def
  promise_def residue_def group_of_row_def

lemmas walk_promise = bind_rules write_rules [THEN runs_bind] read_rules [THEN bind_read] walk_rules
  bind_read [OF reads_keeps] keep_rules

text \<open>The operations at the arguments the handlers give them.\<close>

lemma runs_new_user [walk_rules]:
  "(\<And>u. insert_user dn un pw d = insert_user (display_name u) (username u) (password u) d \<Longrightarrow> runs d (k u) R) \<Longrightarrow>
   runs d (bind (lift (user_new dn un pw)) k) R"
  by (rule bind_read [OF reads_lift]) (auto simp: user_new_def sprintf_def run_simps split: if_splits)

lemma runs_save_new_directory:
  "runs d (directory_save e (directory_new nm u g parent)) (\<lambda>(res, r') d1. if res = 0
     then \<exists>p path perm t. (p = None \<or> p = parent) \<and> placed d g nm p path perm
       \<and> insert_directory nm u g p path perm t d = Some d1
     else d1 = d)"
proof -
  define r where "r = directory_new nm u g parent"
  define p where "p = parent_of r"
  have r: "do_permission r = READ" "do_name r = nm" "do_owner r = u" "do_group r = g" "p = None \<or> p = parent"
    by (auto simp: p_def r_def directory_new_def split: option.split)
  show ?thesis using runs_directory_save [OF r(1), of d e] r(5)
    unfolding r(2-4) r_def [symmetric] p_def [symmetric]
    by (elim runs_weaken) (auto split: if_splits)
qed

lemma runs_save_new_file:
  "runs d (file_save e ((file_new nm sz u g None)\<lparr>fo_path := path, fo_directory := i\<rparr>)) (\<lambda>(res, f') d1. if res = 0
     then \<exists>p perm t. path = Some p \<and> insert_file nm sz perm p (directory_ref i) g u u t d = Some d1
     else d1 = d)"
  by (rule runs_weaken [OF runs_file_save]) (auto simp: file_new_def directory_ref_def split: if_splits)

lemma logout_promise: "runs d (logout e request) (promise e Logout request d)"
  unfolding logout_def Let_def promise_def
  by (intro walk_promise) (force simp: named_defs split: if_splits option.splits)+

lemma delete_group_promise: "runs d (delete_group e request) (promise e Delete_Group request d)"
  unfolding delete_group_def Let_def promise_def
  by (intro walk_promise) (force simp: named_defs split: if_splits option.splits)+

lemma join_group_promise: "runs d (join_group e request) (promise e Join_Group request d)"
  unfolding join_group_def Let_def promise_def
  by (intro walk_promise) (force simp: named_defs split: if_splits option.splits)+

lemma update_group_promise: "runs d (update_group e request) (promise e Update_Group request d)"
  unfolding update_group_def Let_def promise_def
  by (intro walk_promise) (force simp: named_defs split: if_splits option.splits)+

lemma leave_group_promise: "runs d (leave_group e request) (promise e Leave_Group request d)"
  unfolding leave_group_def Let_def promise_def
  by (intro walk_promise) (force simp: named_defs split: if_splits option.splits)+

lemma kick_member_group_promise: "runs d (kick_member_group e request) (promise e Kick_Member_Group request d)"
  unfolding kick_member_group_def Let_def promise_def
  by (intro walk_promise) (force simp: named_defs split: if_splits option.splits)+

lemma create_group_promise: "runs d (create_group e request) (promise e Create_Group request d)"
  unfolding create_group_def Let_def promise_def
  by (intro walk_promise) (force simp: named_defs split: if_splits option.splits)+

lemma login_promise: "runs d (login e request) (promise e Login request d)"
  unfolding login_def Let_def promise_def
  by (intro walk_promise; (simp add: residue_def; fail)?)
    (force simp: named_defs session_new_def split: if_splits)

lemma register_user_promise: "runs d (register_user e request) (promise e Register_User request d)"
  unfolding register_user_def Let_def promise_def
  by (intro runs_new_user walk_promise; (simp add: residue_def; fail)?)
    (clarsimp simp: named_defs split: if_splits)

lemma make_directory_promise: "runs d (make_directory e request) (promise e Make_Directory request d)"
  unfolding make_directory_def Let_def promise_def
  by (intro runs_save_new_directory [THEN runs_bind] walk_promise; (simp add: residue_def; fail)?)
    (clarsimp simp: named_defs split: if_splits; blast)+

lemma delete_directory_promise: "runs d (delete_directory e request) (promise e Delete_Directory request d)"
  unfolding delete_directory_def Let_def promise_def
  by (intro walk_promise) (force simp: named_defs split: if_splits option.splits)+

lemma update_directory_promise: "runs d (update_directory e request) (promise e Update_Directory request d)"
  unfolding update_directory_def Let_def promise_def
  by (intro walk_promise) (force simp: named_defs split: if_splits option.splits)+

lemma save_file_promise: "runs d (save_file e request) (promise e Save_File request d)"
  unfolding save_file_def Let_def promise_def
  by (intro runs_save_new_file [THEN runs_bind] walk_promise; (simp add: residue_def; fail)?)
    (clarsimp simp: named_defs split: if_splits, blast)

lemma delete_file_promise: "runs d (delete_file e request) (promise e Delete_File request d)"
  unfolding delete_file_def Let_def promise_def
  by (intro walk_promise) (force simp: named_defs split: if_splits option.splits)+

lemma update_file_promise: "runs d (update_file e request) (promise e Update_File request d)"
  unfolding update_file_def Let_def promise_def
  by (intro walk_promise) (force simp: named_defs split: if_splits option.splits)+

lemma get_file_promise: "runs d (get_file e request) (promise e Get_File request d)"
  unfolding get_file_def Let_def promise_def
  by (intro walk_promise) (force simp: named_defs split: if_splits option.splits)+

lemma get_group_members_promise: "runs d (get_group_members e request) (promise e Get_Group_Members request d)"
  unfolding get_group_members_def Let_def promise_def
  by (intro walk_promise) (force simp: named_defs split: if_splits option.splits)+

lemma get_group_node_tree_promise: "runs d (get_group_node_tree e request) (promise e Get_Group_Node_Tree request d)"
  unfolding get_group_node_tree_def Let_def promise_def
  by (intro walk_promise) (force simp: named_defs split: if_splits option.splits)+

lemma create_file_promise: "runs d (create_file e request) (promise e Create_File request d)"
  unfolding create_file_def Let_def promise_def
  by (intro walk_promise) (force simp: named_defs split: if_splits option.splits)+

lemma get_me_info_promise: "runs d (get_me_info e request) (promise e Get_Me_Info request d)"
  unfolding get_me_info_def Let_def promise_def
  by (intro walk_promise) (force simp: named_defs split: if_splits option.splits)+

lemma get_my_groups_promise: "runs d (get_my_groups e request) (promise e Get_My_Groups request d)"
  unfolding get_my_groups_def Let_def promise_def
  by (intro walk_promise) (force simp: named_defs split: if_splits option.splits)+

lemma get_user_info_promise: "runs d (get_user_info e request) (promise e Get_User_Info request d)"
  unfolding get_user_info_def Let_def promise_def
  by (intro walk_promise) (force simp: named_defs split: if_splits option.splits)+

lemma get_directory_promises:
  "runs d (get_directory_children e request) (promise e Get_Directory_Children request d)"
  "runs d (get_directory_info e request) (promise e Get_Directory_Info request d)"
  unfolding get_directory_children_def get_directory_info_def directory_get_group_def promise_def
  by (intro walk_promise; force simp: named_defs split: if_splits option.splits)+

lemmas promises = login_promise register_user_promise logout_promise get_me_info_promise get_user_info_promise
  get_my_groups_promise create_group_promise update_group_promise get_group_members_promise delete_group_promise
  join_group_promise leave_group_promise kick_member_group_promise get_group_node_tree_promise
  make_directory_promise delete_directory_promise update_directory_promise get_directory_promises
  create_file_promise save_file_promise delete_file_promise update_file_promise get_file_promise

lemma endpoint_runs: "runs d (endpoint_handler e h request) (promise e h request d)"
  by (cases h) (simp_all only: endpoint_handler.simps promises)

lemma endpoint_promise:
  "endpoint_handler e h request s = Inr (r, s') \<Longrightarrow> promise e h request (db s) r (db s')"
  using endpoint_runs by (rule runsD)

end
