(* ===== verification/Demo_World.thy ===== *)
theory Demo_World
  imports Application
begin

text \<open>
  A small concrete world in which the properties of the handlers are evaluated: two users with a
  session each, a group that belongs to the first and has only her as a member, a directory and a
  file in it. Nothing fails in it, and blocks have eight bytes more than was asked for, as the
  allocator of the platform gives.
\<close>

definition fields_dict :: "(string \<times> string) list \<Rightarrow> string dictionary" where
  "fields_dict kvs =
     (case fold_run (\<lambda>(k, v) d. insert_dict (\<lambda>b. []) d k (Suc (length k)) v)
        (map (\<lambda>(k, v). (k, str_block v)) kvs) dictionary_constructor
      of Inr d \<Rightarrow> d | Inl _ \<Rightarrow> dictionary_constructor)"

definition demo_request :: "(string \<times> string) list \<Rightarrow> (string \<times> string) list \<Rightarrow> http_request" where
  "demo_request headers fs =
     \<lparr>request_line = dictionary_constructor, header_fields = fields_dict headers,
      req_body = fields_dict fs, req_query = fields_dict fs\<rparr>"

definition demo_env :: env where
  "demo_env =
     \<lparr>usable = (\<lambda>n. n + 8), slk = (\<lambda>b. []), garbage = [], table_junk = (\<lambda>c. c),
      db_fails = (\<lambda>n. False), os_ok = (\<lambda>h c. True), os_tree = (\<lambda>h p. Folder No_Entry),
      random_hex = (\<lambda>n k. replicate (2 * k) (CHR ''7'')), clock = (\<lambda>n. ''now''),
      local_clock = (\<lambda>n. ''now''), now = (\<lambda>n. 0), parse_time = (\<lambda>s. 0)\<rparr>"

definition ann :: user where
  "ann = \<lparr>uid = 1, display_name = ''Ann'', username = ''ann'', password = ''pa'', ustatus = 1\<rparr>"

definition bob :: user where
  "bob = \<lparr>uid = 2, display_name = ''Bob'', username = ''bob'', password = ''pb'', ustatus = 1\<rparr>"

definition demo_group :: group where
  "demo_group = \<lparr>gid = 1, gname = ''G'', gdescription = None, gavatar = None, gowner = 1, gstatus = 1,
     gcode = ''AB'', gcreated = ''then''\<rparr>"

definition demo_directory :: directory where
  "demo_directory = \<lparr>did = 1, dname = ''d'', dpermission = READ, dpath = ''AB/d'', dparent = None,
     dgroup = 1, downer = 1, dcreated = ''then'', dupdated = ''then''\<rparr>"

definition demo_file :: file_row where
  "demo_file = \<lparr>fid = 1, fname = ''f'', fsize = 3, fpermission = READ, fpath = ''AB/f'',
     fdirectory = None, fgroup = 1, fowner = 1, fmodified = Some 1, fcreated = ''then'', fupdated = ''then''\<rparr>"

definition demo_db :: db where
  "demo_db =
     \<lparr>users = [ann, bob],
      sessions = [\<lparr>sid = 1, suser = 1, stoken = ''TA'', screated = ''then''\<rparr>,
                  \<lparr>sid = 2, suser = 2, stoken = ''TB'', screated = ''then''\<rparr>],
      groups = [demo_group], group_members = [\<lparr>mgroup = 1, muser = 1\<rparr>],
      directories = [demo_directory], files = [demo_file],
      next_user = 3, next_session = 3, next_group = 2, next_member = 2, next_directory = 2,
      next_file = 2, last_rowid = 0\<rparr>"

definition demo_app :: app where
  "demo_app = \<lparr>db = demo_db, db_calls = 0, os_calls = []\<rparr>"

text \<open>The headers of a request of Ann and of one of Bob.\<close>

definition as_ann :: "(string \<times> string) list" where
  "as_ann = [(''Authorization'', ''Basic VEE='')]"

definition as_bob :: "(string \<times> string) list" where
  "as_bob = [(''Authorization'', ''Basic VEI='')]"

lemma demo_db_wf: "db_wf demo_db"
  by code_simp

end
