(* ===== verification/Session_Life.thy ===== *)
theory Session_Life
  imports Endpoint_Spec Demo_World
begin

text \<open>
  Properties of whole sequences of requests: registering, logging in, acting with the token, and
  logging out.
\<close>

section \<open>The token a request presents\<close>

lemma presented_token_unique: "presented_token e request t \<Longrightarrow> presented_token e request t' \<Longrightarrow> t = t'"
  by (auto simp: presented_token_def)

lemma presented_token_header:
  assumes "request_field (slk e) (header_fields request) ''Authorization''
      = request_field (slk e) (header_fields request') ''Authorization''"
  shows "presented_token e request t \<longleftrightarrow> presented_token e request' t"
  using assms by (simp add: presented_token_def)

text \<open>A request without a valid token changes nothing, except to log in or to register.\<close>

lemma stranger_changes_nothing:
  assumes "endpoint_handler e h request s = Inr (r, s')" and "\<forall>u. \<not> bearer e request u (db s)"
    and "h \<noteq> Login" and "h \<noteq> Register_User"
  shows "db s' = db s"
  using endpoint_promise [OF assms(1)] assms(2-)
  by (cases h) (auto simp: promise_def residue_def owned_group_def owned_directory_def
      may_see_directory_def split: if_splits)

section \<open>Logging out\<close>

lemma logged_out_no_bearer:
  assumes "db_wf d" and "next_session d \<le> 2 ^ 31" and "x \<in> set (sessions d)"
    and "presented_token e request (stoken x)"
  shows "\<not> bearer e request u (delete_session_row (int32 (sid x)) d)"
proof
  assume "bearer e request u (delete_session_row (int32 (sid x)) d)"
  then obtain y where y: "y \<in> set (sessions d)" "sid y \<noteq> int32 (sid x)" "presented_token e request (stoken y)"
    by (auto simp: bearer_def delete_session_row_def)
  have "stoken y = stoken x" using y(3) assms(4) by (rule presented_token_unique)
  then have "y = x" using y(1) assms(1,3) by (auto simp: db_wf_defs distinct_map dest: inj_onD)
  moreover have "0 < sid x" "sid x < next_session d"
    using assms(1,3) by (auto simp: db_wf_defs fresh_ids_def)
  ultimately show False using y(2) assms(2) by (simp add: int32_id)
qed

section \<open>Registering\<close>

lemma find_by_username_none:
  assumes "un \<notin> username ` set (users (db s))" and "\<not> db_fails e (db_calls s)"
  shows "user_find_by_username e un s = Inr (None, s\<lparr>db_calls := db_calls s + 1\<rparr>)"
  using assms unfolding user_find_by_username_def by (intro find_one_none) (auto simp: filter_empty_conv)

section \<open>Deleting a group\<close>

lemma group_by_code_ok:
  assumes "db_wf (db s)" and "g \<in> set (groups (db s))" and "\<not> db_fails e (db_calls s)"
  shows "\<exists>x. group_find_by_code e (gcode g) s = Inr (Some x, s\<lparr>db_calls := db_calls s + 1\<rparr>) \<and> group_of_row g x"
proof -
  have "filter (\<lambda>r. gcode r = gcode g) (groups (db s)) = [g]"
    using assms(1,2) by (intro filter_unique) (auto simp: db_wf_defs)
  moreover obtain x where x: "get_group_callback g = Inr x"
    by (simp add: get_group_callback_def)
  ultimately show ?thesis
    using find_one_unique [OF assms(3), of "\<lambda>d. filter (\<lambda>r. gcode r = gcode g) (groups d)" g get_group_callback x]
      get_group_callback_Inr [OF x] x by (auto simp: group_find_by_code_def)
qed

lemma bind_total:
  "\<exists>x s'. m s = Inr (x, s') \<Longrightarrow> (\<And>x s'. \<exists>y s''. k x s' = Inr (y, s'')) \<Longrightarrow> \<exists>y s''. bind m k s = Inr (y, s'')"
  by (auto simp: bind_def)

lemma act_total: "\<exists>x s'. ret y s = Inr (x, s')" "\<exists>x s'. os_do e c s = Inr (x, s')"
  by (simp_all add: ret_def os_do_def)

lemma if_total:
  "\<exists>x s'. m s = Inr (x, s') \<Longrightarrow> \<exists>x s'. n s = Inr (x, s') \<Longrightarrow> \<exists>x s'. (if c then m else n) s = Inr (x, s')"
  by simp

lemma remove_tree_total:
  "\<exists>b s'. remove_tree t e p s = Inr (b, s')"
  "\<exists>b s'. remove_entries es e p s = Inr (b, s')"
  by (induction t and es arbitrary: p s and p s)
    (simp_all only: remove_tree.simps remove_entries.simps Let_def, (intro bind_total act_total if_total | assumption)+)

lemma remove_directory_total: "\<exists>b s'. remove_directory e p s = Inr (b, s') \<and> db s' = db s"
  using remove_tree_total(1) [of "os_tree e (os_calls s) p" e p s] keepsD [OF keeps_remove_directory(2) refl]
  unfolding remove_directory_def by blast

lemma group_remove_ok:
  assumes "group_of_row g x" and "numbers_fit e" and "0 \<le> gid g" and "gid g < 2 ^ 31"
    and "length (gcode g) + 10 \<le> usable e 100" and "\<not> db_fails e (db_calls s)"
  shows "\<exists>s'. group_remove e x s = Inr (0, s') \<and> db s' = delete_group_row (gid g) (db s)"
proof -
  have b: "bind_long e (go_id x) = Inr (gid g)"
    using assms(1-4) bind_long_small [of e "gid g"] by (simp add: group_of_row_def)
  have f: "group_folder e x = Inr (UPLOAD_DIR @ ''/'' @ gcode g)"
    using assms(1,5) by (simp add: group_folder_def group_of_row_def sprintf_malloc_def sprintf_def shown_def UPLOAD_DIR_def)
  let ?s = "s\<lparr>db_calls := db_calls s + 1, db := delete_group_row (gid g) (db s)\<rparr>"
  obtain r s' where "remove_directory e (UPLOAD_DIR @ ''/'' @ gcode g) ?s = Inr (r, s')" "db s' = db ?s"
    using remove_directory_total by blast
  then show ?thesis using assms(6)
    by (simp add: group_remove_def bind_def lift_def b f exec_update_def Let_def ret_def)
qed

section \<open>The demonstration world\<close>

definition ann_logs_in :: http_request where
  "ann_logs_in = demo_request [] [(''username'', ''ann''), (''password'', ''pa'')]"

definition ann_deletes :: http_request where
  "ann_deletes = demo_request as_ann [(''code'', ''AB'')]"

definition demo_token :: string where
  "demo_token = replicate 64 (CHR ''7'')"

lemma ann_deletes_run:
  "endpoint_handler demo_env Delete_Group ann_deletes demo_app =
   Inr (format_200, demo_app\<lparr>db := delete_group_row 1 demo_db, db_calls := 4, os_calls := [Rmdir ''./upload/AB'']\<rparr>)"
  by code_simp

lemma login_ready_ann: "login_ready demo_env ann_logs_in ann demo_app"
  by code_simp

lemma ann_presents: "presented_token demo_env (demo_request as_ann fs) ''TA''"
proof -
  have 1: "request_field (slk demo_env) (header_fields (demo_request as_ann [])) ''Authorization'' = Inr (Some ''Basic VEE='')"
    by code_simp
  have 2: "strtok '' '' ''Basic VEE='' = (Some ''Basic'', ''VEE='')" "fst (strtok [] ''VEE='') = Some ''VEE=''"
    "base64_decode (table_junk demo_env) ''VEE='' = Inr (Some ''TA'')" by code_simp+
  show ?thesis unfolding presented_token_def
    by (rule exI [of _ "''Basic VEE=''"], rule exI [of _ "''VEE=''"], rule exI [of _ "''VEE=''"],
        rule exI [of _ "''TA''"]) (use 1 2 in \<open>simp add: demo_request_def NUL_def\<close>)
qed

section \<open>Properties\<close>



text \<open>
  C6. A request that presents no token of a live session leaves the tables alone, whatever its
  endpoint, unless it logs in or registers.
\<close>

theorem unauthenticated_changes_nothing:
  assumes "endpoint_handler e h request s = Inr (r, s')" and "\<forall>u. \<not> bearer e request u (db s)"
    and "h \<noteq> Login" and "h \<noteq> Register_User"
  shows "db s' = db s"
  using assms by (rule stranger_changes_nothing)

theorem unauthenticated_changes_nothing_witness:
  "db (demo_app\<lparr>db_calls := 0\<rparr>) = demo_db"
proof -
  have r: "endpoint_handler demo_env Delete_Group (demo_request [] [(''code'', ''AB'')]) demo_app
      = Inr (format_401, demo_app\<lparr>db_calls := 0\<rparr>)" by code_simp
  have h: "request_field (slk demo_env) (header_fields (demo_request [] [])) ''Authorization'' = Inr None"
    by code_simp
  have "\<forall>u. \<not> bearer demo_env (demo_request [] [(''code'', ''AB'')]) u (db demo_app)"
    using h by (simp add: bearer_def presented_token_def demo_request_def)
  from unauthenticated_changes_nothing [OF r this] show ?thesis by (simp add: demo_app_def)
qed

text \<open>
  C4. A successful login opens a session: the answer carries the Base64 of a fresh token, and every later
  request with that text in its \<open>Authorization\<close> header acts for the user who logged in. The block for the
  answer must have room for its 101 characters and a NUL.
\<close>

theorem login_opens_session:
  assumes "login_ready e request u s" and "101 < usable e 100"
    and "nul_free (random_hex e (db_calls s + 1) 32)"
  shows "\<exists>encoded s'.
      login e request s = Inr (content_response json_type (show_nat 101) (token_json encoded), s')
    \<and> (\<forall>request2. request_field (slk e) (header_fields request2) ''Authorization'' = Inr (Some (''Basic '' @ encoded))
         \<longrightarrow> \<not> db_fails e (db_calls s') \<longrightarrow> \<not> db_fails e (db_calls s' + 1)
         \<longrightarrow> (\<exists>t s''. get_user_from_request e request2 None s' = Inr ((Some u, t), s'') \<and> db s'' = db s'))"
proof -
  define t where "t = random_hex e (db_calls s + 1) 32"
  obtain d where d: "insert_session (uid u) t (clock e (db_calls s + 1)) (db s) = Some d"
    and r: "login e request s = Inr (content_response json_type (show_nat 101) (token_json (base64_encode t)),
      s\<lparr>db := d, db_calls := db_calls s + 3\<rparr>)"
    using login_response [OF assms(1)] assms(2) by (auto simp: t_def)
  have u: "u \<in> set (users d)" "user_fits u" "numbers_fit e" "t \<noteq> []" "db_wf d"
    using assms(1) d insert_session_wf [OF d] by (auto simp: login_ready_def t_def insert_session_def split: if_splits)
  obtain x where x: "x \<in> set (sessions d)" "stoken x = t" "suser x = uid u"
    using d by (force simp: insert_session_def split: if_splits)
  have "\<exists>k s''. get_user_from_request e request2 None (s\<lparr>db := d, db_calls := db_calls s + 3\<rparr>) = Inr ((Some u, k), s'') \<and> db s'' = d"
    if "request_field (slk e) (header_fields request2) ''Authorization'' = Inr (Some (''Basic '' @ base64_encode t))"
      "\<not> db_fails e (db_calls s + 3)" "\<not> db_fails e (db_calls s + 4)" for request2
    using auth_complete [of e request2 t "s\<lparr>db := d, db_calls := db_calls s + 3\<rparr>" x u None] that assms(3) u x
    by (force simp: basic_header_def t_def add.commute)
  then show ?thesis using r by (intro exI [of _ "base64_encode t"]) (auto simp: add.commute)
qed

theorem login_opens_session_witness:
  "\<exists>encoded s'. login demo_env ann_logs_in demo_app
     = Inr (content_response json_type (show_nat 101) (token_json encoded), s')"
proof -
  have "101 < usable demo_env 100" "nul_free (random_hex demo_env (db_calls demo_app + 1) 32)" by code_simp+
  from login_opens_session [OF login_ready_ann this] show ?thesis by blast
qed

text \<open>
  C23. When the block that \<open>malloc(100)\<close> returns has no more than 101 usable bytes, every successful login
  writes its answer past the end of the block.
\<close>

theorem login_answer_overflows:
  assumes "login_ready e request u s" and "usable e 100 \<le> 101"
  shows "login e request s = Inl Out_Of_Bounds"
  using login_response [OF assms(1)] assms(2) by auto

theorem login_answer_overflows_witness:
  "login (demo_env\<lparr>usable := (\<lambda>n. if n = 100 then 100 else n + 8)\<rparr>) ann_logs_in demo_app = Inl Out_Of_Bounds"
proof -
  have "login_ready (demo_env\<lparr>usable := (\<lambda>n. if n = 100 then 100 else n + 8)\<rparr>) ann_logs_in ann demo_app"
    by code_simp
  from login_answer_overflows [OF this] show ?thesis by simp
qed

text \<open>
  C5. Logging out revokes the token: after a logout that answers 200, no request that presents the same
  token acts for anybody.
\<close>

theorem logout_revokes:
  assumes "endpoint_handler e Logout request s = Inr (r, s')" and "is_ok r"
    and "db_wf (db s)" and "next_session (db s) \<le> 2 ^ 31"
    and "presented_token e request t" and "presented_token e request2 t"
  shows "\<not> bearer e request2 u (db s')"
proof -
  obtain x where x: "x \<in> set (sessions (db s))" "presented_token e request (stoken x)"
    "db s' = delete_session_row (int32 (sid x)) (db s)"
    using endpoint_promise [OF assms(1)] assms(2) by (auto simp: promise_def)
  have "presented_token e request2 (stoken x)"
    using presented_token_unique [OF x(2) assms(5)] assms(6) by simp
  then show ?thesis using logged_out_no_bearer [OF assms(3,4) x(1)] x(3) by simp
qed

theorem logout_revokes_witness:
  "\<forall>u. \<not> bearer demo_env (demo_request as_ann [(''code'', ''AB'')]) u (delete_session_row 1 demo_db)"
proof
  fix u
  have r: "endpoint_handler demo_env Logout (demo_request as_ann []) demo_app
      = Inr (format_200, demo_app\<lparr>db := delete_session_row 1 demo_db, db_calls := 4\<rparr>)" by code_simp
  have "next_session (db demo_app) \<le> 2 ^ 31" by (simp add: demo_app_def demo_db_def)
  moreover have "db_wf (db demo_app)" using demo_db_wf by (simp add: demo_app_def)
  ultimately show "\<not> bearer demo_env (demo_request as_ann [(''code'', ''AB'')]) u (delete_session_row 1 demo_db)"
    using logout_revokes [OF r is_ok_formats(8) _ _ ann_presents ann_presents] by simp
qed


definition carl_registers :: http_request where
  "carl_registers = demo_request [] [(''username'', ''carl''), (''password'', ''pc''), (''display_name'', ''C'')]"


text \<open>
  C19. The owner of a group can delete it: with a valid token, when no statement fails and the numbers and
  the path fit their blocks, the answer is 200 and the group is gone with its members, directories and
  files.
\<close>

theorem owner_deletes_group:
  assumes "bare_has e request ''code'' (gcode g)"
    and "request_field (slk e) (header_fields request) ''Authorization'' = Inr (Some (basic_header (stoken x)))"
    and "nul_free (stoken x)" and "stoken x \<noteq> []" and "db_wf (db s)" and "x \<in> set (sessions (db s))"
    and "u \<in> set (users (db s))" and "suser x = uid u" and "user_fits u" and "numbers_fit e"
    and "g \<in> set (groups (db s))" and "gowner g = uid u" and "gid g < 2 ^ 31"
    and "length (gcode g) + 10 \<le> usable e 100" and "\<forall>n. \<not> db_fails e n"
  shows "\<exists>s'. endpoint_handler e Delete_Group request s = Inr (format_200, s') \<and> db s' = delete_group_row (gid g) (db s)
    \<and> gid g \<notin> gid ` set (groups (db s'))"
proof -
  obtain t where a: "get_user_from_request e request None s = Inr ((Some u, t), s\<lparr>db_calls := db_calls s + 2\<rparr>)"
    using auth_complete [OF assms(2-6) refl assms(7-10), of None] assms(15) by auto
  obtain y where y: "group_find_by_code e (gcode g) (s\<lparr>db_calls := db_calls s + 2\<rparr>) = Inr (Some y, s\<lparr>db_calls := db_calls s + 3\<rparr>)"
    "group_of_row g y"
    using group_by_code_ok [of "s\<lparr>db_calls := db_calls s + 2\<rparr>" g e] assms(5,11,15) by auto
  have "0 \<le> gid g" using assms(5,11) by (force simp: db_wf_defs fresh_ids_def)
  then obtain s' where "group_remove e y (s\<lparr>db_calls := db_calls s + 3\<rparr>) = Inr (0, s')"
    "db s' = delete_group_row (gid g) (db s)"
    using group_remove_ok [OF y(2) assms(10) _ assms(13,14)] assms(15) by fastforce
  then show ?thesis using a y assms(1,12)
    by (simp add: delete_group_def bind_def lift_def ret_def bare_has_def group_of_row_def
        delete_group_row_def delete_groups_def Let_def image_iff)
qed

theorem owner_deletes_group_witness:
  "\<exists>s'. endpoint_handler demo_env Delete_Group ann_deletes demo_app = Inr (format_200, s')
    \<and> db s' = delete_group_row 1 demo_db"
proof -
  have 1: "bare_has demo_env ann_deletes ''code'' (gcode demo_group)"
    "request_field (slk demo_env) (header_fields ann_deletes) ''Authorization'' = Inr (Some (basic_header ''TA''))"
    "nul_free ''TA''" unfolding bare_has_def by code_simp+
  have 2: "db_wf (db demo_app)" "\<lparr>sid = 1, suser = 1, stoken = ''TA'', screated = ''then''\<rparr> \<in> set (sessions (db demo_app))"
    "ann \<in> set (users (db demo_app))" "user_fits ann" "numbers_fit demo_env" "demo_group \<in> set (groups (db demo_app))"
    "gowner demo_group = uid ann" "gid demo_group < 2 ^ 31" "length (gcode demo_group) + 10 \<le> usable demo_env 100" by code_simp+
  have "\<forall>n. \<not> db_fails demo_env n" by (simp add: demo_env_def)
  from owner_deletes_group [OF 1(1), of "\<lparr>sid = 1, suser = 1, stoken = ''TA'', screated = ''then''\<rparr>" demo_app ann] 1 2 this
  show ?thesis by (auto simp: ann_def demo_group_def demo_app_def)
qed

definition bob_saves :: http_request where
  "bob_saves =
     demo_request as_bob [(''name'', ''x''), (''size'', ''5''), (''path'', ''AB/x''), (''group_id'', ''1'')]"


text \<open>
  C2. Whatever requests the server gets, in whatever order, and whichever statements and system calls
  fail, the tables keep the schema: keys and tokens are unique, and every reference points to a row.
\<close>

theorem requests_keep_schema:
  assumes "run_http e fs code0 junk requests s = Inr s'" and "db_wf (db s)"
  shows "db_wf (db s')"
  using assms by (rule run_http_keeps)

definition ann_logs_out :: string where
  "ann_logs_out = request_text ''POST'' ''/logout'' [] ''HTTP/1.1'' [(''Authorization'', ''Basic VEE='')] []"

lemma logout_header:
  assumes "request_field (slk e) (header_fields q) ''Authorization'' = request_field (slk e) (header_fields q') ''Authorization''"
  shows "logout e q = logout e q'"
  using assms by (simp add: logout_def get_user_from_request_def)

lemma ann_logs_out_served:
  assumes srv: "ready_server (\<lambda>b. []) junk srv"
  shows "serve demo_env (\<lambda>_. None) 0 srv ann_logs_out demo_app
    = Inr ([format_200, takeWhile (\<lambda>c. c \<noteq> NUL) format_200], demo_app\<lparr>db := delete_session_row 1 demo_db, db_calls := 4\<rparr>)"
proof -
  have ok: "word_ok ''POST''" "word_ok ''/logout''" "word_ok ''HTTP/1.1''" "header_ok (''Authorization'', ''Basic VEE='')"
    by (simp_all add: word_ok_def header_ok_def NUL_def nul_free_def)
  then obtain req where req: "http_request_constructor (\<lambda>b. []) ann_logs_out = Inr req"
    "holds (\<lambda>b. []) (header_fields req) [(''Authorization'', ''Basic VEE='')]"
    using constructor_holds [of "''POST''" "''/logout''" "''HTTP/1.1''" "[]" "[(''Authorization'', ''Basic VEE='')]" "[]" "\<lambda>b. []"]
    by (auto simp: ann_logs_out_def)
  have "request_field (\<lambda>b. []) (header_fields req) ''Authorization'' = Inr (Some ''Basic VEE='')"
    by (subst holds_field [OF req(2)]) (simp_all add: NUL_def nul_free_def)
  moreover have "request_field (slk demo_env) (header_fields (demo_request as_ann [])) ''Authorization'' = Inr (Some ''Basic VEE='')"
    "logout demo_env (demo_request as_ann []) demo_app = Inr (format_200, demo_app\<lparr>db := delete_session_row 1 demo_db, db_calls := 4\<rparr>)"
    by code_simp+
  ultimately have l: "logout demo_env req demo_app = Inr (format_200, demo_app\<lparr>db := delete_session_row 1 demo_db, db_calls := 4\<rparr>)"
    using logout_header [of demo_env req "demo_request as_ann []"] by (simp add: demo_env_def)
  have r: "(Logout, ''/logout'', [POST]) \<in> set route_table" "method_name POST = ''POST''" by code_simp+
  have "request_ok (method_name POST) ''/logout'' [] ''HTTP/1.1'' [(''Authorization'', ''Basic VEE='')] []"
    using ok by (simp add: request_ok_def r(2))
  from route_dispatch [OF srv r(1) this, of "\<lambda>_. None" 0 "endpoint_handler demo_env" demo_app]
  show ?thesis using req(1) l by (auto simp: serve_def ann_logs_out_def r(2) demo_env_def)
qed

lemma ann_logs_out_run:
  "\<exists>s'. run_http demo_env (\<lambda>_. None) 0 [0, 0, 0] [ann_logs_out] demo_app = Inr s' \<and> db s' = delete_session_row 1 demo_db"
proof -
  obtain srv where srv: "ready_server (\<lambda>b. []) [0, 0, 0] srv" using ready_server_exists by blast
  then obtain s0 where s0: "http_server_constructor 3 0 0 0 8000 = Inr s0" "http_init (\<lambda>b. []) [0, 0, 0] s0 = Inr srv"
    by (auto simp: ready_server_def)
  then show ?thesis using ann_logs_out_served [OF srv] by (simp add: run_http_def serve_all_def demo_env_def)
qed

theorem requests_keep_schema_witness: "db_wf (delete_session_row 1 demo_db)"
proof -
  obtain s' where s': "run_http demo_env (\<lambda>_. None) 0 [0, 0, 0] [ann_logs_out] demo_app = Inr s'"
    "db s' = delete_session_row 1 demo_db"
    using ann_logs_out_run by blast
  have "db_wf (db demo_app)" using demo_db_wf by (simp add: demo_app_def)
  from requests_keep_schema [OF s'(1) this] show ?thesis by (simp add: s'(2))
qed

end
