(* ===== verification/Thread_Pool.thy ===== *)
theory Thread_Pool
  imports Fifo_Queue
begin

text \<open>
  The thread pool of \<open>src/systems/thread_pool.c\<close> as a step relation. Workers run
  \<open>generic_thread_function\<close>, clients run \<open>add_work\<close>; one mutex and one condition variable. A step
  is one statement of one thread. \<open>pthread_cond_wait\<close> is three steps: it releases the mutex and
  blocks, a signal (or, as POSIX allows, nothing at all) wakes the thread, and it takes the mutex
  again. \<open>added\<close> and \<open>started\<close> record the jobs pushed and popped so far.

  The shutdown is \<open>active = 0\<close> here; the destructor itself is in \<open>Pool_Shutdown\<close>.
\<close>

section \<open>The state\<close>

datatype 'j worker_pc =
    At_Test | At_Lock | In_Wait | Blocked | Woken | Checking | Popped "'j option" | Running "'j option" | Exited

datatype 'j client_pc = C_Idle | C_Locked 'j | C_Pushed | C_Signalled

datatype agent = Worker nat | Client nat

record 'j thread_pool =
  active :: bool
  work :: "'j queue"
  lock :: "agent option"
  wpc :: "nat \<Rightarrow> 'j worker_pc"
  cpc :: "nat \<Rightarrow> 'j client_pc"
  added :: "'j list"
  started :: "'j list"

definition thread_pool_constructor :: "'j thread_pool" where
  "thread_pool_constructor =
     \<lparr>active = True, work = queue_constructor, lock = None, wpc = (\<lambda>_. At_Test),
      cpc = (\<lambda>_. C_Idle), added = [], started = []\<rparr>"

text \<open>\<open>sizeof(struct ThreadJob)\<close>.\<close>

definition sizeof_job :: nat where "sizeof_job = 16"

section \<open>Steps\<close>

inductive pool_step :: "nat \<Rightarrow> 'j thread_pool \<Rightarrow> 'j thread_pool \<Rightarrow> bool" for num_threads where
  test_active: "i < num_threads \<Longrightarrow> wpc s i = At_Test \<Longrightarrow> active s \<Longrightarrow>
    pool_step num_threads s (s\<lparr>wpc := (wpc s)(i := At_Lock)\<rparr>)"
| test_exit: "i < num_threads \<Longrightarrow> wpc s i = At_Test \<Longrightarrow> \<not> active s \<Longrightarrow>
    pool_step num_threads s (s\<lparr>wpc := (wpc s)(i := Exited)\<rparr>)"
| worker_lock: "i < num_threads \<Longrightarrow> wpc s i = At_Lock \<Longrightarrow> lock s = None \<Longrightarrow>
    pool_step num_threads s (s\<lparr>wpc := (wpc s)(i := In_Wait), lock := Some (Worker i)\<rparr>)"
| worker_block: "i < num_threads \<Longrightarrow> wpc s i = In_Wait \<Longrightarrow>
    pool_step num_threads s (s\<lparr>wpc := (wpc s)(i := Blocked), lock := None\<rparr>)"
| spurious: "i < num_threads \<Longrightarrow> wpc s i = Blocked \<Longrightarrow>
    pool_step num_threads s (s\<lparr>wpc := (wpc s)(i := Woken)\<rparr>)"
| reacquire: "i < num_threads \<Longrightarrow> wpc s i = Woken \<Longrightarrow> lock s = None \<Longrightarrow>
    pool_step num_threads s (s\<lparr>wpc := (wpc s)(i := Checking), lock := Some (Worker i)\<rparr>)"
| take_job: "i < num_threads \<Longrightarrow> wpc s i = Checking \<Longrightarrow> peek (work s) = Inr (Some j) \<Longrightarrow>
    pop (work s) = Inr w \<Longrightarrow>
    pool_step num_threads s
      (s\<lparr>wpc := (wpc s)(i := Popped (Some j)), work := w, started := started s @ [j]\<rparr>)"
| take_nothing: "i < num_threads \<Longrightarrow> wpc s i = Checking \<Longrightarrow> peek (work s) = Inr None \<Longrightarrow>
    pool_step num_threads s (s\<lparr>wpc := (wpc s)(i := Popped None)\<rparr>)"
| worker_unlock: "i < num_threads \<Longrightarrow> wpc s i = Popped p \<Longrightarrow>
    pool_step num_threads s (s\<lparr>wpc := (wpc s)(i := Running p), lock := None\<rparr>)"
| job_done: "i < num_threads \<Longrightarrow> wpc s i = Running p \<Longrightarrow>
    pool_step num_threads s (s\<lparr>wpc := (wpc s)(i := At_Test)\<rparr>)"
| client_lock: "cpc s c = C_Idle \<Longrightarrow> lock s = None \<Longrightarrow>
    pool_step num_threads s (s\<lparr>cpc := (cpc s)(c := C_Locked j), lock := Some (Client c)\<rparr>)"
| client_push: "cpc s c = C_Locked j \<Longrightarrow> push (work s) j sizeof_job = Inr w \<Longrightarrow>
    pool_step num_threads s (s\<lparr>cpc := (cpc s)(c := C_Pushed), work := w, added := added s @ [j]\<rparr>)"
| signal_one: "cpc s c = C_Pushed \<Longrightarrow> i < num_threads \<Longrightarrow> wpc s i = Blocked \<Longrightarrow>
    pool_step num_threads s
      (s\<lparr>cpc := (cpc s)(c := C_Signalled), wpc := (wpc s)(i := Woken)\<rparr>)"
| signal_none: "cpc s c = C_Pushed \<Longrightarrow> \<forall>i < num_threads. wpc s i \<noteq> Blocked \<Longrightarrow>
    pool_step num_threads s (s\<lparr>cpc := (cpc s)(c := C_Signalled)\<rparr>)"
| client_unlock: "cpc s c = C_Signalled \<Longrightarrow>
    pool_step num_threads s (s\<lparr>cpc := (cpc s)(c := C_Idle), lock := None\<rparr>)"
| shutdown: "pool_step num_threads s (s\<lparr>active := False\<rparr>)"

inductive pool_reachable :: "nat \<Rightarrow> 'j thread_pool \<Rightarrow> bool" for num_threads where
  reach_init: "pool_reachable num_threads thread_pool_constructor"
| reach_step: "pool_reachable num_threads s \<Longrightarrow> pool_step num_threads s s' \<Longrightarrow>
    pool_reachable num_threads s'"

section \<open>The invariant\<close>

fun worker_holds :: "'j worker_pc \<Rightarrow> bool" where
  "worker_holds In_Wait = True"
| "worker_holds Checking = True"
| "worker_holds (Popped p) = True"
| "worker_holds _ = False"

fun client_holds :: "'j client_pc \<Rightarrow> bool" where
  "client_holds C_Idle = False"
| "client_holds _ = True"

text \<open>The mutex is held exactly by the thread that is inside its critical section.\<close>

definition lock_inv :: "'j thread_pool \<Rightarrow> bool" where
  "lock_inv s \<longleftrightarrow>
     (\<forall>i. worker_holds (wpc s i) \<longleftrightarrow> lock s = Some (Worker i))
   \<and> (\<forall>c. client_holds (cpc s c) \<longleftrightarrow> lock s = Some (Client c))"

text \<open>No job is lost, duplicated or overtaken.\<close>

definition job_inv :: "'j thread_pool \<Rightarrow> bool" where
  "job_inv s \<longleftrightarrow> queue_wf (work s) \<and> started s @ contents (work s) = added s"

lemma lock_inv_worker_moves:
  assumes "lock_inv s" and "worker_holds (wpc s i) = worker_holds p"
  shows "lock_inv (s\<lparr>wpc := (wpc s)(i := p)\<rparr>)"
  using assms by (simp add: lock_inv_def)

lemma lock_inv_step: "pool_step n s s' \<Longrightarrow> lock_inv s \<Longrightarrow> lock_inv s'"
proof (induction rule: pool_step.induct)
  case (worker_lock i s)
  then show ?case by (auto simp: lock_inv_def)
next
  case (worker_block i s)
  then have "lock s = Some (Worker i)" by (auto simp: lock_inv_def)
  with worker_block show ?case by (auto simp: lock_inv_def)
next
  case (worker_unlock i s p)
  then have "lock s = Some (Worker i)" by (auto simp: lock_inv_def)
  with worker_unlock show ?case by (auto simp: lock_inv_def)
next
  case (client_unlock s c)
  then have "lock s = Some (Client c)" by (auto simp: lock_inv_def)
  with client_unlock show ?case by (auto simp: lock_inv_def)
next
  case (take_job i s j w)
  then have "lock s = Some (Worker i)" by (auto simp: lock_inv_def)
  with take_job show ?case by (auto simp: lock_inv_def)
next
  case (client_push s c j w)
  then have "lock s = Some (Client c)" by (auto simp: lock_inv_def)
  with client_push show ?case by (auto simp: lock_inv_def)
next
  case (signal_one s c i)
  then have "lock s = Some (Client c)" by (auto simp: lock_inv_def)
  with signal_one show ?case by (auto simp: lock_inv_def)
next
  case (signal_none s c)
  then have "lock s = Some (Client c)" by (auto simp: lock_inv_def)
  with signal_none show ?case by (auto simp: lock_inv_def)
qed (auto intro: lock_inv_worker_moves simp: lock_inv_def [of "active_update _ _"]
    lock_inv_def [of "cpc_update _ _"], auto simp: lock_inv_def)

lemma job_inv_step: "pool_step n s s' \<Longrightarrow> job_inv s \<Longrightarrow> job_inv s'"
proof (induction rule: pool_step.induct)
  case (take_job i s j w)
  then have wf: "queue_wf (work s)" by (simp add: job_inv_def)
  obtain js where "contents (work s) = j # js"
    using take_job(3) peek_eq [OF wf] by (auto split: list.splits)
  then show ?case using take_job pop_eq [OF wf] by (auto simp: job_inv_def)
next
  case (client_push s c j w)
  then have wf: "queue_wf (work s)" by (simp add: job_inv_def)
  then show ?case using client_push push_eq [OF wf, of sizeof_job j]
    by (auto simp: job_inv_def sizeof_job_def)
qed (auto simp: job_inv_def)

lemma reachable_inv: "pool_reachable n s \<Longrightarrow> lock_inv s \<and> job_inv s"
proof (induction rule: pool_reachable.induct)
  case reach_init
  then show ?case by (auto simp: thread_pool_constructor_def lock_inv_def job_inv_def)
next
  case (reach_step s s')
  then show ?case using lock_inv_step job_inv_step by blast
qed

section \<open>Progress\<close>

text \<open>A thread that holds the mutex can always go on, whatever the queue holds.\<close>

lemma holder_progress:
  assumes "pool_reachable n s" and "lock s = Some (Worker i)" and "i < n"
  shows "\<exists>s'. pool_step n s s' \<and> wpc s' i \<noteq> wpc s i"
proof -
  have inv: "lock_inv s" "job_inv s" using reachable_inv [OF assms(1)] by auto
  then have h: "worker_holds (wpc s i)" using assms(2) by (auto simp: lock_inv_def)
  have wf: "queue_wf (work s)" using inv(2) by (simp add: job_inv_def)
  show ?thesis
  proof (cases "wpc s i")
    case In_Wait
    then show ?thesis using worker_block [OF assms(3) In_Wait] by (intro exI conjI) (assumption, simp)
  next
    case Checking
    show ?thesis
    proof (cases "contents (work s)")
      case Nil
      then have "peek (work s) = Inr None" using peek_eq [OF wf] by simp
      from take_nothing [OF assms(3) Checking this] Checking show ?thesis
        by (intro exI conjI) (assumption, simp)
    next
      case (Cons j js)
      then have "peek (work s) = Inr (Some j)" using peek_eq [OF wf] by simp
      moreover obtain w where "pop (work s) = Inr w" using pop_eq [OF wf] by blast
      ultimately have "pool_step n s
          (s\<lparr>wpc := (wpc s)(i := Popped (Some j)), work := w, started := started s @ [j]\<rparr>)"
        using take_job [OF assms(3) Checking] by blast
      then show ?thesis using Checking by (intro exI conjI) (assumption, simp)
    qed
  next
    case (Popped p)
    then show ?thesis using worker_unlock [OF assms(3) Popped]
      by (intro exI conjI) (assumption, simp)
  qed (use h in auto)
qed

text \<open>Case analysis of a step.\<close>

inductive_cases pool_stepE: "pool_step n s s'"

text \<open>
  A worker waits before it has looked at the queue. A job added while the worker is not yet
  waiting is signalled to nobody, and the worker then waits although the queue holds a job.
\<close>

definition lost_wakeup :: "nat \<Rightarrow> 'j thread_pool \<Rightarrow> bool" where
  "lost_wakeup n s \<longleftrightarrow> active s \<and> contents (work s) \<noteq> [] \<and> lock s = None
     \<and> (\<forall>i < n. wpc s i = Blocked) \<and> (\<forall>c. cpc s c = C_Idle)"

lemma worker_blocks:
  assumes "pool_reachable n s" and "i < n" and "wpc s i = At_Test" and "active s" and "lock s = None"
  shows "pool_reachable n (s\<lparr>wpc := (wpc s)(i := Blocked)\<rparr>)"
proof -
  let ?s1 = "s\<lparr>wpc := (wpc s)(i := At_Lock)\<rparr>"
  let ?s2 = "?s1\<lparr>wpc := (wpc ?s1)(i := In_Wait), lock := Some (Worker i)\<rparr>"
  let ?s3 = "?s2\<lparr>wpc := (wpc ?s2)(i := Blocked), lock := None\<rparr>"
  have "pool_reachable n ?s1" using assms by (intro reach_step [OF assms(1)] test_active)
  then have "pool_reachable n ?s2" by (rule reach_step) (rule worker_lock; use assms in simp)
  then have "pool_reachable n ?s3" by (rule reach_step) (rule worker_block; use assms in simp)
  moreover have "?s3 = s\<lparr>wpc := (wpc s)(i := Blocked)\<rparr>" using assms(5) by simp
  ultimately show ?thesis by simp
qed

text \<open>A client adds a job while no worker waits.\<close>

lemma client_adds:
  assumes "pool_reachable n s" and "cpc s c = C_Idle" and "lock s = None"
    and "\<forall>i < n. wpc s i \<noteq> Blocked"
  shows "\<exists>w. push (work s) j sizeof_job = Inr w \<and> contents w = contents (work s) @ [j]
    \<and> pool_reachable n (s\<lparr>work := w, added := added s @ [j]\<rparr>)"
proof -
  have wf: "queue_wf (work s)" using reachable_inv [OF assms(1)] by (simp add: job_inv_def)
  obtain w where w: "push (work s) j sizeof_job = Inr w" "contents w = contents (work s) @ [j]"
    using push_eq [OF wf, of sizeof_job j] by (auto simp: sizeof_job_def)
  let ?s1 = "s\<lparr>cpc := (cpc s)(c := C_Locked j), lock := Some (Client c)\<rparr>"
  let ?s2 = "?s1\<lparr>cpc := (cpc ?s1)(c := C_Pushed), work := w, added := added ?s1 @ [j]\<rparr>"
  let ?s3 = "?s2\<lparr>cpc := (cpc ?s2)(c := C_Signalled)\<rparr>"
  let ?s4 = "?s3\<lparr>cpc := (cpc ?s3)(c := C_Idle), lock := None\<rparr>"
  have "pool_reachable n ?s1" using assms by (intro reach_step [OF assms(1)] client_lock)
  then have "pool_reachable n ?s2" by (rule reach_step) (rule client_push; use w in simp)
  then have "pool_reachable n ?s3" by (rule reach_step) (rule signal_none; use assms in simp)
  then have "pool_reachable n ?s4" by (rule reach_step) (rule client_unlock; simp)
  moreover have "?s4 = s\<lparr>work := w, added := added s @ [j]\<rparr>" using assms(2,3)
    by (simp add: fun_upd_idem)
  ultimately show ?thesis using w by auto
qed

lemma all_block:
  assumes "pool_reachable n s" and "active s" and "lock s = None" and "k \<le> n"
    and "\<forall>i < n. wpc s i = At_Test"
  shows "\<exists>s'. pool_reachable n s' \<and> active s' \<and> lock s' = None \<and> work s' = work s \<and> cpc s' = cpc s
    \<and> (\<forall>i < k. wpc s' i = Blocked) \<and> (\<forall>i < n. k \<le> i \<longrightarrow> wpc s' i = At_Test)"
  using assms(4)
proof (induction k)
  case 0
  then show ?case using assms by auto
next
  case (Suc k)
  then obtain s' where s': "pool_reachable n s'" "active s'" "lock s' = None" "work s' = work s"
    "cpc s' = cpc s" "\<forall>i < k. wpc s' i = Blocked" "\<forall>i < n. k \<le> i \<longrightarrow> wpc s' i = At_Test"
    by auto
  have "pool_reachable n (s'\<lparr>wpc := (wpc s')(k := Blocked)\<rparr>)"
    using s' Suc.prems by (intro worker_blocks) auto
  then show ?case using s' by (intro exI [of _ "s'\<lparr>wpc := (wpc s')(k := Blocked)\<rparr>"])
      (auto simp: less_Suc_eq)
qed

lemma lost_wakeup_reachable: "\<exists>s :: 'j thread_pool. pool_reachable n s \<and> lost_wakeup n s"
proof -
  fix j :: 'j
  let ?s0 = "thread_pool_constructor :: 'j thread_pool"
  obtain w where w: "contents w = contents (work ?s0) @ [j]"
    "pool_reachable n (?s0\<lparr>work := w, added := added ?s0 @ [j]\<rparr>)"
    using client_adds [OF reach_init, of 0 n j] by (auto simp: thread_pool_constructor_def)
  obtain s' where "pool_reachable n s'" "active s'" "lock s' = None" "work s' = w"
    "cpc s' = cpc ?s0" "\<forall>i < n. wpc s' i = Blocked"
    using all_block [OF w(2), of n] by (auto simp: thread_pool_constructor_def)
  then show ?thesis using w(1)
    by (intro exI [of _ s']) (auto simp: lost_wakeup_def thread_pool_constructor_def)
qed

section \<open>Properties\<close>

text \<open>
  C10. In every reachable state of a pool of any size at most one thread, worker or client, is inside
  its critical section, and the jobs taken are a prefix of the jobs added, in order: none is lost,
  run twice or overtaken.
\<close>

theorem pool_exclusive_and_fifo:
  assumes "pool_reachable n s"
  shows "started s @ contents (work s) = added s
    \<and> (worker_holds (wpc s i) \<and> worker_holds (wpc s k) \<longrightarrow> i = k)
    \<and> (client_holds (cpc s c) \<and> client_holds (cpc s d) \<longrightarrow> c = d)
    \<and> \<not> (worker_holds (wpc s i) \<and> client_holds (cpc s c))"
  using reachable_inv [OF assms] by (auto simp: lock_inv_def job_inv_def)

theorem pool_exclusive_and_fifo_witness:
  "\<exists>s :: nat thread_pool. pool_reachable 1 s \<and> added s = [5]
    \<and> started s @ contents (work s) = added s \<and> \<not> (worker_holds (wpc s 0) \<and> client_holds (cpc s 0))"
proof -
  let ?s0 = "thread_pool_constructor :: nat thread_pool"
  obtain w where w: "contents w = contents (work ?s0) @ [5]"
    "pool_reachable 1 (?s0\<lparr>work := w, added := added ?s0 @ [5]\<rparr>)"
    using client_adds [OF reach_init, of 0 1 5] by (auto simp: thread_pool_constructor_def)
  have "added (?s0\<lparr>work := w, added := added ?s0 @ [5]\<rparr>) = [5]" by (simp add: thread_pool_constructor_def)
  then show ?thesis using w(2) pool_exclusive_and_fifo [OF w(2), of 0 0 0 0] by metis
qed

text \<open>
  A worker that holds the mutex always has a next step: no state of the queue blocks it.
\<close>

lemma pool_holder_progress:
  assumes "pool_reachable n s" and "lock s = Some (Worker i)" and "i < n"
  shows "\<exists>s'. pool_step n s s' \<and> wpc s' i \<noteq> wpc s i"
  using assms by (rule holder_progress)

lemma pool_holder_progress_witness:
  "\<exists>(s :: nat thread_pool) s'. pool_reachable 1 s \<and> lock s = Some (Worker 0) \<and> pool_step 1 s s' \<and> wpc s' 0 \<noteq> wpc s 0"
proof -
  let ?s0 = "thread_pool_constructor :: nat thread_pool"
  let ?s1 = "?s0\<lparr>wpc := (wpc ?s0)(0 := At_Lock)\<rparr>"
  let ?s2 = "?s1\<lparr>wpc := (wpc ?s1)(0 := In_Wait), lock := Some (Worker 0)\<rparr>"
  have "pool_reachable 1 ?s1"
    by (rule reach_step [OF reach_init], rule test_active) (simp_all add: thread_pool_constructor_def)
  then have r: "pool_reachable 1 ?s2"
    by (rule reach_step) (rule worker_lock; simp add: thread_pool_constructor_def)
  have l: "lock ?s2 = Some (Worker 0)" by simp
  from pool_holder_progress [OF r l zero_less_one]
  obtain s' where "pool_step 1 ?s2 s' \<and> wpc s' 0 \<noteq> wpc ?s2 0" by (rule exE)
  with r l show ?thesis by (intro exI [of _ ?s2] exI [of _ s'] conjI) (assumption | erule conjunct1 conjunct2)+
qed

text \<open>
  C33. A wake-up can be lost: for every number of workers a state is reachable in which the pool is
  active, a job is queued, the mutex is free, no client is busy, and every worker is blocked waiting.
\<close>

theorem pool_lost_wakeup: "\<exists>s :: 'j thread_pool. pool_reachable n s \<and> lost_wakeup n s"
  by (rule lost_wakeup_reachable)

end
