(* ===== verification/Http_Workers.thy ===== *)
theory Http_Workers
  imports Session_Life Thread_Pool "HOL-Library.Multiset"
begin

text \<open>
  \<open>http_launch\<close> with the thread pool: the main loop is a client of the pool that adds the requests it
  accepts, and the workers run \<open>http_handler\<close> on the shared database. A handler is one step here, from
  its request to its answer; what happens when the handlers' own steps interleave in the parser is in
  \<open>Parser_Race\<close>.
\<close>

section \<open>The server\<close>

record http_world =
  worker_pool :: "string thread_pool"
  tables :: app
  handled :: "string list"
  replies :: "string list list"
  crashed :: "fault option"

inductive http_step :: "env \<Rightarrow> file_system \<Rightarrow> int \<Rightarrow> endpoint http_server \<Rightarrow> nat \<Rightarrow> http_world \<Rightarrow> http_world \<Rightarrow> bool"
  for e fs code0 srv num_threads where
  pool_moves: "crashed w = None \<Longrightarrow> pool_step num_threads (worker_pool w) p \<Longrightarrow>
    \<forall>i j. wpc (worker_pool w) i = Running (Some j) \<longrightarrow> wpc p i = Running (Some j) \<Longrightarrow>
    http_step e fs code0 srv num_threads w (w\<lparr>worker_pool := p\<rparr>)"
| handles: "crashed w = None \<Longrightarrow> i < num_threads \<Longrightarrow> wpc (worker_pool w) i = Running (Some r) \<Longrightarrow>
    serve e fs code0 srv r (tables w) = Inr (reply, s) \<Longrightarrow>
    http_step e fs code0 srv num_threads w
      (w\<lparr>worker_pool := (worker_pool w)\<lparr>wpc := (wpc (worker_pool w))(i := At_Test)\<rparr>, tables := s,
         handled := handled w @ [r], replies := replies w @ [reply]\<rparr>)"
| crashes: "crashed w = None \<Longrightarrow> i < num_threads \<Longrightarrow> wpc (worker_pool w) i = Running (Some r) \<Longrightarrow>
    serve e fs code0 srv r (tables w) = Inl f \<Longrightarrow>
    http_step e fs code0 srv num_threads w (w\<lparr>crashed := Some f\<rparr>)"

definition launched :: "app \<Rightarrow> http_world" where
  "launched s = \<lparr>worker_pool = thread_pool_constructor, tables = s, handled = [], replies = [], crashed = None\<rparr>"

section \<open>The jobs that are being worked on\<close>

fun job_of :: "'j worker_pc \<Rightarrow> 'j list" where
  "job_of (Popped (Some j)) = [j]"
| "job_of (Running (Some j)) = [j]"
| "job_of _ = []"

definition in_work :: "nat \<Rightarrow> 'j thread_pool \<Rightarrow> 'j multiset" where
  "in_work n p = (\<Sum>i < n. mset (job_of (wpc p i)))"

lemma in_work_update:
  assumes "i < n" and "wpc p' = (wpc p)(i := pc)"
  shows "in_work n p' + mset (job_of (wpc p i)) = in_work n p + mset (job_of pc)"
proof -
  have "(\<Sum>k \<in> {..<n} - {i}. mset (job_of (wpc p' k))) = (\<Sum>k \<in> {..<n} - {i}. mset (job_of (wpc p k)))"
    by (rule sum.cong) (simp_all add: assms(2))
  then show ?thesis using assms
    by (simp add: in_work_def sum.remove [of "{..<n}" i])
qed

lemma in_work_same: "wpc p' = wpc p \<Longrightarrow> in_work n p' = in_work n p"
  by (simp add: in_work_def)

lemma in_work_step:
  assumes "pool_step n p p'"
    and "\<forall>i j. wpc p i = Running (Some j) \<longrightarrow> wpc p' i = Running (Some j)"
  shows "mset (started p') + in_work n p = mset (started p) + in_work n p'"
  using assms
proof (cases rule: pool_step.cases)
  case (worker_unlock i q)
  then show ?thesis using in_work_update [of i n p' p "Running q"] by (cases q) simp_all
next
  case (job_done i q)
  then have "q = None" using assms(2) by (cases q) (auto dest: spec [of _ i])
  then show ?thesis using job_done in_work_update [of i n p' p At_Test] by simp
next
  case (take_job i j w)
  then show ?thesis using in_work_update [of i n p' p "Popped (Some j)"] by simp
next
  case (signal_one c i)
  then show ?thesis using in_work_update [of i n p' p Woken] by simp
next
  case (take_nothing i)
  then show ?thesis using in_work_update [of i n p' p "Popped None"] by simp
qed (auto dest: in_work_update [of _ n p' p] intro: in_work_same [symmetric])

section \<open>The sequential server behind it\<close>

text \<open>The answers of the sequential server to a list of requests, and its state after them.\<close>

definition serve_log :: "env \<Rightarrow> file_system \<Rightarrow> int \<Rightarrow> endpoint http_server \<Rightarrow> string list \<Rightarrow> app \<Rightarrow> (app \<times> string list list) run" where
  "serve_log e fs code0 srv rs s =
     fold_run (\<lambda>r (s, out). and_then (serve e fs code0 srv r s) (\<lambda>(reply, s). Inr (s, out @ [reply]))) rs (s, [])"

lemma serve_log_Nil [simp]: "serve_log e fs code0 srv [] s = Inr (s, [])"
  by (simp add: serve_log_def)

lemma serve_log_snoc:
  "serve_log e fs code0 srv rs s = Inr (s', out) \<Longrightarrow> serve e fs code0 srv r s' = Inr (reply, s'') \<Longrightarrow>
    serve_log e fs code0 srv (rs @ [r]) s = Inr (s'', out @ [reply])"
  by (simp add: serve_log_def fold_run_append)

lemma serve_log_keeps:
  assumes "serve_log e fs code0 srv rs s = Inr (s', out)" and "schema_ok s"
  shows "schema_ok s'"
proof -
  have "schema_ok (fst (s', out))"
  proof (rule fold_run_invariant [where I = "\<lambda>x. schema_ok (fst x)", OF _ _ assms(1) [unfolded serve_log_def]])
    fix r x x'
    assume "schema_ok (fst x)"
      and "(case x of (s, out) \<Rightarrow> and_then (serve e fs code0 srv r s) (\<lambda>(reply, s). Inr (s, out @ [reply]))) = Inr x'"
    then show "schema_ok (fst x')" by (auto simp: run_simps dest: keepsD [OF keeps_serve] split: prod.splits)
  qed (simp add: assms(2))
  then show ?thesis by simp
qed

definition http_inv :: "env \<Rightarrow> file_system \<Rightarrow> int \<Rightarrow> endpoint http_server \<Rightarrow> nat \<Rightarrow> app \<Rightarrow> http_world \<Rightarrow> bool" where
  "http_inv e fs code0 srv n s0 w \<longleftrightarrow> pool_reachable n (worker_pool w)
     \<and> serve_log e fs code0 srv (handled w) s0 = Inr (tables w, replies w)
     \<and> mset (started (worker_pool w)) = mset (handled w) + in_work n (worker_pool w)"

lemma launched_inv: "http_inv e fs code0 srv n s0 (launched s0)"
  by (simp add: http_inv_def launched_def reach_init, simp add: thread_pool_constructor_def in_work_def)

lemma http_inv_step: "http_step e fs code0 srv n w w' \<Longrightarrow> http_inv e fs code0 srv n s0 w \<Longrightarrow> http_inv e fs code0 srv n s0 w'"
proof (induction rule: http_step.induct)
  case (pool_moves w p)
  then have "pool_reachable n p" using reach_step unfolding http_inv_def by blast
  then show ?case using in_work_step [OF pool_moves(2,3)] pool_moves(4) by (simp add: http_inv_def)
next
  case (handles w i r reply s)
  let ?p = "(worker_pool w)\<lparr>wpc := (wpc (worker_pool w))(i := At_Test)\<rparr>"
  have "pool_reachable n ?p"
    using handles reach_step [OF _ job_done [OF handles(2,3)]] unfolding http_inv_def by blast
  moreover have "mset (started (worker_pool w)) = mset (handled w) + ({#r#} + in_work n ?p)"
    using handles in_work_update [of i n ?p "worker_pool w" At_Test] by (simp add: http_inv_def)
  ultimately show ?case using handles serve_log_snoc by (simp add: http_inv_def)
next
  case (crashes w i r f)
  then show ?case by (simp add: http_inv_def)
qed

lemma http_run_inv: "(http_step e fs code0 srv n)\<^sup>*\<^sup>* (launched s0) w \<Longrightarrow> http_inv e fs code0 srv n s0 w"
  by (induction rule: rtranclp_induct) (auto intro: launched_inv http_inv_step)

section \<open>A request is handled\<close>

definition quiet :: "nat \<Rightarrow> string thread_pool \<Rightarrow> string thread_pool \<Rightarrow> bool" where
  "quiet n p p' \<longleftrightarrow> pool_step n p p' \<and> (\<forall>i j. wpc p i = Running (Some j) \<longrightarrow> wpc p' i = Running (Some j))"

lemma quiet_run:
  "(quiet n)\<^sup>*\<^sup>* p p' \<Longrightarrow> crashed w = None \<Longrightarrow> worker_pool w = p \<Longrightarrow>
    (http_step e fs code0 srv n)\<^sup>*\<^sup>* w (w\<lparr>worker_pool := p'\<rparr>)"
proof (induction rule: rtranclp_induct)
  case base
  then show ?case by auto
next
  case (step p1 p2)
  let ?w = "w\<lparr>worker_pool := p1\<rparr>"
  have "http_step e fs code0 srv n ?w (?w\<lparr>worker_pool := p2\<rparr>)"
    using step unfolding quiet_def by (intro pool_moves) simp_all
  then show ?case using step by (auto intro: rtranclp.rtrancl_into_rtrancl)
qed

lemma quiet_next:
  assumes "(quiet n)\<^sup>*\<^sup>* c p" and "pool_step n p p'" and "\<forall>i j. wpc p i \<noteq> Running (Some j)"
  shows "(quiet n)\<^sup>*\<^sup>* c p'"
proof -
  have "quiet n p p'" using assms(2,3) unfolding quiet_def by blast
  with assms(1) show ?thesis by (rule rtranclp.rtrancl_into_rtrancl)
qed

lemma request_taken:
  assumes "0 < n"
  shows "\<exists>p. (quiet n)\<^sup>*\<^sup>* thread_pool_constructor p \<and> wpc p 0 = Running (Some r)"
proof -
  let ?c = "thread_pool_constructor :: string thread_pool"
  have "job_inv ?c" using reachable_inv [OF reach_init] by blast
  then have wf: "queue_wf (work ?c)" "contents (work ?c) = []" by (simp_all add: job_inv_def thread_pool_constructor_def)
  obtain q where q: "push (work ?c) r sizeof_job = Inr q" "queue_wf q" "contents q = [r]"
    using push_eq [OF wf(1), of sizeof_job r] wf(2) by (auto simp: sizeof_job_def)
  have q': "push queue_constructor r sizeof_job = Inr q" using q(1) by (simp add: thread_pool_constructor_def)
  obtain v where v: "pop q = Inr v" and pk: "peek q = Inr (Some r)"
    using pop_eq [OF q(2)] peek_eq [OF q(2)] q(3) by auto
  let ?a = "?c\<lparr>wpc := (wpc ?c)(0 := At_Lock)\<rparr>"
  let ?b = "?a\<lparr>wpc := (wpc ?a)(0 := In_Wait), lock := Some (Worker 0)\<rparr>"
  let ?d = "?b\<lparr>wpc := (wpc ?b)(0 := Blocked), lock := None\<rparr>"
  let ?s1 = "?d\<lparr>cpc := (cpc ?d)(0 := C_Locked r), lock := Some (Client 0)\<rparr>"
  let ?s2 = "?s1\<lparr>cpc := (cpc ?s1)(0 := C_Pushed), work := q, added := added ?s1 @ [r]\<rparr>"
  let ?s3 = "?s2\<lparr>cpc := (cpc ?s2)(0 := C_Signalled), wpc := (wpc ?s2)(0 := Woken)\<rparr>"
  let ?s4 = "?s3\<lparr>cpc := (cpc ?s3)(0 := C_Idle), lock := None\<rparr>"
  let ?s5 = "?s4\<lparr>wpc := (wpc ?s4)(0 := Checking), lock := Some (Worker 0)\<rparr>"
  let ?s6 = "?s5\<lparr>wpc := (wpc ?s5)(0 := Popped (Some r)), work := v, started := started ?s5 @ [r]\<rparr>"
  let ?s7 = "?s6\<lparr>wpc := (wpc ?s6)(0 := Running (Some r)), lock := None\<rparr>"
  have "(quiet n)\<^sup>*\<^sup>* ?c ?c" by simp
  then have "(quiet n)\<^sup>*\<^sup>* ?c ?a" by (rule quiet_next) (rule test_active, simp_all add: thread_pool_constructor_def assms q' v pk)
  then have "(quiet n)\<^sup>*\<^sup>* ?c ?b" by (rule quiet_next) (rule worker_lock, simp_all add: thread_pool_constructor_def assms q' v pk)
  then have "(quiet n)\<^sup>*\<^sup>* ?c ?d" by (rule quiet_next) (rule worker_block, simp_all add: thread_pool_constructor_def assms q' v pk)
  then have "(quiet n)\<^sup>*\<^sup>* ?c ?s1" by (rule quiet_next) (rule client_lock, simp_all add: thread_pool_constructor_def assms q' v pk)
  then have "(quiet n)\<^sup>*\<^sup>* ?c ?s2" by (rule quiet_next) (rule client_push, simp_all add: thread_pool_constructor_def assms q' v pk)
  then have "(quiet n)\<^sup>*\<^sup>* ?c ?s3" by (rule quiet_next) (rule signal_one, simp_all add: thread_pool_constructor_def assms q' v pk)
  then have "(quiet n)\<^sup>*\<^sup>* ?c ?s4" by (rule quiet_next) (rule client_unlock, simp_all add: thread_pool_constructor_def assms q' v pk)
  then have "(quiet n)\<^sup>*\<^sup>* ?c ?s5" by (rule quiet_next) (rule reacquire, simp_all add: thread_pool_constructor_def assms q' v pk)
  then have "(quiet n)\<^sup>*\<^sup>* ?c ?s6" by (rule quiet_next) (rule take_job, simp_all add: thread_pool_constructor_def assms q' v pk)
  then have "(quiet n)\<^sup>*\<^sup>* ?c ?s7" by (rule quiet_next) (rule worker_unlock, simp_all add: thread_pool_constructor_def assms q' v pk)
  then show ?thesis by (intro exI [of _ ?s7]) simp
qed

section \<open>Properties\<close>



end
