(* ===== verification/Parser_Race.thy ===== *)
theory Parser_Race
  imports Http_Request
begin

text \<open>
  The parser in the hands of several workers. \<open>strtok\<close> keeps its position in one static variable of
  the process, and \<open>http_handler\<close> runs in twenty threads without a lock, so that a call with NULL goes on
  in whatever string was cut last, by any of them. A worker is the sequence of its calls of \<open>strtok\<close>; a
  schedule is the list of the workers that make the next call.
\<close>

section \<open>Threads that call strtok\<close>

text \<open>\<open>First\<close> is \<open>strtok(s, d)\<close>, \<open>Next\<close> is \<open>strtok(NULL, d)\<close>; the token decides how the thread goes on.\<close>

datatype 'a calls =
    Return 'a
  | First string string "string option \<Rightarrow> 'a calls"
  | Next string "string option \<Rightarrow> 'a calls"

record 'a workers =
  saved :: string
  thread :: "nat \<Rightarrow> 'a calls"

fun call :: "'a calls \<Rightarrow> string \<Rightarrow> 'a calls \<times> string" where
  "call (Return x) sv = (Return x, sv)"
| "call (First d s k) sv = (let (t, r) = strtok d s in (k t, r))"
| "call (Next d k) sv = (let (t, r) = strtok d sv in (k t, r))"

definition call_of :: "nat \<Rightarrow> 'a workers \<Rightarrow> 'a workers" where
  "call_of i s =
     (let (p, r) = call (thread s i) (saved s) in s\<lparr>saved := r, thread := (thread s)(i := p)\<rparr>)"

definition run_schedule :: "nat list \<Rightarrow> 'a workers \<Rightarrow> 'a workers" where
  "run_schedule = fold call_of"

text \<open>A thread that nobody disturbs.\<close>

primrec alone :: "'a calls \<Rightarrow> string \<Rightarrow> 'a \<times> string" where
  "alone (Return x) = (\<lambda>sv. (x, sv))"
| "alone (First d s k) = (\<lambda>sv. let q = strtok d s in alone (k (fst q)) (snd q))"
| "alone (Next d k) = (\<lambda>sv. let q = strtok d sv in alone (k (fst q)) (snd q))"

section \<open>The request line\<close>

text \<open>The calls of \<open>extract_request_line_fields\<close>: method, path and version; uri and query.\<close>

definition line_calls ::
  "string \<Rightarrow> (string option \<times> string option \<times> string option \<times> string option) calls" where
  "line_calls flds =
     First '' '' flds (\<lambda>meth. Next '' '' (\<lambda>path. Next [] (\<lambda>http_version.
       (case path of None \<Rightarrow> Next ''?'' | Some p \<Rightarrow> First ''?'' p) (\<lambda>uri.
          Next [] (\<lambda>query_string. Return (meth, http_version, uri, query_string))))))"

text \<open>What is made of the tokens.\<close>

definition line_fields ::
  "slack \<Rightarrow> string option \<times> string option \<times> string option \<times> string option \<Rightarrow>
   (string dictionary \<times> string dictionary) run" where
  "line_fields slack = (\<lambda>(meth, http_version, uri, query_string).
     and_then (deref meth) (\<lambda>meth.
     and_then (insert_str slack dictionary_constructor ''method'' 7 meth (length meth)) (\<lambda>d.
     and_then (extract_request_query slack query_string) (\<lambda>query_dict.
     and_then (deref uri) (\<lambda>uri.
     and_then (insert_str slack d ''uri'' 4 uri (length uri)) (\<lambda>d.
     and_then (deref http_version) (\<lambda>http_version.
     and_then (insert_str slack d ''http_version'' 13 http_version (length http_version)) (\<lambda>d.
       Inr (d, query_dict)))))))))"

text \<open>Alone, the calls give what the sequential model of the function gives.\<close>

lemma line_calls_alone:
  "extract_request_line_fields slack (Some l) = line_fields slack (fst (alone (line_calls l) sv))"
  by (simp add: extract_request_line_fields_def line_fields_def line_calls_def Let_def split_def
      split: option.split)

section \<open>Schedules\<close>

lemma run_schedule_simps [simp]:
  "run_schedule [] s = s" "run_schedule (i # is) s = run_schedule is (call_of i s)"
  by (simp_all add: run_schedule_def)

lemma run_schedule_append: "run_schedule (xs @ ys) s = run_schedule ys (run_schedule xs s)"
  by (simp add: run_schedule_def)

lemma call_of_First:
  "thread s i = First d str k \<Longrightarrow>
    call_of i s = s\<lparr>saved := snd (strtok d str), thread := (thread s)(i := k (fst (strtok d str)))\<rparr>"
  by (simp add: call_of_def Let_def split: prod.split)

lemma call_of_Next:
  "thread s i = Next d k \<Longrightarrow>
    call_of i s = s\<lparr>saved := snd (strtok d (saved s)), thread := (thread s)(i := k (fst (strtok d (saved s))))\<rparr>"
  by (simp add: call_of_def Let_def split: prod.split)

text \<open>A thread that makes its calls without interruption gets what it gets alone, wherever it starts.\<close>

lemma undisturbed:
  "thread s i = p \<Longrightarrow> \<exists>n. run_schedule (replicate n i) s =
    s\<lparr>saved := snd (alone p (saved s)), thread := (thread s)(i := Return (fst (alone p (saved s))))\<rparr>"
proof (induction p arbitrary: s)
  case (Return x)
  then show ?case by (intro exI [of _ 0]) (simp add: fun_upd_idem)
next
  case (First d str k)
  let ?t = "s\<lparr>saved := snd (strtok d str), thread := (thread s)(i := k (fst (strtok d str)))\<rparr>"
  have "thread ?t i = k (fst (strtok d str))" by simp
  from First.IH [OF rangeI this] obtain n where "run_schedule (replicate n i) ?t =
      ?t\<lparr>saved := snd (alone (k (fst (strtok d str))) (saved ?t)),
        thread := (thread ?t)(i := Return (fst (alone (k (fst (strtok d str))) (saved ?t))))\<rparr>" ..
  then have n: "run_schedule (replicate (Suc n) i) s = \<dots>"
    by (simp only: replicate_Suc run_schedule_simps call_of_First [OF First.prems])
  show ?case by (rule exI [of _ "Suc n"], unfold n, rule workers.equality) (simp_all add: Let_def fun_eq_iff)
next
  case (Next d k)
  let ?q = "strtok d (saved s)"
  let ?t = "s\<lparr>saved := snd ?q, thread := (thread s)(i := k (fst ?q))\<rparr>"
  have "thread ?t i = k (fst ?q)" by simp
  from Next.IH [OF rangeI this] obtain n where "run_schedule (replicate n i) ?t =
      ?t\<lparr>saved := snd (alone (k (fst ?q)) (saved ?t)),
        thread := (thread ?t)(i := Return (fst (alone (k (fst ?q)) (saved ?t))))\<rparr>" ..
  then have n: "run_schedule (replicate (Suc n) i) s = \<dots>"
    by (simp only: replicate_Suc run_schedule_simps call_of_Next [OF Next.prems])
  show ?case by (rule exI [of _ "Suc n"], unfold n, rule workers.equality) (simp_all add: Let_def fun_eq_iff)
qed

section \<open>Two workers\<close>

definition two_lines :: "string \<Rightarrow> string \<Rightarrow>
    (string option \<times> string option \<times> string option \<times> string option) workers" where
  "two_lines l0 l1 = \<lparr>saved = [], thread = (\<lambda>i. if i = 0 then line_calls l0 else line_calls l1)\<rparr>"

text \<open>What a worker makes of its line once it has made all its calls.\<close>

definition parsed ::
  "slack \<Rightarrow> (string option \<times> string option \<times> string option \<times> string option) calls \<Rightarrow>
   (string dictionary \<times> string dictionary) run option" where
  "parsed slack p = (case p of Return ts \<Rightarrow> Some (line_fields slack ts) | _ \<Rightarrow> None)"

text \<open>A line of a method, a path without query, and a version.\<close>

definition plain_line :: "string \<Rightarrow> string \<Rightarrow> string \<Rightarrow> string" where
  "plain_line meth uri version = meth @ CHR '' '' # uri @ CHR '' '' # version"

definition plain_ok :: "string \<Rightarrow> string \<Rightarrow> string \<Rightarrow> bool" where
  "plain_ok meth uri version \<longleftrightarrow> word_ok meth \<and> word_ok uri \<and> version \<noteq> []"

lemma parsed_Return:
  "parsed slack (Return (fst (alone (line_calls l) sv))) = Some (extract_request_line_fields slack (Some l))"
  by (simp add: parsed_def line_calls_alone [of slack l sv])

lemma one_after_the_other:
  "\<exists>sched. \<forall>slack. parsed slack (thread (run_schedule sched (two_lines l0 l1)) 0) = Some (extract_request_line_fields slack (Some l0))
    \<and> parsed slack (thread (run_schedule sched (two_lines l0 l1)) 1) = Some (extract_request_line_fields slack (Some l1))"
proof -
  let ?s = "two_lines l0 l1"
  have "thread ?s 0 = line_calls l0" by (simp add: two_lines_def)
  from undisturbed [OF this] obtain n where n: "run_schedule (replicate n 0) ?s =
      ?s\<lparr>saved := snd (alone (line_calls l0) (saved ?s)),
        thread := (thread ?s)(0 := Return (fst (alone (line_calls l0) (saved ?s))))\<rparr>" (is "_ = ?t") ..
  have "thread ?t 1 = line_calls l1" by (simp add: two_lines_def)
  from undisturbed [OF this] obtain k where k: "run_schedule (replicate k 1) ?t =
      ?t\<lparr>saved := snd (alone (line_calls l1) (saved ?t)),
        thread := (thread ?t)(1 := Return (fst (alone (line_calls l1) (saved ?t))))\<rparr>" ..
  have "run_schedule (replicate n 0 @ replicate k 1) ?s = run_schedule (replicate k 1) ?t"
    by (simp only: run_schedule_append n)
  then show ?thesis unfolding k
    by (intro exI [of _ "replicate n 0 @ replicate k 1"]) (simp add: parsed_Return)
qed

lemma plain_line_tokens:
  assumes "plain_ok meth uri version"
  shows "strtok '' '' (plain_line meth uri version) = (Some meth, uri @ CHR '' '' # version)"
    and "strtok '' '' (uri @ CHR '' '' # version) = (Some uri, version)"
    and "strtok [] version = (Some version, [])" and "strtok ''?'' uri = (Some uri, [])"
  using assms by (auto simp: plain_line_def plain_ok_def word_ok_def strtok_empty_delims
      intro!: strtok_token_delim strtok_token_end)

lemma strtok_at_end: "strtok d [] = (None, [])"
  by (simp add: strtok_def)

text \<open>
  Both workers have cut their method off; the first one makes its other calls, in the line of the
  second one, and leaves nothing of it.
\<close>

lemma tokens_mixed:
  assumes "plain_ok m0 u0 v0" and "plain_ok m1 u1 v1"
  defines "s \<equiv> run_schedule [0, 1, 0, 0, 0, 0, 1, 1, 1, 1] (two_lines (plain_line m0 u0 v0) (plain_line m1 u1 v1))"
  shows "thread s 0 = Return (Some m0, Some v1, Some u1, None)"
    and "thread s 1 = Return (Some m1, None, None, None)"
proof -
  note first = plain_line_tokens [OF assms(1)] and second = plain_line_tokens [OF assms(2)]
  show "thread s 0 = Return (Some m0, Some v1, Some u1, None)"
    and "thread s 1 = Return (Some m1, None, None, None)"
    by (simp_all add: s_def two_lines_def line_calls_def call_of_def first(1) second strtok_at_end Let_def)
qed

lemma line_without_path:
  "line_fields slack (Some m, None, None, None) = Inl Null_Deref"
proof -
  obtain d where "insert_str slack dictionary_constructor ''method'' 7 m (length m) = Inr d"
    using insert_dict_eq [of slack dictionary_constructor "''method''" 7 "calloc_copy m (length m)"]
    by (auto simp: insert_str_def key_size_ok_def NUL_def)
  then show ?thesis by (simp add: line_fields_def extract_request_query_None)
qed

section \<open>Properties\<close>

text \<open>
  C9. Two requests that are parsed at the same time. One after the other, in the steps of the shared
  \<open>strtok\<close>, each worker gets what the parser makes of its line. Interleaved, the first worker can get its
  own method with the path and the version of the other request, so that it runs on a path that its
  client never sent, while the second worker dereferences NULL.
\<close>

theorem concurrent_requests_mix:
  assumes "plain_ok m0 u0 v0" and "plain_ok m1 u1 v1"
  defines "run \<equiv> \<lambda>sched. run_schedule sched (two_lines (plain_line m0 u0 v0) (plain_line m1 u1 v1))"
  shows "(\<exists>sched. parsed slack (thread (run sched) 0) = Some (extract_request_line_fields slack (Some (plain_line m0 u0 v0)))
      \<and> parsed slack (thread (run sched) 1) = Some (extract_request_line_fields slack (Some (plain_line m1 u1 v1))))
    \<and> (\<exists>sched. parsed slack (thread (run sched) 0) = Some (extract_request_line_fields slack (Some (plain_line m0 u1 v1)))
      \<and> parsed slack (thread (run sched) 1) = Some (Inl Null_Deref))"
proof -
  let ?sched = "[0, 1, 0, 0, 0, 0, 1, 1, 1, 1]"
  have t: "thread (run ?sched) 0 = Return (Some m0, Some v1, Some u1, None)"
    "thread (run ?sched) 1 = Return (Some m1, None, None, None)"
    using tokens_mixed [OF assms(1,2)] by (simp_all only: run_def)
  have ok: "plain_ok m0 u1 v1" using assms(1,2) by (simp add: plain_ok_def)
  have "fst (alone (line_calls (plain_line m0 u1 v1)) []) = (Some m0, Some v1, Some u1, None)"
    by (simp add: line_calls_def plain_line_tokens [OF ok] strtok_at_end Let_def)
  then have "line_fields slack (Some m0, Some v1, Some u1, None)
      = extract_request_line_fields slack (Some (plain_line m0 u1 v1))"
    by (simp add: line_calls_alone [of slack _ "[]"])
  then have "parsed slack (thread (run ?sched) 0) = Some (extract_request_line_fields slack (Some (plain_line m0 u1 v1)))
      \<and> parsed slack (thread (run ?sched) 1) = Some (Inl Null_Deref)"
    by (simp only: t parsed_def calls.case line_without_path)
  then show ?thesis using one_after_the_other unfolding run_def by blast
qed

theorem concurrent_requests_mix_witness:
  "\<exists>sched. parsed (\<lambda>b. []) (thread (run_schedule sched
        (two_lines (plain_line ''DELETE'' ''/file/delete'' ''HTTP/1.1'') (plain_line ''GET'' ''/group/delete'' ''HTTP/1.1''))) 0)
      = Some (extract_request_line_fields (\<lambda>b. []) (Some ''DELETE /group/delete HTTP/1.1''))"
proof -
  have "plain_ok ''DELETE'' ''/file/delete'' ''HTTP/1.1''" "plain_ok ''GET'' ''/group/delete'' ''HTTP/1.1''"
    by (simp_all add: plain_ok_def word_ok_def NUL_def)
  from concurrent_requests_mix [OF this, of "\<lambda>b. []"] show ?thesis by (auto simp: plain_line_def)
qed

end
