(* ===== verification/Pool_Shutdown.thy ===== *)
theory Pool_Shutdown
  imports Thread_Pool
begin

text \<open>
  \<open>thread_pool_destructor\<close> and \<open>wait\<close> of \<open>src/systems/thread_pool.c\<close>. The destructor runs against the
  workers: it clears \<open>active\<close>, signals, and cancels and joins them one by one. A thread that is cancelled
  in \<open>pthread_cond_wait\<close> takes the mutex again before it ends, as POSIX demands, and no cleanup handler
  releases it.
\<close>

section \<open>The destructor\<close>

datatype destructor_pc = D_Start | D_Signal nat | D_Cancel nat | D_Join nat | D_Done

record 'j shutdown =
  pool :: "'j thread_pool"
  cancelled :: "nat set"
  phase :: destructor_pc

inductive shutdown_step :: "nat \<Rightarrow> 'j shutdown \<Rightarrow> 'j shutdown \<Rightarrow> bool" for num_threads where
  others: "pool_step num_threads (pool s) p \<Longrightarrow> active p = active (pool s) \<Longrightarrow>
    shutdown_step num_threads s (s\<lparr>pool := p\<rparr>)"
| deactivate: "phase s = D_Start \<Longrightarrow>
    shutdown_step num_threads s (s\<lparr>pool := (pool s)\<lparr>active := False\<rparr>, phase := D_Signal 0\<rparr>)"
| wake: "phase s = D_Signal k \<Longrightarrow> k < num_threads \<Longrightarrow> i < num_threads \<Longrightarrow> wpc (pool s) i = Blocked \<Longrightarrow>
    shutdown_step num_threads s
      (s\<lparr>pool := (pool s)\<lparr>wpc := (wpc (pool s))(i := Woken)\<rparr>, phase := D_Signal (Suc k)\<rparr>)"
| wake_none: "phase s = D_Signal k \<Longrightarrow> k < num_threads \<Longrightarrow> \<forall>i < num_threads. wpc (pool s) i \<noteq> Blocked \<Longrightarrow>
    shutdown_step num_threads s (s\<lparr>phase := D_Signal (Suc k)\<rparr>)"
| signalled: "phase s = D_Signal num_threads \<Longrightarrow> shutdown_step num_threads s (s\<lparr>phase := D_Cancel 0\<rparr>)"
| cancel: "phase s = D_Cancel k \<Longrightarrow> k < num_threads \<Longrightarrow>
    shutdown_step num_threads s (s\<lparr>cancelled := insert k (cancelled s), phase := D_Join k\<rparr>)"
| join: "phase s = D_Join k \<Longrightarrow> wpc (pool s) k = Exited \<Longrightarrow>
    shutdown_step num_threads s (s\<lparr>phase := D_Cancel (Suc k)\<rparr>)"
| release: "phase s = D_Cancel num_threads \<Longrightarrow> shutdown_step num_threads s (s\<lparr>phase := D_Done\<rparr>)"
| die_waiting: "i \<in> cancelled s \<Longrightarrow> wpc (pool s) i = Blocked \<or> wpc (pool s) i = Woken \<Longrightarrow> lock (pool s) = None \<Longrightarrow>
    shutdown_step num_threads s
      (s\<lparr>pool := (pool s)\<lparr>wpc := (wpc (pool s))(i := Exited), lock := Some (Worker i)\<rparr>\<rparr>)"
| die_entering: "i \<in> cancelled s \<Longrightarrow> wpc (pool s) i = In_Wait \<Longrightarrow>
    shutdown_step num_threads s (s\<lparr>pool := (pool s)\<lparr>wpc := (wpc (pool s))(i := Exited)\<rparr>\<rparr>)"
| die_running: "i \<in> cancelled s \<Longrightarrow> wpc (pool s) i = Running (Some j) \<Longrightarrow>
    shutdown_step num_threads s (s\<lparr>pool := (pool s)\<lparr>wpc := (wpc (pool s))(i := Exited)\<rparr>\<rparr>)"

inductive shutdown_reachable :: "nat \<Rightarrow> 'j shutdown \<Rightarrow> bool" for num_threads where
  shut_init: "pool_reachable num_threads p \<Longrightarrow> active p \<Longrightarrow>
    shutdown_reachable num_threads \<lparr>pool = p, cancelled = {}, phase = D_Start\<rparr>"
| shut_step: "shutdown_reachable num_threads s \<Longrightarrow> shutdown_step num_threads s s' \<Longrightarrow>
    shutdown_reachable num_threads s'"

section \<open>What has been joined has ended\<close>

fun joined :: "nat \<Rightarrow> destructor_pc \<Rightarrow> nat" where
  "joined n (D_Cancel k) = k"
| "joined n (D_Join k) = k"
| "joined n D_Done = n"
| "joined n _ = 0"

definition joined_inv :: "nat \<Rightarrow> 'j shutdown \<Rightarrow> bool" where
  "joined_inv n s \<longleftrightarrow> (\<forall>i < joined n (phase s). wpc (pool s) i = Exited)"

lemma exited_stays: "pool_step n p p' \<Longrightarrow> wpc p i = Exited \<Longrightarrow> wpc p' i = Exited"
  by (induction rule: pool_step.induct) auto

lemma joined_inv_step: "shutdown_step n s s' \<Longrightarrow> joined_inv n s \<Longrightarrow> joined_inv n s'"
proof (induction rule: shutdown_step.induct)
  case (others s p)
  then show ?case using exited_stays by (fastforce simp: joined_inv_def)
qed (auto simp: joined_inv_def less_Suc_eq)

lemma reachable_joined: "shutdown_reachable n s \<Longrightarrow> joined_inv n s"
proof (induction rule: shutdown_reachable.induct)
  case (shut_init p)
  then show ?case by (simp add: joined_inv_def)
next
  case (shut_step s s')
  then show ?case using joined_inv_step by blast
qed

section \<open>A mutex that nobody releases\<close>

text \<open>Worker 0 has ended with the mutex, worker 1 waits for it, and the destructor waits for worker 1.\<close>

definition hanging :: "'j shutdown \<Rightarrow> bool" where
  "hanging s \<longleftrightarrow> lock (pool s) = Some (Worker 0) \<and> wpc (pool s) 0 = Exited
     \<and> (wpc (pool s) 1 = Woken \<or> wpc (pool s) 1 = Blocked)
     \<and> (\<forall>i. \<not> worker_holds (wpc (pool s) i)) \<and> (\<forall>c. \<not> client_holds (cpc (pool s) c))
     \<and> (phase s = D_Cancel 0 \<or> phase s = D_Join 0 \<or> phase s = D_Cancel 1 \<or> phase s = D_Join 1)"

definition hanging_pool :: "'j thread_pool \<Rightarrow> bool" where
  "hanging_pool p \<longleftrightarrow> lock p = Some (Worker 0) \<and> wpc p 0 = Exited \<and> (wpc p 1 = Woken \<or> wpc p 1 = Blocked)
     \<and> (\<forall>i. \<not> worker_holds (wpc p i)) \<and> (\<forall>c. \<not> client_holds (cpc p c))"

lemma hanging_pool_step: "pool_step n p p' \<Longrightarrow> hanging_pool p \<Longrightarrow> hanging_pool p'"
proof -
  assume step: "pool_step n p p'" and h: "hanging_pool p"
  then have nw: "\<not> worker_holds (wpc p i)" and nc: "\<not> client_holds (cpc p c)" for i c
    by (simp_all add: hanging_pool_def)
  have no: "wpc p i \<noteq> In_Wait" "wpc p i \<noteq> Checking" "wpc p i \<noteq> Popped q" "cpc p c \<noteq> C_Locked j"
    "cpc p c \<noteq> C_Pushed" "cpc p c \<noteq> C_Signalled" for i q c j
    using nw [of i] nc [of c] by auto
  from step show "hanging_pool p'"
    by (cases rule: pool_step.cases) (use h in \<open>auto simp: no hanging_pool_def intro!: gr0I\<close>)
qed

lemma hanging_pool: "hanging s \<longleftrightarrow> hanging_pool (pool s)
    \<and> (phase s = D_Cancel 0 \<or> phase s = D_Join 0 \<or> phase s = D_Cancel 1 \<or> phase s = D_Join 1)"
  by (auto simp: hanging_def hanging_pool_def)

lemma hanging_step: "shutdown_step n s s' \<Longrightarrow> hanging s \<Longrightarrow> 2 \<le> n \<Longrightarrow> hanging s'"
proof (induction rule: shutdown_step.induct)
  case (others s p)
  then show ?case using hanging_pool_step [OF others(1)] by (simp add: hanging_pool)
next
  case (die_entering i s)
  then have "worker_holds (wpc (pool s) i)" by simp
  then show ?case using die_entering unfolding hanging_def by metis
qed (auto simp: hanging_def)

lemma hanging_for_ever: "(shutdown_step n)\<^sup>*\<^sup>* s s' \<Longrightarrow> hanging s \<Longrightarrow> 2 \<le> n \<Longrightarrow> hanging s'"
  by (induction rule: rtranclp_induct) (auto intro: hanging_step)

section \<open>Runs of the destructor\<close>

text \<open>The signals of the destructor wake the first \<open>k\<close> of the blocked workers.\<close>

lemma signals_wake:
  assumes "shutdown_reachable n s" and "phase s = D_Signal 0" and "\<forall>i < n. wpc (pool s) i = Blocked" and "k \<le> n"
  shows "\<exists>t. shutdown_reachable n t \<and> phase t = D_Signal k \<and> lock (pool t) = lock (pool s)
    \<and> cpc (pool t) = cpc (pool s) \<and> (\<forall>i < k. wpc (pool t) i = Woken)
    \<and> (\<forall>i < n. k \<le> i \<longrightarrow> wpc (pool t) i = Blocked) \<and> (\<forall>i \<ge> n. wpc (pool t) i = wpc (pool s) i)"
  using assms(4)
proof (induction k)
  case 0
  then show ?case using assms by (intro exI [of _ s]) simp
next
  case (Suc k)
  then obtain t where t: "shutdown_reachable n t" "phase t = D_Signal k" "lock (pool t) = lock (pool s)"
    "cpc (pool t) = cpc (pool s)" "\<forall>i < k. wpc (pool t) i = Woken"
    "\<forall>i < n. k \<le> i \<longrightarrow> wpc (pool t) i = Blocked" "\<forall>i \<ge> n. wpc (pool t) i = wpc (pool s) i"
    by auto
  let ?u = "t\<lparr>pool := (pool t)\<lparr>wpc := (wpc (pool t))(k := Woken)\<rparr>, phase := D_Signal (Suc k)\<rparr>"
  have "shutdown_step n t ?u" using t Suc.prems by (intro wake) auto
  with t(1) have "shutdown_reachable n ?u" by (rule shut_step)
  then show ?case using t Suc.prems by (intro exI [of _ ?u]) (auto simp: less_Suc_eq)
qed

lemma hanging_reachable:
  assumes "2 \<le> n"
  shows "\<exists>s :: 'j shutdown. shutdown_reachable n s \<and> hanging s"
proof -
  let ?p0 = "thread_pool_constructor :: 'j thread_pool"
  obtain p where p: "pool_reachable n p" "active p" "lock p = None" "cpc p = cpc ?p0" "\<forall>i < n. wpc p i = Blocked"
    using all_block [OF reach_init, of n n] by (auto simp: thread_pool_constructor_def)
  have idle: "\<not> worker_holds (wpc p i)" for i
    using reachable_inv [OF p(1)] p(3) by (simp add: lock_inv_def)
  let ?s0 = "\<lparr>pool = p, cancelled = {}, phase = D_Start\<rparr>"
  let ?s1 = "?s0\<lparr>pool := (pool ?s0)\<lparr>active := False\<rparr>, phase := D_Signal 0\<rparr>"
  have "shutdown_reachable n ?s1"
    by (rule shut_step [OF shut_init [OF p(1,2)]]) (rule deactivate; simp)
  then obtain t where t: "shutdown_reachable n t" "phase t = D_Signal n" "lock (pool t) = None"
    "cpc (pool t) = cpc p" "\<forall>i < n. wpc (pool t) i = Woken" "\<forall>i \<ge> n. wpc (pool t) i = wpc p i"
    using signals_wake [of n ?s1 n] p by auto
  let ?t1 = "t\<lparr>phase := D_Cancel 0\<rparr>"
  have r1: "shutdown_reachable n ?t1" by (rule shut_step [OF t(1)]) (rule signalled; use t in simp)
  let ?t2 = "?t1\<lparr>cancelled := insert 0 (cancelled ?t1), phase := D_Join 0\<rparr>"
  have r2: "shutdown_reachable n ?t2" by (rule shut_step [OF r1]) (rule cancel; use assms in simp)
  let ?t3 = "?t2\<lparr>pool := (pool ?t2)\<lparr>wpc := (wpc (pool ?t2))(0 := Exited), lock := Some (Worker 0)\<rparr>\<rparr>"
  have r3: "shutdown_reachable n ?t3"
    by (rule shut_step [OF r2]) (rule die_waiting; use assms t(3,5) in simp)
  have "\<not> worker_holds (wpc (pool t) i)" for i
    using t(5,6) idle [of i] by (cases "i < n") simp_all
  then have "hanging ?t3" using t assms p(4) by (auto simp: hanging_def thread_pool_constructor_def)
  with r3 show ?thesis by blast
qed

section \<open>Waiting for the jobs\<close>

text \<open>
  \<open>wait\<close>, called when the pool is in state \<open>s\<close>. Its loop does not hold the mutex it passes to
  \<open>pthread_cond_wait\<close>, which POSIX leaves undefined, so the model stops there.
\<close>

datatype wait_outcome = Returned | Waited_Without_Mutex

definition wait_all :: "'j thread_pool \<Rightarrow> wait_outcome" where
  "wait_all s = (if active s \<and> 0 < len (qlist (work s)) then Waited_Without_Mutex else Returned)"

lemma wait_all_eq:
  "pool_reachable n s \<Longrightarrow> wait_all s = Returned \<longleftrightarrow> \<not> active s \<or> contents (work s) = []"
  using reachable_inv [of n s] by (auto simp: wait_all_def job_inv_def queue_wf_def ll_wf_def contents_def)

text \<open>A job that a blocked worker is woken for is taken out of the queue before it runs.\<close>

lemma running_reachable:
  assumes "0 < n"
  shows "\<exists>s. pool_reachable n s \<and> active s \<and> contents (work s) = [] \<and> wpc s 0 = Running (Some j)"
proof -
  let ?p = "thread_pool_constructor :: 'a thread_pool"
  let ?s0 = "?p\<lparr>wpc := (wpc ?p)(0 := Blocked)\<rparr>"
  have r0: "pool_reachable n ?s0"
    using assms by (intro worker_blocks [OF reach_init]) (simp_all add: thread_pool_constructor_def)
  have wf: "queue_wf (work ?s0)" "contents (work ?s0) = []"
    using reachable_inv [OF r0] by (simp_all add: job_inv_def thread_pool_constructor_def)
  obtain w where w: "push (work ?s0) j sizeof_job = Inr w" "queue_wf w" "contents w = [j]"
    using push_eq [OF wf(1), of sizeof_job j] wf(2) by (auto simp: sizeof_job_def)
  obtain v where v: "pop w = Inr v" "contents v = []" and pk: "peek w = Inr (Some j)"
    using pop_eq [OF w(2)] peek_eq [OF w(2)] w(3) by auto
  let ?s1 = "?s0\<lparr>cpc := (cpc ?s0)(0 := C_Locked j), lock := Some (Client 0)\<rparr>"
  let ?s2 = "?s1\<lparr>cpc := (cpc ?s1)(0 := C_Pushed), work := w, added := added ?s1 @ [j]\<rparr>"
  let ?s3 = "?s2\<lparr>cpc := (cpc ?s2)(0 := C_Signalled), wpc := (wpc ?s2)(0 := Woken)\<rparr>"
  let ?s4 = "?s3\<lparr>cpc := (cpc ?s3)(0 := C_Idle), lock := None\<rparr>"
  let ?s5 = "?s4\<lparr>wpc := (wpc ?s4)(0 := Checking), lock := Some (Worker 0)\<rparr>"
  let ?s6 = "?s5\<lparr>wpc := (wpc ?s5)(0 := Popped (Some j)), work := v, started := started ?s5 @ [j]\<rparr>"
  let ?s7 = "?s6\<lparr>wpc := (wpc ?s6)(0 := Running (Some j)), lock := None\<rparr>"
  have "pool_reachable n ?s1"
    by (rule reach_step [OF r0], rule client_lock) (simp_all add: thread_pool_constructor_def)
  then have "pool_reachable n ?s2" by (rule reach_step) (rule client_push; use w in simp)
  then have "pool_reachable n ?s3" by (rule reach_step) (rule signal_one; use assms in simp)
  then have "pool_reachable n ?s4" by (rule reach_step) (rule client_unlock; simp)
  then have "pool_reachable n ?s5" by (rule reach_step) (rule reacquire; use assms in simp)
  then have "pool_reachable n ?s6" by (rule reach_step) (rule take_job; use assms v pk in simp)
  then have "pool_reachable n ?s7" by (rule reach_step) (rule worker_unlock; use assms in simp)
  then show ?thesis using v by (intro exI [of _ ?s7]) (simp add: thread_pool_constructor_def)
qed

lemma wait_does_not_wait:
  "0 < n \<Longrightarrow> \<exists>s. pool_reachable n s \<and> active s \<and> wpc s 0 = Running (Some j) \<and> wait_all s = Returned"
  by (metis running_reachable wait_all_eq)

section \<open>Properties\<close>

text \<open>
  C12. When the destructor of the pool gets to the point where it frees the pool, every worker thread has
  ended, whatever the workers and the clients did in between.
\<close>

theorem pool_destructor_joins:
  assumes "shutdown_reachable n s" and "phase s = D_Done" and "i < n"
  shows "wpc (pool s) i = Exited"
  using reachable_joined [OF assms(1)] assms(2,3) by (simp add: joined_inv_def)

theorem pool_destructor_joins_witness:
  "\<exists>s :: nat shutdown. shutdown_reachable 1 s \<and> phase s = D_Done \<and> wpc (pool s) 0 = Exited"
proof -
  let ?p0 = "thread_pool_constructor :: nat thread_pool"
  let ?s0 = "\<lparr>pool = ?p0, cancelled = {}, phase = D_Start\<rparr>"
  let ?s1 = "?s0\<lparr>pool := (pool ?s0)\<lparr>active := False\<rparr>, phase := D_Signal 0\<rparr>"
  let ?s2 = "?s1\<lparr>phase := D_Signal (Suc 0)\<rparr>"
  let ?s3 = "?s2\<lparr>phase := D_Cancel 0\<rparr>"
  let ?s4 = "?s3\<lparr>cancelled := insert 0 (cancelled ?s3), phase := D_Join 0\<rparr>"
  let ?p5 = "(pool ?s4)\<lparr>wpc := (wpc (pool ?s4))(0 := Exited)\<rparr>"
  let ?s5 = "?s4\<lparr>pool := ?p5\<rparr>"
  let ?s6 = "?s5\<lparr>phase := D_Cancel (Suc 0)\<rparr>"
  let ?s7 = "?s6\<lparr>phase := D_Done\<rparr>"
  have "shutdown_reachable 1 ?s0" by (rule shut_init [OF reach_init]) (simp add: thread_pool_constructor_def)
  then have "shutdown_reachable 1 ?s1" by (rule shut_step) (rule deactivate; simp)
  then have "shutdown_reachable 1 ?s2"
    by (rule shut_step) (rule wake_none; simp add: thread_pool_constructor_def)
  then have "shutdown_reachable 1 ?s3" by (rule shut_step) (rule signalled; simp)
  then have "shutdown_reachable 1 ?s4" by (rule shut_step) (rule cancel; simp)
  then have "shutdown_reachable 1 ?s5"
    by (rule shut_step) (rule others, rule test_exit; simp add: thread_pool_constructor_def)
  then have "shutdown_reachable 1 ?s6" by (rule shut_step) (rule join; simp)
  then have r: "shutdown_reachable 1 ?s7" by (rule shut_step) (rule release; simp)
  have d: "phase ?s7 = D_Done" by simp
  from r d pool_destructor_joins [OF r d zero_less_one] show ?thesis by blast
qed

text \<open>
  C11. The destructor of a pool of at least two workers can hang: a state is reachable in which the first
  worker was cancelled while it waited and has ended with the mutex, and from which no sequence of steps
  of the workers, the clients and the destructor gets to the end of the destructor.
\<close>

theorem pool_destructor_can_hang:
  assumes "2 \<le> n"
  shows "\<exists>s :: 'j shutdown. shutdown_reachable n s \<and> (\<forall>t. (shutdown_step n)\<^sup>*\<^sup>* s t \<longrightarrow> phase t \<noteq> D_Done)"
proof -
  obtain s :: "'j shutdown" where "shutdown_reachable n s" "hanging s" using hanging_reachable [OF assms] by blast
  moreover from this(2) have "phase t \<noteq> D_Done" if "(shutdown_step n)\<^sup>*\<^sup>* s t" for t
    using hanging_for_ever [OF that _ assms] by (auto simp: hanging_def)
  ultimately show ?thesis by blast
qed

theorem pool_destructor_can_hang_witness:
  "\<exists>s :: nat shutdown. shutdown_reachable 20 s \<and> (\<forall>t. (shutdown_step 20)\<^sup>*\<^sup>* s t \<longrightarrow> phase t \<noteq> D_Done)"
  by (rule pool_destructor_can_hang) simp

end
