(* ===== verification/Database.thy ===== *)
theory Database
  imports Dictionary App_State
begin

text \<open>
  The pools and the manager of \<open>src/database/db.c\<close>. A pool is an object of \<open>db_heap\<close>, named by its
  index; an entry becomes None when its strings are freed. The dictionary of the manager holds a
  copy of the pointer. The results of the SQLite calls are parameters.
\<close>

section \<open>Pools\<close>

text \<open>\<open>pool->db\<close>: NULL, an open connection, or one that was closed and is still pointed to.\<close>

datatype connection = No_Handle | Open_Handle | Stale_Handle

record database_pool =
  pool_path :: string
  pool_name :: string
  pool_db :: connection

record db_program =
  manager :: "nat dictionary option"
  db_heap :: "database_pool option list"

definition database_pool_constructor :: "string \<Rightarrow> string \<Rightarrow> db_program \<Rightarrow> nat \<times> db_program" where
  "database_pool_constructor uri nm s =
     (length (db_heap s),
      s\<lparr>db_heap := db_heap s @ [Some \<lparr>pool_path = uri, pool_name = nm, pool_db = No_Handle\<rparr>]\<rparr>)"

text \<open>The pool that a pointer leads to.\<close>

definition pool_at :: "db_program \<Rightarrow> nat \<Rightarrow> database_pool run" where
  "pool_at s i =
     (if length (db_heap s) \<le> i then Inl Out_Of_Bounds
      else case db_heap s ! i of None \<Rightarrow> Inl Use_After_Free | Some pool \<Rightarrow> Inr pool)"

definition open_connect :: "int \<Rightarrow> nat \<Rightarrow> db_program \<Rightarrow> (int \<times> db_program) run" where
  "open_connect open_ret i s =
     and_then (pool_at s i) (\<lambda>pool.
       if open_ret \<noteq> 0
       then Inr (-1, s\<lparr>db_heap := (db_heap s)[i := Some (pool\<lparr>pool_db := Stale_Handle\<rparr>)]\<rparr>)
       else Inr (0, s\<lparr>db_heap := (db_heap s)[i := Some (pool\<lparr>pool_db := Open_Handle\<rparr>)]\<rparr>))"

definition close_connect :: "int \<Rightarrow> nat \<Rightarrow> db_program \<Rightarrow> (int \<times> db_program) run" where
  "close_connect close_ret i s =
     and_then (pool_at s i) (\<lambda>pool.
       if pool_db pool = Stale_Handle then Inl Use_After_Free
       else if close_ret \<noteq> 0 then Inr (-1, s)
       else Inr (0, s\<lparr>db_heap := (db_heap s)[i := Some (pool\<lparr>pool_db :=
              (if pool_db pool = No_Handle then No_Handle else Stale_Handle)\<rparr>)]\<rparr>))"

definition database_pool_destructor :: "int \<Rightarrow> nat \<Rightarrow> db_program \<Rightarrow> db_program run" where
  "database_pool_destructor close_ret i s =
     and_then (pool_at s i) (\<lambda>pool.
     and_then (if pool_db pool \<noteq> No_Handle
               then and_then (close_connect close_ret i s) (\<lambda>(_, s). Inr s) else Inr s) (\<lambda>s.
       Inr (s\<lparr>db_heap := (db_heap s)[i := None]\<rparr>)))"

section \<open>Statements\<close>

definition SQLITE_OK :: int where "SQLITE_OK = 0"

definition SQLITE_ROW :: int where "SQLITE_ROW = 100"

definition SQLITE_DONE :: int where "SQLITE_DONE = 101"

text \<open>
  The loop over \<open>sqlite3_step\<close>: it yields the rows and then a code that is not \<open>SQLITE_ROW\<close>. A row
  without a callback ends the loop.
\<close>

fun step_loop :: "('r \<Rightarrow> 's \<Rightarrow> 's run) option \<Rightarrow> 'r list \<Rightarrow> int \<Rightarrow> 's \<Rightarrow> (int \<times> 's) run" where
  "step_loop callback [] last_ret arg = Inr (last_ret, arg)"
| "step_loop None (r # rs) last_ret arg = Inr (SQLITE_ROW, arg)"
| "step_loop (Some callback) (r # rs) last_ret arg =
     and_then (callback r arg) (step_loop (Some callback) rs last_ret)"

definition exec :: "int \<Rightarrow> 'r list \<Rightarrow> int \<Rightarrow> ('r \<Rightarrow> 's \<Rightarrow> 's run) option \<Rightarrow> 's \<Rightarrow> (int \<times> 's) run" where
  "exec prepare_ret rows last_ret callback arg =
     (if prepare_ret \<noteq> SQLITE_OK then Inr (-1, arg)
      else and_then (step_loop callback rows last_ret arg) (\<lambda>(ret, arg).
        if ret \<noteq> SQLITE_DONE then Inr (ret, arg) else Inr (SQLITE_OK, arg)))"

section \<open>The manager\<close>

definition database_manager_constructor :: "nat dictionary" where
  "database_manager_constructor = dictionary_constructor"

definition get_db_manager :: "db_program \<Rightarrow> nat dictionary" where
  "get_db_manager s = (case manager s of None \<Rightarrow> database_manager_constructor | Some m \<Rightarrow> m)"

definition pool_name_or_default :: "string option \<Rightarrow> string" where
  "pool_name_or_default nm = (case nm of None \<Rightarrow> ''default'' | Some x \<Rightarrow> x)"

text \<open>The pointer the search returns is read without a test.\<close>

definition get_pool :: "slack \<Rightarrow> nat dictionary \<Rightarrow> string option \<Rightarrow> nat run" where
  "get_pool slack m nm =
     (let nm = pool_name_or_default nm
      in and_then (search_dict slack m nm (length nm)) deref)"

definition add_pool :: "slack \<Rightarrow> nat dictionary \<Rightarrow> string \<Rightarrow> nat \<Rightarrow> (int \<times> nat dictionary) run" where
  "add_pool slack m nm pool =
     and_then (search_dict slack m nm (length nm)) (\<lambda>found.
       if found \<noteq> None then Inr (-1, m)
       else and_then (insert_dict slack m nm (length nm) pool) (\<lambda>m. Inr (0, m)))"

definition connect_db ::
  "slack \<Rightarrow> int \<Rightarrow> int \<Rightarrow> string \<Rightarrow> string option \<Rightarrow> db_program \<Rightarrow> (int \<times> db_program) run" where
  "connect_db slack open_ret close_ret uri nm s =
     (let m = get_db_manager s;
          s = s\<lparr>manager := Some m\<rparr>;
          nm = pool_name_or_default nm;
          (pool, s) = database_pool_constructor uri nm s
      in and_then (add_pool slack m nm pool) (\<lambda>(r, m).
         if r \<noteq> 0 then and_then (database_pool_destructor close_ret pool s) (\<lambda>s. Inr (-1, s))
         else open_connect open_ret pool (s\<lparr>manager := Some m\<rparr>)))"

definition get_key_size :: "string \<Rightarrow> nat" where
  "get_key_size key = length key"

text \<open>
  The value is the block that holds the pointer to the pool; the callback takes the block itself
  for the pool.
\<close>

definition db_manager_des_callback :: "string \<Rightarrow> nat option \<Rightarrow> db_program \<Rightarrow> db_program run" where
  "db_manager_des_callback key v s = and_then (deref v) (\<lambda>_. Inl Type_Confusion)"

definition database_manager_destructor :: "slack \<Rightarrow> nat dictionary \<Rightarrow> db_program \<Rightarrow> db_program run" where
  "database_manager_destructor slack m s =
     and_then (iterate_dict slack m get_key_size db_manager_des_callback s) (\<lambda>s.
     and_then (dictionary_destructor m) (\<lambda>_. Inr s))"

section \<open>Lemmas\<close>

text \<open>The name a pool is stored under.\<close>

definition pool_key_ok :: "string option \<Rightarrow> bool" where
  "pool_key_ok nm \<longleftrightarrow> nul_free (pool_name_or_default nm) \<and> 2 \<le> length (pool_name_or_default nm)"

definition manager_ok :: "slack \<Rightarrow> db_program \<Rightarrow> bool" where
  "manager_ok slack s \<longleftrightarrow> dict_wf slack (get_db_manager s)
     \<and> (\<forall>nm i. dict_map slack (get_db_manager s) nm = Some i \<longrightarrow> i < length (db_heap s))"

lemma get_pool_eq:
  "dict_wf slack m \<Longrightarrow> pool_key_ok nm \<Longrightarrow>
   get_pool slack m nm = deref (dict_map slack m (pool_name_or_default nm))"
  by (simp add: get_pool_def pool_key_ok_def dict_bare.look_ok Let_def)

lemma connect_db_fresh:
  assumes "manager_ok slack s" and "pool_key_ok nm"
    and "dict_map slack (get_db_manager s) (pool_name_or_default nm) = None"
  shows "\<exists>s'. connect_db slack open_ret close_ret uri nm s = Inr (if open_ret = 0 then 0 else -1, s')
    \<and> manager_ok slack s'
    \<and> get_pool slack (get_db_manager s') nm = Inr (length (db_heap s))
    \<and> pool_at s' (length (db_heap s)) = Inr \<lparr>pool_path = uri, pool_name = pool_name_or_default nm,
        pool_db = (if open_ret = 0 then Open_Handle else Stale_Handle)\<rparr>
    \<and> (\<forall>i < length (db_heap s). pool_at s' i = pool_at s i)"
proof -
  let ?m = "get_db_manager s" and ?k = "pool_name_or_default nm" and ?i = "length (db_heap s)"
  have wf: "dict_wf slack ?m" and k: "nul_free ?k" "2 \<le> length ?k"
    using assms by (auto simp: manager_ok_def pool_key_ok_def)
  have look: "search_dict slack ?m ?k (length ?k) = Inr None"
    using dict_bare.look_ok [OF wf, of ?k] k assms(3) by simp
  obtain m' where m': "insert_dict slack ?m ?k (length ?k) ?i = Inr m'" "dict_wf slack m'"
    "dict_map slack m' = (dict_map slack ?m)(?k \<mapsto> ?i)"
    using dict_bare.ins_ok [OF wf, of ?k ?i] k assms(3) by (auto simp: domIff)
  let ?p = "\<lparr>pool_path = uri, pool_name = ?k,
    pool_db = (if open_ret = 0 then Open_Handle else Stale_Handle)\<rparr>"
  let ?s = "s\<lparr>manager := Some m', db_heap := db_heap s @ [Some ?p]\<rparr>"
  have c: "connect_db slack open_ret close_ret uri nm s = Inr (if open_ret = 0 then 0 else -1, ?s)"
    using look m'(1) by (simp add: connect_db_def database_pool_constructor_def add_pool_def
        open_connect_def pool_at_def Let_def)
  have man: "get_db_manager ?s = m'" by (simp add: get_db_manager_def)
  have "manager_ok slack ?s" unfolding manager_ok_def man
    using assms(1) m'(2,3) by (auto simp: manager_ok_def less_SucI)
  moreover have "get_pool slack m' nm = Inr ?i"
    using get_pool_eq [OF m'(2) assms(2)] m'(3) by (simp add: deref_def)
  ultimately show ?thesis unfolding c using man
    by (intro exI [of _ ?s]) (auto simp: pool_at_def nth_append)
qed

lemma connect_db_taken:
  assumes "manager_ok slack s" and "pool_key_ok nm"
    and "dict_map slack (get_db_manager s) (pool_name_or_default nm) = Some i"
  shows "\<exists>s'. connect_db slack open_ret close_ret uri nm s = Inr (-1, s')
    \<and> get_db_manager s' = get_db_manager s \<and> (\<forall>j < length (db_heap s). pool_at s' j = pool_at s j)"
proof -
  let ?m = "get_db_manager s" and ?k = "pool_name_or_default nm"
  have look: "search_dict slack ?m ?k (length ?k) = Inr (Some i)"
    using dict_bare.look_ok [of slack ?m ?k] assms by (auto simp: manager_ok_def pool_key_ok_def)
  let ?s = "s\<lparr>manager := Some ?m, db_heap := db_heap s @ [None]\<rparr>"
  have "connect_db slack open_ret close_ret uri nm s = Inr (-1, ?s)"
    using look by (simp add: connect_db_def database_pool_constructor_def add_pool_def
        database_pool_destructor_def pool_at_def Let_def)
  then show ?thesis
    by (intro exI [of _ ?s]) (auto simp: get_db_manager_def pool_at_def nth_append)
qed

lemma step_loop_Some:
  "step_loop (Some (\<lambda>r (x, s). callback r x s)) rows last_ret (x, s) =
   and_then (each_row callback rows x s) (\<lambda>xs. Inr (last_ret, xs))"
proof (induction rows arbitrary: x s)
  case (Cons r rows)
  then show ?case
    by (cases "callback r x s") (auto simp: bind_def and_then_assoc split: prod.split)
qed (simp add: ret_def)

section \<open>Properties\<close>

text \<open>
  Opening a database under a name that is free: the pool is registered, \<open>get_pool\<close> finds it by
  the name, it holds the path and an open connection (or, when \<open>sqlite3_open\<close> failed, -1 is returned
  and the registered pool keeps the closed connection), and the other pools are unchanged.
\<close>

lemma connect_then_get_pool:
  assumes "manager_ok slack s" and "pool_key_ok nm"
    and "dict_map slack (get_db_manager s) (pool_name_or_default nm) = None"
  shows "\<exists>s'. connect_db slack open_ret close_ret uri nm s = Inr (if open_ret = 0 then 0 else -1, s')
    \<and> manager_ok slack s' \<and> (\<forall>i < length (db_heap s). pool_at s' i = pool_at s i)
    \<and> and_then (get_pool slack (get_db_manager s') nm) (pool_at s')
      = Inr \<lparr>pool_path = uri, pool_name = pool_name_or_default nm,
             pool_db = (if open_ret = 0 then Open_Handle else Stale_Handle)\<rparr>"
proof -
  obtain s' where s': "connect_db slack open_ret close_ret uri nm s = Inr (if open_ret = 0 then 0 else -1, s')"
    "manager_ok slack s'" "get_pool slack (get_db_manager s') nm = Inr (length (db_heap s))"
    "pool_at s' (length (db_heap s)) = Inr \<lparr>pool_path = uri, pool_name = pool_name_or_default nm,
        pool_db = (if open_ret = 0 then Open_Handle else Stale_Handle)\<rparr>"
    "\<forall>i < length (db_heap s). pool_at s' i = pool_at s i"
    using connect_db_fresh [OF assms] by blast
  then show ?thesis by (intro exI [of _ s']) simp
qed

lemma connect_then_get_pool_witness:
  "\<exists>s'. connect_db (\<lambda>b. []) 0 0 ''data.db'' None \<lparr>manager = None, db_heap = []\<rparr> = Inr (0, s')
    \<and> and_then (get_pool (\<lambda>b. []) (get_db_manager s') None) (pool_at s')
      = Inr \<lparr>pool_path = ''data.db'', pool_name = ''default'', pool_db = Open_Handle\<rparr>"
  using connect_then_get_pool [of "\<lambda>b. []" "\<lparr>manager = None, db_heap = []\<rparr>" None 0 0 "''data.db''"]
  by (auto simp: manager_ok_def get_db_manager_def database_manager_constructor_def pool_key_ok_def
      pool_name_or_default_def NUL_def)

text \<open>
  A name that is taken keeps its pool: a second connection under it returns -1 and every
  \<open>get_pool\<close> answers as before.
\<close>

lemma connect_twice_rejected:
  assumes "manager_ok slack s" and "pool_key_ok nm"
    and "get_pool slack (get_db_manager s) nm = Inr i"
  shows "\<exists>s'. connect_db slack open_ret close_ret uri nm s = Inr (-1, s')
    \<and> get_pool slack (get_db_manager s') other = get_pool slack (get_db_manager s) other
    \<and> pool_at s' i = pool_at s i"
proof -
  have "dict_map slack (get_db_manager s) (pool_name_or_default nm) = Some i"
    using assms get_pool_eq [of slack "get_db_manager s" nm] by (auto simp: manager_ok_def run_simps)
  moreover from this have "i < length (db_heap s)" using assms(1) by (auto simp: manager_ok_def)
  ultimately show ?thesis using connect_db_taken [OF assms(1,2), of i open_ret close_ret uri] by auto
qed

lemma connect_twice_rejected_witness:
  "\<exists>s1 s2. connect_db (\<lambda>b. []) 0 0 ''a.db'' None \<lparr>manager = None, db_heap = []\<rparr> = Inr (0, s1)
    \<and> connect_db (\<lambda>b. []) 0 0 ''b.db'' None s1 = Inr (-1, s2)"
proof -
  let ?s0 = "\<lparr>manager = None, db_heap = []\<rparr>"
  have k: "pool_key_ok None" by (simp add: pool_key_ok_def pool_name_or_default_def NUL_def)
  have "manager_ok (\<lambda>b. []) ?s0" "dict_map (\<lambda>b. []) (get_db_manager ?s0) (pool_name_or_default None) = None"
    by (simp_all add: manager_ok_def get_db_manager_def database_manager_constructor_def)
  then obtain s1 where s1: "connect_db (\<lambda>b. []) 0 0 ''a.db'' None ?s0 = Inr (0, s1)"
    "manager_ok (\<lambda>b. []) s1" "get_pool (\<lambda>b. []) (get_db_manager s1) None = Inr 0"
    using connect_db_fresh [of "\<lambda>b. []" ?s0 None 0 0 "''a.db''"] k by auto
  then show ?thesis using connect_twice_rejected [OF s1(2) k s1(3), of 0 0 "''b.db''" None] by blast
qed

text \<open>
  The loop of \<open>exec\<close> is the reading of all rows: for an action as callback it returns \<open>SQLITE_OK\<close>
  with what the callback made of the rows, one after the other, exactly when the statement was
  prepared and ended with \<open>SQLITE_DONE\<close>; without a callback a row is an error.
\<close>

lemma exec_reads_all_rows:
  "exec prepare_ret rows last_ret (Some (\<lambda>r (x, s). callback r x s)) (x, s) =
    (if prepare_ret \<noteq> SQLITE_OK then Inr (-1, x, s)
     else and_then (each_row callback rows x s)
       (\<lambda>xs. Inr (if last_ret = SQLITE_DONE then SQLITE_OK else last_ret, xs)))
   \<and> exec prepare_ret (r # rows) last_ret None s =
     Inr (if prepare_ret \<noteq> SQLITE_OK then -1 else SQLITE_ROW, s)"
  by (auto simp: exec_def step_loop_Some and_then_assoc SQLITE_ROW_def SQLITE_DONE_def intro!: and_then_cong)

text \<open>
  The manager cannot be destroyed once a pool is registered: the destructor takes the block that
  holds the pointer to a pool for the pool itself.
\<close>

lemma manager_destructor_faults:
  assumes "ll_wf (keys m)" and "chain (keys m) \<noteq> []"
  shows "\<exists>f. database_manager_destructor slack m s = Inl f"
proof -
  have cb: "\<exists>f. db_manager_des_callback key v s = Inl f" for key v and s :: db_program
    by (cases v) (auto simp: db_manager_des_callback_def)
  have "\<exists>f. iterate_dict slack m get_key_size db_manager_des_callback s = Inl f"
  proof -
    obtain k ks where c: "chain (keys m) = k # ks" using assms(2) by (cases "chain (keys m)") auto
    have n: "nat (len (keys m)) = Suc (length ks)" using assms(1) c by (simp add: ll_wf_def)
    have "\<exists>f. and_then (retrieve_ll (keys m) (int 0)) (\<lambda>p. and_then (deref p) (\<lambda>block.
        let key = read_cstr slack block
        in and_then (search_dict slack m key (get_key_size key)) (\<lambda>v. db_manager_des_callback key v s))) = Inl f"
    proof -
      have "retrieve_ll (keys m) (int 0) = Inr (Some k)" using assms(1) c by (simp add: retrieve_ll_eq)
      then show ?thesis using cb
        by (cases "search_dict slack m (read_cstr slack k) (get_key_size (read_cstr slack k))")
          (auto simp: deref_def Let_def)
    qed
    then show ?thesis unfolding iterate_dict_def n upt_conv_Cons [OF zero_less_Suc] fold_run.simps
      by (elim exE) (simp only: and_then_Inl, blast)
  qed
  then show ?thesis by (auto simp: database_manager_destructor_def)
qed

lemma manager_destructor_faults_witness:
  "\<exists>m f. insert_dict (\<lambda>b. []) dictionary_constructor ''default'' 7 0 = Inr m
    \<and> database_manager_destructor (\<lambda>b. []) m \<lparr>manager = Some m, db_heap = []\<rparr> = Inl f"
proof -
  obtain m where m: "insert_dict (\<lambda>b. []) dictionary_constructor ''default'' 7 (0 :: nat) = Inr m"
    "dict_wf (\<lambda>b. []) m" "chain (keys m) = [copy_str ''default'' 7]"
    using insert_dict_eq [of "\<lambda>b. []" dictionary_constructor "''default''" 7 "0 :: nat"]
    by (auto simp: key_size_ok_def NUL_def)
  then show ?thesis using manager_destructor_faults [of m "\<lambda>b. []" "\<lparr>manager = Some m, db_heap = []\<rparr>"]
    by (auto simp: dict_wf_def)
qed

end
