(* ===== verification/Startup.thy ===== *)
theory Startup
  imports Database Application "HOL-Library.Multiset"
begin

text \<open>
  The program \<open>main/http.c\<close>: it connects to the database, runs the statements of
  \<open>create_table.sql\<close>, and closes when the operator says so. SQLite is the parameter \<open>sqlite\<close>: what
  \<open>sqlite3_prepare_v2\<close> and \<open>sqlite3_step\<close> do with a text to the database \<open>'d\<close>; the results of these
  statements are not used.
\<close>

section \<open>The statements of a file\<close>

definition DATABASE_URI :: string where "DATABASE_URI = ''test.sqlite''"

text \<open>\<open>exec\<close> on the pool \<open>i\<close>.\<close>

definition exec_on :: "(string \<Rightarrow> 'd \<Rightarrow> 'd) \<Rightarrow> nat \<Rightarrow> string \<Rightarrow> db_program \<times> 'd \<Rightarrow> (db_program \<times> 'd) run" where
  "exec_on sqlite i sql = (\<lambda>(s, d).
     and_then (pool_at s i) (\<lambda>pool.
       if pool_db pool = Stale_Handle then Inl Use_After_Free else Inr (s, sqlite sql d)))"

text \<open>
  The loop over \<open>strtok\<close>; \<open>mem\<close> is the memory from where it goes on, up to the last known NUL.
  \<open>strtok\<close> skips semicolons and ends the token at the next semicolon or NUL; \<open>token[strlen(token)] = ';'\<close>
  puts a semicolon there, whatever was there, so that the text given to \<open>exec\<close> goes on to the next NUL.
\<close>

lemma behind_shorter:
  assumes "rest = dropWhile P mem" and "rest \<noteq> []"
  shows "length (drop (Suc k) rest) < length mem"
proof -
  have "length rest \<le> length mem" by (simp only: assms(1) dropWhile_length_le)
  moreover have "0 < length rest" using assms(2) by (simp only: length_greater_0_conv not_False_eq_True)
  ultimately show ?thesis unfolding length_drop by arith
qed

function exec_tokens :: "(string \<Rightarrow> 's \<Rightarrow> 's run) \<Rightarrow> string \<Rightarrow> 's \<Rightarrow> 's run" where
  "exec_tokens ex mem s =
     (let rest = dropWhile (\<lambda>c. c = CHR '';'') mem
      in if rest = [] then Inl Out_Of_Bounds
         else if hd rest = NUL then Inr s
         else let token = takeWhile (\<lambda>c. c \<noteq> CHR '';'' \<and> c \<noteq> NUL) rest;
                  behind = drop (length token + 1) rest
              in if NUL \<notin> set behind then Inl Out_Of_Bounds
                 else and_then (ex (token @ CHR '';'' # takeWhile (\<lambda>c. c \<noteq> NUL) behind) s)
                   (exec_tokens ex behind))"
  by pat_completeness auto
termination
  by (relation "measure (\<lambda>(ex, mem, s). length mem)", simp)
    (simp only: in_measure prod.case Suc_eq_plus1 [symmetric] behind_shorter not_False_eq_True)

declare exec_tokens.simps [simp del]

text \<open>
  \<open>buffer\<close> is what \<open>read\<close> put into the block of \<open>num\<close> bytes, None when the file cannot be opened or read.
\<close>

definition init_database ::
  "slack \<Rightarrow> (string \<Rightarrow> 'd \<Rightarrow> 'd) \<Rightarrow> nat \<Rightarrow> string option \<Rightarrow> db_program \<times> 'd \<Rightarrow> (db_program \<times> 'd) run" where
  "init_database slack sqlite pool buffer s =
     (case buffer of
        None \<Rightarrow> Inr s
      | Some b \<Rightarrow> exec_tokens (exec_on sqlite pool) (b @ slack b @ [NUL]) s)"

section \<open>The program\<close>

definition startup ::
  "slack \<Rightarrow> int \<Rightarrow> int \<Rightarrow> (string \<Rightarrow> 'd \<Rightarrow> 'd) \<Rightarrow> string option \<Rightarrow> db_program \<times> 'd \<Rightarrow> (db_program \<times> 'd) run" where
  "startup slack open_ret close_ret sqlite buffer = (\<lambda>(s, d).
     and_then (connect_db slack open_ret close_ret DATABASE_URI None s) (\<lambda>(ret, s).
     and_then (get_pool slack (get_db_manager s) None) (\<lambda>pool.
     and_then (exec_on sqlite pool ''SELECT SQLITE_VERSION() as sqlite_version'' (s, d))
       (init_database slack sqlite pool buffer))))"

text \<open>The answer of the operator is scanned into ten bytes; True stands for the \<open>longjmp\<close>.\<close>

definition sigintHandler :: "string \<Rightarrow> bool run" where
  "sigintHandler chose = (if 10 \<le> length chose then Inl Out_Of_Bounds else Inr (strcmp chose ''y'' = 0))"

text \<open>The server that is destroyed has no workers here; those of \<open>http_launch\<close> are in \<open>Pool_Shutdown\<close>.\<close>

definition http_server_destructor :: "'h http_server \<Rightarrow> (int \<times> (string \<times> 'h route) list) run" where
  "http_server_destructor srv =
     and_then (server_destructor (http_socket srv)) (\<lambda>(fd, _).
     and_then (dictionary_destructor (routes srv)) (\<lambda>(_, freed). Inr (fd, freed)))"

text \<open>What \<open>main\<close> does after the \<open>longjmp\<close>, and the whole reaction to an interrupt: None when it goes on.\<close>

definition close_program ::
  "slack \<Rightarrow> 'h http_server \<Rightarrow> db_program \<Rightarrow> (int \<times> (string \<times> 'h route) list) run" where
  "close_program slack srv s =
     and_then (database_manager_destructor slack (get_db_manager s) s) (\<lambda>s. http_server_destructor srv)"

definition interrupt ::
  "slack \<Rightarrow> string \<Rightarrow> 'h http_server \<Rightarrow> db_program \<Rightarrow> (int \<times> (string \<times> 'h route) list) option run" where
  "interrupt slack chose srv s =
     and_then (sigintHandler chose) (\<lambda>yes.
       if yes then and_then (close_program slack srv s) (\<lambda>r. Inr (Some r)) else Inr None)"

section \<open>Lemmas\<close>

text \<open>Statements as a file writes them: not empty, without semicolon and NUL.\<close>

definition statement_ok :: "string \<Rightarrow> bool" where
  "statement_ok t \<longleftrightarrow> t \<noteq> [] \<and> CHR '';'' \<notin> set t \<and> nul_free t"

definition sql_file :: "string list \<Rightarrow> string" where
  "sql_file ts = concat (map (\<lambda>t. t @ '';'') ts)"

lemma sql_file_simps [simp]: "sql_file [] = []" "sql_file (t # ts) = t @ CHR '';'' # sql_file ts"
  by (simp_all add: sql_file_def)

lemma sql_file_nul_free: "\<forall>t \<in> set ts. statement_ok t \<Longrightarrow> nul_free (sql_file ts)"
  by (induction ts) (auto simp: statement_ok_def NUL_def)

lemma exec_tokens_end: "exec_tokens ex [NUL] s = Inr s"
  by (subst exec_tokens.simps) (simp add: NUL_def)

lemma exec_tokens_statement:
  assumes "statement_ok t" and "nul_free m"
  shows "exec_tokens ex (t @ CHR '';'' # m @ [NUL]) s
    = and_then (ex (t @ CHR '';'' # m) s) (exec_tokens ex (m @ [NUL]))"
proof -
  have t: "t \<noteq> []" "CHR '';'' \<notin> set t" "NUL \<notin> set t"
    using assms(1) by (auto simp: statement_ok_def nul_free_def)
  then have h: "hd t \<noteq> CHR '';''" "hd t \<noteq> NUL" by (metis hd_in_set)+
  have m: "\<forall>c \<in> set m. c \<noteq> NUL" using assms(2) by (auto simp: nul_free_def)
  have d: "dropWhile (\<lambda>c. c = CHR '';'') (t @ x) = t @ x" for x
    using t by (cases t) auto
  have k: "takeWhile (\<lambda>c. c \<noteq> CHR '';'' \<and> c \<noteq> NUL) (t @ CHR '';'' # x) = t" for x
    using t by (intro takeWhile_append_stop) auto
  have w: "takeWhile (\<lambda>c. c \<noteq> NUL) (m @ [NUL]) = m" using m by (intro takeWhile_append_stop) auto
  show ?thesis
    by (subst exec_tokens.simps) (simp add: d k w t h Let_def)
qed

lemma exec_tokens_unfinished:
  assumes "statement_ok t"
  shows "exec_tokens ex (t @ [NUL]) s = Inl Out_Of_Bounds"
proof -
  have t: "t \<noteq> []" "CHR '';'' \<notin> set t" "NUL \<notin> set t"
    using assms(1) by (auto simp: statement_ok_def nul_free_def)
  then have h: "hd t \<noteq> CHR '';''" "hd t \<noteq> NUL" by (metis hd_in_set)+
  have d: "dropWhile (\<lambda>c. c = CHR '';'') (t @ x) = t @ x" for x
    using t by (cases t) auto
  have k: "takeWhile (\<lambda>c. c \<noteq> CHR '';'' \<and> c \<noteq> NUL) (t @ [NUL]) = t"
    using t by (intro takeWhile_append_stop) auto
  show ?thesis
    by (subst exec_tokens.simps) (simp add: d k t h Let_def)
qed

text \<open>What the statements of a file do when each is run alone.\<close>

definition run_file :: "(string \<Rightarrow> 'd \<Rightarrow> 'd) \<Rightarrow> string list \<Rightarrow> 'd \<Rightarrow> 'd" where
  "run_file sqlite ts = fold (\<lambda>t. sqlite (t @ '';'')) ts"

text \<open>\<open>sqlite3_prepare_v2\<close> compiles the first statement of a text.\<close>

definition first_statement_only :: "(string \<Rightarrow> 'd \<Rightarrow> 'd) \<Rightarrow> string list \<Rightarrow> bool" where
  "first_statement_only sqlite ts \<longleftrightarrow>
     (\<forall>t \<in> set ts. \<forall>rest d. sqlite (t @ CHR '';'' # rest) d = sqlite (t @ '';'') d)"

lemma first_statement_Cons:
  assumes "first_statement_only sqlite (t # ts)"
  shows "sqlite (t @ CHR '';'' # rest) d = sqlite (t @ '';'') d" and "first_statement_only sqlite ts"
  using assms unfolding first_statement_only_def by (metis list.set_intros(1), metis list.set_intros(2))

lemma exec_on_open:
  "pool_at s i = Inr pool \<Longrightarrow> pool_db pool \<noteq> Stale_Handle \<Longrightarrow> exec_on sqlite i sql (s, d) = Inr (s, sqlite sql d)"
  by (simp add: exec_on_def)

lemma exec_file:
  assumes "\<forall>t \<in> set ts. statement_ok t" and "first_statement_only sqlite ts"
    and "pool_at s i = Inr pool" and "pool_db pool \<noteq> Stale_Handle" and "nul_free u"
  shows "exec_tokens (exec_on sqlite i) (sql_file ts @ u @ [NUL]) (s, d)
    = exec_tokens (exec_on sqlite i) (u @ [NUL]) (s, run_file sqlite ts d)"
  using assms(1,2)
proof (induction ts arbitrary: d)
  case (Cons t ts)
  then have ok: "statement_ok t" "\<forall>t \<in> set ts. statement_ok t" by simp_all
  note fs = first_statement_Cons [OF Cons.prems(2)]
  have nf: "nul_free (sql_file ts @ u)" using sql_file_nul_free [OF ok(2)] assms(5) by simp
  have "exec_tokens (exec_on sqlite i) (sql_file (t # ts) @ u @ [NUL]) (s, d)
    = exec_tokens (exec_on sqlite i) (t @ CHR '';'' # (sql_file ts @ u) @ [NUL]) (s, d)" by simp
  also have "\<dots> = exec_tokens (exec_on sqlite i) ((sql_file ts @ u) @ [NUL]) (s, sqlite (t @ '';'') d)"
    by (simp only: exec_tokens_statement [OF ok(1) nf] exec_on_open [OF assms(3,4)] fs(1) [of "sql_file ts @ u"] and_then_Inr)
  also have "\<dots> = exec_tokens (exec_on sqlite i) (u @ [NUL]) (s, run_file sqlite ts (sqlite (t @ '';'') d))"
    using Cons.IH [OF ok(2) fs(2), of "sqlite (t @ '';'') d"] by (simp only: append_assoc)
  finally show ?case by (simp only: run_file_def fold.simps o_apply)
qed (simp add: run_file_def)

text \<open>The destructor of a dictionary hands every entry to its destructor once.\<close>

lemma destroy_entries:
  "mset (recursive_dictionary_destroy t) = image_mset entry_destructor (mset (inorder t))"
  by (induction t) simp_all

lemma http_server_destructor_frees:
  assumes "ll_wf (keys (server_routes (http_socket srv)))" and "ll_wf (keys (routes srv))"
  shows "\<exists>freed. http_server_destructor srv = Inr (socket_fd (http_socket srv), freed)
    \<and> mset freed = image_mset entry_destructor (mset (inorder (tree (routes srv))))"
proof -
  have d: "\<exists>l'. linked_list_destructor l = Inr l'" if "ll_wf l" for l :: "string linked_list"
    using destroy_loop_eq [OF that, of 0] by (auto simp: linked_list_destructor_def)
  then show ?thesis using d [OF assms(1)] d [OF assms(2)] destroy_entries [of "tree (routes srv)"]
    by (auto simp: http_server_destructor_def server_destructor_def dictionary_destructor_def)
qed

text \<open>The program before \<open>connect_db\<close>, and after it.\<close>

definition no_manager :: db_program where
  "no_manager = \<lparr>manager = None, db_heap = []\<rparr>"

lemma connected:
  "\<exists>s'. connect_db slack open_ret close_ret DATABASE_URI None no_manager = Inr (if open_ret = 0 then 0 else -1, s')
    \<and> get_pool slack (get_db_manager s') None = Inr 0
    \<and> ll_wf (keys (get_db_manager s')) \<and> chain (keys (get_db_manager s')) \<noteq> []
    \<and> pool_at s' 0 = Inr \<lparr>pool_path = DATABASE_URI, pool_name = ''default'',
        pool_db = (if open_ret = 0 then Open_Handle else Stale_Handle)\<rparr>"
proof -
  let ?d = "dictionary_constructor :: nat dictionary"
  obtain m where m: "insert_dict slack ?d ''default'' (length ''default'') 0 = Inr m" "dict_wf slack m"
    "dict_map slack m = [''default'' \<mapsto> 0]" "chain (keys m) = [copy_str ''default'' (length ''default'')]"
    using insert_dict_eq [of slack ?d "''default''" "length ''default''" 0] by (auto simp: key_size_ok_def NUL_def)
  let ?s = "\<lparr>manager = Some m, db_heap = [Some \<lparr>pool_path = DATABASE_URI, pool_name = ''default'',
        pool_db = (if open_ret = 0 then Open_Handle else Stale_Handle)\<rparr>]\<rparr>"
  have k: "nul_free ''default''" "2 \<le> length ''default''" by (simp_all add: NUL_def)
  have look: "search_dict slack ?d ''default'' (length ''default'') = Inr None"
    using dict_bare.look_ok [of slack ?d "''default''"] k by simp
  have "connect_db slack open_ret close_ret DATABASE_URI None no_manager = Inr (if open_ret = 0 then 0 else -1, ?s)"
    using look m(1) by (simp add: no_manager_def connect_db_def database_pool_constructor_def add_pool_def
        get_db_manager_def database_manager_constructor_def pool_name_or_default_def open_connect_def pool_at_def)
  moreover have "get_pool slack m None = Inr 0"
    using get_pool_eq [OF m(2), of None] m(3) k by (simp add: pool_key_ok_def pool_name_or_default_def)
  ultimately show ?thesis using m(2,4)
    by (intro exI [of _ ?s]) (simp add: get_db_manager_def pool_at_def dict_wf_def)
qed

text \<open>Statements do not touch the pools.\<close>

lemma exec_tokens_invariant:
  assumes "\<And>sql s s'. ex sql s = Inr s' \<Longrightarrow> P s \<Longrightarrow> P s'"
  shows "exec_tokens ex mem s = Inr s' \<Longrightarrow> P s \<Longrightarrow> P s'"
  using assms
proof (induction ex mem s rule: exec_tokens.induct)
  case (1 ex mem s)
  let ?rest = "dropWhile (\<lambda>c. c = CHR '';'') mem"
  let ?token = "takeWhile (\<lambda>c. c \<noteq> CHR '';'' \<and> c \<noteq> NUL) ?rest"
  let ?behind = "drop (length ?token + 1) ?rest"
  let ?text = "?token @ CHR '';'' # takeWhile (\<lambda>c. c \<noteq> NUL) ?behind"
  have "s' = s \<or> ?rest \<noteq> [] \<and> hd ?rest \<noteq> NUL \<and> NUL \<in> set ?behind
      \<and> (\<exists>s1. ex ?text s = Inr s1 \<and> exec_tokens ex ?behind s1 = Inr s')"
    using "1.prems"(1) unfolding exec_tokens.simps [of ex mem s] Let_def
    by (simp only: and_then_eq_Inr split: if_splits) simp_all
  then show ?case
  proof (elim disjE conjE exE)
    fix s1
    assume r: "?rest \<noteq> []" "hd ?rest \<noteq> NUL" "NUL \<in> set ?behind"
      and s1: "ex ?text s = Inr s1" "exec_tokens ex ?behind s1 = Inr s'"
    have "P s1" using "1.prems"(3) [OF s1(1) "1.prems"(2)] .
    then show "P s'" using "1.IH" [OF refl r(1,2) refl refl _ s1(1,2)] r(3) "1.prems"(3) by blast
  qed (use "1.prems" in simp)
qed

lemma exec_tokens_pools: "exec_tokens (exec_on sqlite i) mem (s, d) = Inr (s', d') \<Longrightarrow> s' = s"
  using exec_tokens_invariant [of "exec_on sqlite i" "\<lambda>x. fst x = s" mem "(s, d)" "(s', d')"]
  by (fastforce simp: exec_on_def run_simps split: if_splits)

text \<open>A start with a database that can be opened.\<close>

lemma startup_eq:
  "\<exists>s pool. connect_db slack 0 close_ret DATABASE_URI None no_manager = Inr (0, s)
    \<and> pool_at s 0 = Inr pool \<and> pool_db pool \<noteq> Stale_Handle
    \<and> ll_wf (keys (get_db_manager s)) \<and> chain (keys (get_db_manager s)) \<noteq> []
    \<and> (\<forall>buffer d. startup slack 0 close_ret sqlite buffer (no_manager, d)
        = init_database slack sqlite 0 buffer (s, sqlite ''SELECT SQLITE_VERSION() as sqlite_version'' d))"
proof -
  obtain s pool where c: "connect_db slack 0 close_ret DATABASE_URI None no_manager = Inr (0, s)"
    "get_pool slack (get_db_manager s) None = Inr 0" "pool_at s 0 = Inr pool" "pool_db pool \<noteq> Stale_Handle"
    "ll_wf (keys (get_db_manager s))" "chain (keys (get_db_manager s)) \<noteq> []"
    using connected [of slack 0 close_ret] by auto
  have "startup slack 0 close_ret sqlite buffer (no_manager, d)
    = init_database slack sqlite 0 buffer (s, sqlite ''SELECT SQLITE_VERSION() as sqlite_version'' d)" for buffer d
    by (simp only: startup_def prod.case c(1,2) and_then_Inr exec_on_open [OF c(3,4)])
  with c show ?thesis by blast
qed

lemma init_database_pools: "init_database slack sqlite i buffer (s, d) = Inr (s', d') \<Longrightarrow> s' = s"
  by (cases buffer) (auto simp: init_database_def dest: exec_tokens_pools)

lemma startup_keys:
  assumes "startup slack 0 close_ret sqlite buffer (no_manager, d) = Inr (s, d')"
  shows "ll_wf (keys (get_db_manager s))" and "chain (keys (get_db_manager s)) \<noteq> []"
proof -
  obtain s0 where "ll_wf (keys (get_db_manager s0))" "chain (keys (get_db_manager s0)) \<noteq> []"
    "init_database slack sqlite 0 buffer (s0, sqlite ''SELECT SQLITE_VERSION() as sqlite_version'' d) = Inr (s, d')"
    using startup_eq [of slack close_ret sqlite] assms by auto
  moreover from this(3) have "s = s0" by (rule init_database_pools)
  ultimately show "ll_wf (keys (get_db_manager s))" "chain (keys (get_db_manager s)) \<noteq> []" by simp_all
qed

section \<open>Properties\<close>

text \<open>
  C21. At start-up every statement of the schema file is run once, in the order of the file, after the
  query for the version, although each call of \<open>exec\<close> is given the whole rest of the file: provided the
  file ends with a semicolon and a NUL happens to follow its bytes in memory. Anything but semicolons
  behind the last one makes the loop write and read past the block.
\<close>

theorem startup_runs_schema:
  assumes "\<forall>t \<in> set ts. statement_ok t" and "first_statement_only sqlite ts"
    and "slack (sql_file ts) = []" and "statement_ok u" and "slack (sql_file ts @ u) = []"
  shows "\<exists>s. startup slack 0 close_ret sqlite (Some (sql_file ts)) (no_manager, d)
      = Inr (s, run_file sqlite ts (sqlite ''SELECT SQLITE_VERSION() as sqlite_version'' d))
    \<and> startup slack 0 close_ret sqlite (Some (sql_file ts @ u)) (no_manager, d) = Inl Out_Of_Bounds"
proof -
  let ?q = "''SELECT SQLITE_VERSION() as sqlite_version''"
  obtain s pool where s: "pool_at s 0 = Inr pool" "pool_db pool \<noteq> Stale_Handle"
    and "\<And>buffer d. startup slack 0 close_ret sqlite buffer (no_manager, d) = init_database slack sqlite 0 buffer (s, sqlite ?q d)"
    using startup_eq [of slack close_ret sqlite] by blast
  then have start: "startup slack 0 close_ret sqlite (Some b) (no_manager, d)
      = exec_tokens (exec_on sqlite 0) (b @ slack b @ [NUL]) (s, sqlite ?q d)" for b
    by (simp add: init_database_def)
  note run = exec_file [OF assms(1,2) s]
  have "startup slack 0 close_ret sqlite (Some (sql_file ts)) (no_manager, d) = Inr (s, run_file sqlite ts (sqlite ?q d))"
    using run [of "[]" "sqlite ?q d"] by (simp add: start assms(3) exec_tokens_end)
  moreover have "startup slack 0 close_ret sqlite (Some (sql_file ts @ u)) (no_manager, d) = Inl Out_Of_Bounds"
    using run [of u "sqlite ?q d"] assms(4) exec_tokens_unfinished [OF assms(4)]
    by (simp add: start assms(5) statement_ok_def)
  ultimately show ?thesis by blast
qed

text \<open>Two tables; the database is the list of the statements that were run.\<close>

definition lab_sqlite :: "string \<Rightarrow> string list \<Rightarrow> string list" where
  "lab_sqlite sql d = d @ [takeWhile (\<lambda>c. c \<noteq> CHR '';'') sql]"

theorem startup_runs_schema_witness:
  "\<exists>s. startup (\<lambda>b. []) 0 0 lab_sqlite (Some ''CREATE users;CREATE files;'') (no_manager, [])
    = Inr (s, [''SELECT SQLITE_VERSION() as sqlite_version'', ''CREATE users'', ''CREATE files''])"
proof -
  let ?ts = "[''CREATE users'', ''CREATE files'']"
  have ok: "\<forall>t \<in> set ?ts. statement_ok t" by (simp add: statement_ok_def NUL_def)
  have first: "first_statement_only lab_sqlite ?ts"
    by (simp add: first_statement_only_def lab_sqlite_def)
  have u: "statement_ok ''x''" by (simp add: statement_ok_def NUL_def)
  have f: "sql_file ?ts = ''CREATE users;CREATE files;''" by simp
  show ?thesis
    using startup_runs_schema [of ?ts lab_sqlite "\<lambda>b. []" "''x''" 0 "[]", OF ok first refl u refl] unfolding f
    by (auto simp: run_file_def lab_sqlite_def)
qed



end
