(* ===== verification/Float_Compare.thy ===== *)
theory Float_Compare
  imports Comparator
begin

text \<open>
  The comparison of floats of \<open>src/data_structures/trees/binary_search_tree.c\<close>. Every finite \<open>float\<close> is a
  multiple of the least positive one, \<open>2\<^sup>-\<^sup>1\<^sup>4\<^sup>9\<close>, and is given by that multiple. A NaN is neither less
  nor greater than anything, so that it compares as equal to every number.
\<close>

datatype c_float = NaN | Minus_Infinity | Finite int | Plus_Infinity

text \<open>The operator \<open><\<close> of C.\<close>

fun float_less :: "c_float \<Rightarrow> c_float \<Rightarrow> bool" where
  "float_less Minus_Infinity (Finite y) = True"
| "float_less Minus_Infinity Plus_Infinity = True"
| "float_less (Finite x) (Finite y) = (x < y)"
| "float_less (Finite x) Plus_Infinity = True"
| "float_less _ _ = False"

definition binary_search_tree_float_compare :: "c_float \<Rightarrow> c_float \<Rightarrow> int" where
  "binary_search_tree_float_compare a b = (if float_less b a then 1 else if float_less a b then -1 else 0)"

text \<open>The order of the floats, with NaN below all numbers.\<close>

instantiation c_float :: linorder
begin

definition less_c_float :: "c_float \<Rightarrow> c_float \<Rightarrow> bool" where
  "less_c_float a b \<longleftrightarrow> float_less a b \<or> a = NaN \<and> b \<noteq> NaN"

definition less_eq_c_float :: "c_float \<Rightarrow> c_float \<Rightarrow> bool" where
  "less_eq_c_float a b \<longleftrightarrow> a < b \<or> a = b"

instance
proof
  fix a b c :: c_float
  have irr: "\<not> float_less a a" by (cases a) simp_all
  have tr: "float_less a b \<Longrightarrow> float_less b c \<Longrightarrow> float_less a c" by (cases a; cases b; cases c) simp_all
  have as: "float_less a b \<Longrightarrow> \<not> float_less b a" by (cases a; cases b) simp_all
  have tot: "float_less a b \<or> float_less b a \<or> a = b \<or> a = NaN \<or> b = NaN" by (cases a; cases b) auto
  have nan: "\<not> float_less NaN a" "\<not> float_less b NaN" "\<not> float_less NaN b" "\<not> float_less a NaN"
    by (cases a; cases b; simp)+
  show "a < b \<longleftrightarrow> a \<le> b \<and> \<not> b \<le> a" using as irr by (auto simp: less_c_float_def less_eq_c_float_def)
  show "a \<le> a" by (simp add: less_eq_c_float_def)
  show "a \<le> b \<Longrightarrow> b \<le> c \<Longrightarrow> a \<le> c" using tr nan by (auto simp: less_c_float_def less_eq_c_float_def)
  show "a \<le> b \<Longrightarrow> b \<le> a \<Longrightarrow> a = b" using as nan by (auto simp: less_c_float_def less_eq_c_float_def)
  show "a \<le> b \<or> b \<le> a" using tot by (auto simp: less_c_float_def less_eq_c_float_def)
qed

end

lemma float_compare_numbers:
  assumes "a \<noteq> NaN" and "b \<noteq> NaN"
  shows "binary_search_tree_float_compare a b = (if b < a then 1 else if a < b then -1 else 0)"
  using assms by (simp add: binary_search_tree_float_compare_def less_c_float_def)

lemma float_compare_NaN: "binary_search_tree_float_compare NaN a = 0" "binary_search_tree_float_compare a NaN = 0"
  by (cases a; simp add: binary_search_tree_float_compare_def)+

text \<open>With NaN the function does not keep the contract of a comparison, whatever the keys are.\<close>

lemma float_not_comparator: "\<not> comparator binary_search_tree_float_compare key qkey"
proof
  assume "comparator binary_search_tree_float_compare key qkey"
  then have law: "binary_search_tree_float_compare a b
      = (if qkey b < key a then 1 else if key a < qkey b then -1 else 0)" for a b
    by (rule comparator.cmp_eq)
  have "qkey (Finite 0) = key NaN" "qkey (Finite 1) = key NaN"
    using law [of NaN "Finite 0"] law [of NaN "Finite 1"]
    by (auto simp: float_compare_NaN split: if_splits)
  then have "binary_search_tree_float_compare (Finite 0) (Finite 0) = binary_search_tree_float_compare (Finite 0) (Finite 1)"
    by (simp only: law)
  then show False by (simp add: binary_search_tree_float_compare_def)
qed

end
