(* ===== verification/File_Helpers.thy ===== *)
theory File_Helpers
  imports Http_Server
begin

text \<open>
  \<open>src/systems/files.c\<close> over a file system that maps paths to contents. \<open>fopen\<close> returns NULL for a file
  that cannot be opened, which none of the functions tests: \<open>can_open\<close> tells which paths can be opened for
  writing, and a file is there to be read when its path is in the map.
\<close>

section \<open>The functions\<close>

definition get_file_size_internal :: "string option \<Rightarrow> nat run" where
  "get_file_size_internal file = and_then (deref file) (\<lambda>content. Inr (length content))"

definition get_file_size :: "file_system \<Rightarrow> string \<Rightarrow> nat run" where
  "get_file_size fs path = and_then (deref (fs path)) (\<lambda>content. Inr (length content))"

text \<open>\<open>fopen(path, "w")\<close> empties the file, \<open>fopen(path, "a")\<close> keeps what is in it.\<close>

definition write_file :: "(string \<Rightarrow> bool) \<Rightarrow> string \<Rightarrow> string \<Rightarrow> nat \<Rightarrow> file_system \<Rightarrow> file_system run" where
  "write_file can_open path data_block n fs =
     (if \<not> can_open path then Inl Null_Deref
      else if length data_block < n then Inl Out_Of_Bounds
      else Inr (fs(path := Some (take n data_block))))"

definition append_file_data :: "(string \<Rightarrow> bool) \<Rightarrow> string \<Rightarrow> string \<Rightarrow> nat \<Rightarrow> file_system \<Rightarrow> file_system run" where
  "append_file_data can_open path data_block n fs =
     (if \<not> can_open path then Inl Null_Deref
      else if length data_block < n then Inl Out_Of_Bounds
      else Inr (fs(path := Some ((case fs path of None \<Rightarrow> [] | Some c \<Rightarrow> c) @ take n data_block))))"

text \<open>The block has the size of the file and no terminating NUL.\<close>

definition read_file :: "file_system \<Rightarrow> string \<Rightarrow> string run" where
  "read_file fs path =
     and_then (get_file_size_internal (fs path)) (\<lambda>n.
     and_then (deref (fs path)) (\<lambda>content. Inr (take n content)))"

section \<open>What they do\<close>

lemma read_after_write:
  assumes "write_file can_open path data_block n fs = Inr fs'"
  shows "read_file fs' path = Inr (take n data_block)" and "get_file_size fs' path = Inr n"
    and "p \<noteq> path \<Longrightarrow> fs' p = fs p"
  using assms by (auto simp: write_file_def read_file_def get_file_size_def get_file_size_internal_def split: if_splits)

lemma read_after_append:
  assumes "read_file fs path = Inr c" and "append_file_data can_open path data_block n fs = Inr fs'"
  shows "read_file fs' path = Inr (c @ take n data_block)" and "get_file_size fs' path = Inr (length c + n)"
    and "p \<noteq> path \<Longrightarrow> fs' p = fs p"
  using assms by (auto simp: append_file_data_def read_file_def get_file_size_def get_file_size_internal_def
      run_simps split: if_splits)

lemma missing_file_faults:
  "fs path = None \<Longrightarrow> get_file_size fs path = Inl Null_Deref \<and> read_file fs path = Inl Null_Deref"
  by (simp add: get_file_size_def read_file_def get_file_size_internal_def)

text \<open>The size that \<open>server_resource\<close> uses; it has opened the file before.\<close>

lemma server_resource_size: "fs full_path = Some content \<Longrightarrow> get_file_size fs full_path = Inr (length content)"
  by (simp add: get_file_size_def)

end
