(* ===== verification/Bytes.thy ===== *)
theory Bytes
  imports Prelude "HOL-Library.Word"
begin

text \<open>
  Bytes and 16-bit integers on a little-endian host: how a \<open>uint16_t\<close> lies in memory, and the
  conversion to network order.
\<close>

unbundle bit_operations_syntax

type_synonym byte = "8 word"
type_synonym u16 = "16 word"
type_synonym u64 = "64 word"

definition htons :: "u16 \<Rightarrow> u16" where
  "htons w = push_bit 8 w OR drop_bit 8 w"

definition ntohs :: "u16 \<Rightarrow> u16" where
  "ntohs w = htons w"

text \<open>\<open>memcpy(buf, &w, 2)\<close> and \<open>*(uint16_t *)buf\<close>.\<close>

definition store16 :: "u16 \<Rightarrow> byte list" where
  "store16 w = [ucast w, ucast (drop_bit 8 w)]"

definition load16 :: "byte list \<Rightarrow> u16" where
  "load16 bs = (case bs of b0 # b1 # _ \<Rightarrow> ucast b0 OR push_bit 8 (ucast b1) | _ \<Rightarrow> 0)"

text \<open>The 16-bit number two bytes make in network order.\<close>

definition be16 :: "byte \<Rightarrow> byte \<Rightarrow> nat" where
  "be16 b0 b1 = 256 * unat b0 + unat b1"

lemma unat_byte_less [simp]: "unat (b :: byte) < 256"
  using unsigned_less [of b, where ?'a = nat] by simp

lemma unat_byte_less_16 [simp]: "unat (b :: byte) < 65536"
  using unat_byte_less [of b] by linarith

lemma unat_byte_le [simp]: "unat (b :: byte) \<le> 255"
  using unat_byte_less [of b] by linarith

lemma unat_u16_less [simp]: "unat (w :: u16) < 65536"
  using unsigned_less [of w, where ?'a = nat] by simp

lemma unat_u16_le [simp]: "unat (w :: u16) \<le> 65535"
  using unat_u16_less [of w] by linarith

lemma be16_less: "be16 b0 b1 < 65536"
  using unat_byte_less [of b0] unat_byte_less [of b1] unfolding be16_def by linarith

lemma be16_inj: "be16 a b = be16 c d \<Longrightarrow> a = c \<and> b = d"
proof -
  assume e: "be16 a b = be16 c d"
  have "unat a = be16 a b div 256" "unat b = be16 a b mod 256" for a b :: byte
    by (simp_all add: be16_def)
  then show ?thesis using e by (metis word_unat_eq_iff)
qed

lemma htons_htons [simp]: "htons (htons w) = w"
  unfolding htons_def
  by (rule bit_word_eqI) (auto simp: bit_simps)

lemma load_store16 [simp]: "load16 (store16 w @ bs) = w"
  unfolding load16_def store16_def
  by (simp, rule bit_word_eqI) (auto simp: bit_simps)

lemma length_store16 [simp]: "length (store16 w) = 2"
  by (simp add: store16_def)

text \<open>A \<open>uint16_t\<close> stored after \<open>htons\<close> lies in memory in network order.\<close>

lemma store16_htons:
  "\<exists>b0 b1. store16 (htons w) = [b0, b1] \<and> be16 b0 b1 = unat w"
proof -
  let ?h = "ucast (htons w) :: byte" and ?l = "ucast (drop_bit 8 (htons w)) :: byte"
  have h: "?h = ucast (drop_bit 8 w)" and l: "?l = ucast w"
    by (rule bit_word_eqI; auto simp: htons_def bit_simps)+
  have "unat ?h = unat w div 256"
    unfolding h
    by (simp add: unsigned_ucast_eq unat_drop_bit_eq drop_bit_eq_div unat_div_distrib take_bit_nat_eq_self_iff
        less_mult_imp_div_less)
  moreover have "unat ?l = unat w mod 256"
    unfolding l by (simp add: unsigned_ucast_eq take_bit_eq_mod)
  ultimately have "be16 ?h ?l = unat w" by (simp add: be16_def)
  then show ?thesis by (auto simp: store16_def)
qed

end
