(* ===== verification/Checksum.thy ===== *)
theory Checksum
  imports Bytes
begin

text \<open>
  The Internet checksum of \<open>src/networking/checksum.c\<close>: 16-bit words in network order, summed in a
  64-bit accumulator whose carries are folded back, complemented. \<open>ones_rep\<close> is the arithmetic
  meaning of the folding: the representative of the sum modulo 65535 in 1..65535, and 0 for 0.
\<close>

section \<open>The routine\<close>

definition BUFF_SIZE :: nat where
  "BUFF_SIZE = 65536"

text \<open>The static buffer after \<open>memset\<close>, \<open>memcpy\<close> and the padding byte.\<close>

definition checksum_buffer :: "nat \<Rightarrow> bool \<Rightarrow> byte list \<Rightarrow> byte list run" where
  "checksum_buffer len_udp pad temp =
     (if length temp < len_udp then Inl Out_Of_Bounds
      else let buff = take len_udp temp @ replicate (BUFF_SIZE - len_udp) 0
           in Inr (if pad then buff[len_udp := 0] else buff))"

definition word16_at :: "byte list \<Rightarrow> nat \<Rightarrow> u16" where
  "word16_at buff i =
     ((push_bit 8 (ucast (buff ! i)) AND 0xFF00) + (ucast (buff ! (i + 1)) AND 0xFF))"

function sum_words :: "byte list \<Rightarrow> nat \<Rightarrow> nat \<Rightarrow> u64 \<Rightarrow> u64" where
  "sum_words buff i bound acc =
     (if i < bound then sum_words buff (i + 2) bound (acc + ucast (word16_at buff i)) else acc)"
  by pat_completeness auto
termination
  by (relation "measure (\<lambda>(b, i, bound, acc). bound - i)") auto

declare sum_words.simps [simp del]

text \<open>\<open>while (sum >> 16) sum = (sum & 0xFFFF) + (sum >> 16);\<close>\<close>

lemma and_FFFF: "(acc :: 'a::len word) AND 0xFFFF = take_bit 16 acc"
  by (simp add: take_bit_eq_mask mask_eq_exp_minus_1)

lemma unat_fold_step:
  "unat ((acc AND 0xFFFF) + drop_bit 16 acc :: u64) = unat acc mod 65536 + unat acc div 65536"
proof -
  have a: "unat (acc AND 0xFFFF) = unat acc mod 65536"
    by (simp add: and_FFFF unsigned_take_bit_eq take_bit_eq_mod unat_mod_distrib)
  have d: "unat (drop_bit 16 acc) = unat acc div 65536"
    by (simp add: unat_drop_bit_eq drop_bit_eq_div unat_div_distrib)
  have "unat acc < 18446744073709551616" using unsigned_less [of acc, where ?'a = nat] by simp
  then have "unat acc div 65536 < 281474976710656" by (simp add: less_mult_imp_div_less)
  moreover have "unat acc mod 65536 < 65536" by simp
  ultimately have "unat acc mod 65536 + unat acc div 65536 < 2 ^ 64" by simp
  then show ?thesis by (simp add: unat_plus_if' a d)
qed

lemma drop_bit_16_zero: "drop_bit 16 (acc :: u64) = 0 \<longleftrightarrow> unat acc < 65536"
proof -
  have "drop_bit 16 acc = 0 \<longleftrightarrow> unat (drop_bit 16 acc) = 0" by (simp add: unat_0_iff)
  also have "\<dots> \<longleftrightarrow> unat acc < 65536"
    by (simp add: unat_drop_bit_eq drop_bit_eq_div unat_div_distrib div_eq_0_iff)
  finally show ?thesis .
qed

lemma fold_step_less: "65536 \<le> n \<Longrightarrow> n mod 65536 + n div 65536 < (n :: nat)"
  using div_mult_mod_eq [of n 65536] by (cases "n div 65536") (auto simp: div_eq_0_iff)

function fold_carries :: "u64 \<Rightarrow> u64" where
  "fold_carries acc =
     (if drop_bit 16 acc \<noteq> 0 then fold_carries ((acc AND 0xFFFF) + drop_bit 16 acc) else acc)"
  by pat_completeness auto
termination
  by (relation "measure unat") (auto simp: unat_fold_step drop_bit_16_zero intro: fold_step_less)

declare fold_carries.simps [simp del]

definition checksum :: "u16 \<Rightarrow> int \<Rightarrow> byte list \<Rightarrow> u16 run" where
  "checksum len_udp padding temp =
     (let pad = (padding AND 1 = 1); padd = (if pad then 1 else 0 :: nat)
      in and_then (checksum_buffer (unat len_udp) pad temp) (\<lambda>buff.
         let acc = sum_words buff 0 (unat len_udp + padd) 0;
             acc = fold_carries acc
         in Inr (ucast (NOT acc))))"

section \<open>Arithmetic meaning\<close>

fun words_of :: "byte list \<Rightarrow> nat list" where
  "words_of [] = []"
| "words_of [b] = [be16 b 0]"
| "words_of (b0 # b1 # bs) = be16 b0 b1 # words_of bs"

definition wsum :: "byte list \<Rightarrow> nat" where
  "wsum bs = sum_list (words_of bs)"

definition ones_rep :: "nat \<Rightarrow> nat" where
  "ones_rep n = (if n = 0 then 0 else (n - 1) mod 65535 + 1)"

lemma words_of_append_even:
  "even (length xs) \<Longrightarrow> words_of (xs @ ys) = words_of xs @ words_of ys"
  by (induction xs rule: words_of.induct) auto

lemma wsum_le: "wsum bs \<le> 65535 * ((length bs + 1) div 2)"
proof (induction bs rule: words_of.induct)
  case (2 b)
  then show ?case using be16_less [of b 0] by (simp add: wsum_def)
next
  case (3 b0 b1 bs)
  then show ?case using be16_less [of b0 b1] by (simp add: wsum_def)
qed (simp add: wsum_def)

lemma unat_word16_at:
  "unat (word16_at buff i) = be16 (buff ! i) (buff ! (i + 1))"
proof -
  let ?a = "buff ! i" and ?b = "buff ! (i + 1)"
  have FF: "(ucast ?b AND 0xFF :: u16) = take_bit 8 (ucast ?b)"
    by (simp add: take_bit_eq_mask mask_eq_exp_minus_1)
  have F0: "(0xFF00 :: u16) = push_bit 8 (mask 8)" by (simp add: mask_eq_exp_minus_1)
  have "take_bit 8 (ucast ?a :: u16) = ucast ?a"
    by (rule bit_word_eqI) (auto simp: bit_simps dest: bit_imp_le_length)
  then have hb: "(push_bit 8 (ucast ?a) AND 0xFF00 :: u16) = push_bit 8 (ucast ?a)"
    by (simp only: F0 push_bit_and [symmetric] take_bit_eq_mask [symmetric])
  have h: "unat (push_bit 8 (ucast ?a) AND 0xFF00 :: u16) = 256 * unat ?a"
  proof -
    have u: "unat (ucast ?a :: u16) = unat ?a"
      using unat_byte_less [of ?a] by (simp add: unsigned_ucast_eq take_bit_nat_eq_self_iff)
    have "unat (ucast ?a * 256 :: u16) = unat (ucast ?a :: u16) * unat (256 :: u16)"
      using unat_byte_less [of ?a] by (subst unat_mult_lem [symmetric]) (simp add: u)
    then show ?thesis
      using hb u
      by (simp add: push_bit_eq_mult)
  qed
  have l: "unat (ucast ?b AND 0xFF :: u16) = unat ?b"
    using unat_byte_less [of ?b]
    unfolding FF by (simp add: unsigned_take_bit_eq unsigned_ucast_eq take_bit_nat_eq_self_iff)
  show ?thesis using be16_less [of ?a ?b] h l
    by (simp add: word16_at_def unat_plus_if' be16_def)
qed

lemma take_bit_be16 [simp]: "take_bit 64 (be16 b0 b1) = be16 b0 b1"
  using be16_less [of b0 b1] by (simp add: take_bit_nat_eq_self_iff)

lemma sum_words_eq:
  assumes "length bs \<le> 65536" and "unat acc + wsum bs < 2 ^ 64"
    and "drop i buff = bs @ replicate k 0" and "odd (length bs) \<longrightarrow> 0 < k"
    and "i + length bs = bound \<or> odd (length bs) \<and> i + length bs + 1 = bound"
  shows "unat (sum_words buff i bound acc) = unat acc + wsum bs"
  using assms
proof (induction bs arbitrary: i acc rule: words_of.induct)
  case 1
  then show ?case by (subst sum_words.simps) (auto simp: wsum_def)
next
  case (2 b)
  then obtain k' where k: "k = Suc k'" by (cases k) auto
  then have "drop i buff = b # 0 # replicate k' 0" using 2 by simp
  then have nth: "buff ! i = b" "buff ! (i + 1) = 0"
    by (auto dest: drop_Cons_Cons)
  have w: "unat (word16_at buff i) = be16 b 0" using nth by (simp add: unat_word16_at)
  have "unat (acc + ucast (word16_at buff i)) = unat acc + be16 b 0"
    using 2(2) w be16_less [of b 0]
    by (simp add: unat_plus_if' unsigned_ucast_eq take_bit_nat_eq_self_iff wsum_def)
  then show ?case using 2(5)
    by (subst sum_words.simps, subst sum_words.simps) (auto simp: wsum_def)
next
  case (3 b0 b1 bs)
  have d: "drop i buff = b0 # b1 # bs @ replicate k 0" using 3 by simp
  then have nth: "buff ! i = b0" "buff ! (i + 1) = b1"
    by (auto dest: drop_Cons_Cons)
  have d2: "drop (i + 2) buff = bs @ replicate k 0"
    using drop_Cons_Cons [OF d] by simp
  have w: "unat (word16_at buff i) = be16 b0 b1" using nth by (simp add: unat_word16_at)
  let ?acc = "acc + ucast (word16_at buff i)"
  have a: "unat ?acc = unat acc + be16 b0 b1"
    using 3(3) w be16_less [of b0 b1]
    by (simp add: unat_plus_if' unsigned_ucast_eq take_bit_nat_eq_self_iff wsum_def)
  have "unat (sum_words buff (i + 2) bound ?acc) = unat ?acc + wsum bs"
    using 3(2-6) a d2 by (intro 3(1)) (auto simp: wsum_def)
  then show ?case using 3(6) a by (subst sum_words.simps) (auto simp: wsum_def)
qed

lemma ones_rep_small: "n < 65536 \<Longrightarrow> ones_rep n = n"
  by (auto simp: ones_rep_def)

lemma ones_rep_fold: "65536 \<le> n \<Longrightarrow> ones_rep (n mod 65536 + n div 65536) = ones_rep n"
proof -
  assume n: "65536 \<le> n"
  let ?h = "n div 65536" and ?l = "n mod 65536"
  have h: "0 < ?h" using n by (simp add: div_greater_zero_iff)
  have "n - 1 = (?l + ?h - 1) + 65535 * ?h"
    using div_mult_mod_eq [of n 65536] h by linarith
  then have "(n - 1) mod 65535 = (?l + ?h - 1) mod 65535" by simp
  then show ?thesis using h n by (simp add: ones_rep_def)
qed

lemma unat_fold_carries: "unat (fold_carries acc) = ones_rep (unat acc)"
proof (induction acc rule: fold_carries.induct)
  case (1 acc)
  show ?case
  proof (cases "drop_bit 16 acc = 0")
    case True
    then show ?thesis
      by (subst fold_carries.simps) (simp add: ones_rep_small flip: drop_bit_16_zero)
  next
    case False
    then have "65536 \<le> unat acc" by (simp add: drop_bit_16_zero)
    then show ?thesis using False 1
      by (subst fold_carries.simps) (simp add: unat_fold_step ones_rep_fold)
  qed
qed

lemma ones_rep_less: "ones_rep n < 65536"
  by (simp add: ones_rep_def less_Suc_eq_le)

lemma unat_complement: "unat acc < 65536 \<Longrightarrow> unat (ucast (NOT acc :: u64) :: u16) = 65535 - unat acc"
proof -
  assume a: "unat acc < 65536"
  let ?w = "ucast acc :: u16"
  have "(ucast (NOT acc) :: u16) = NOT ?w"
    by (rule bit_word_eqI) (auto simp: bit_simps)
  moreover have "unat ?w = unat acc"
    using a by (simp add: unsigned_ucast_eq take_bit_nat_eq_self_iff)
  moreover have "unat (NOT ?w) = 65535 - unat ?w"
  proof -
    have "NOT ?w = - 1 - ?w" by (simp add: not_eq_complement)
    then show ?thesis using unat_u16_less [of ?w]
      by (simp add: unat_sub_if_size word_size unsigned_minus_1_eq_mask mask_eq_exp_minus_1)
  qed
  ultimately show ?thesis by simp
qed

lemma checksum_eq:
  assumes "length bs = unat len_udp"
  shows "\<exists>c. checksum len_udp padding (bs @ rest) = Inr c \<and> unat c = 65535 - ones_rep (wsum bs)"
proof -
  let ?n = "unat len_udp" and ?pad = "padding AND 1 = 1"
  let ?k = "BUFF_SIZE - ?n"
  have n: "?n < 65536" by simp
  then have k: "0 < ?k" by (simp add: BUFF_SIZE_def)
  let ?buff = "bs @ replicate ?k 0"
  have upd: "(if ?pad then ?buff[?n := 0] else ?buff) = ?buff"
    using assms k by (cases ?k) (auto simp: list_update_append)
  define bound where "bound = ?n + (if ?pad then 1 else 0 :: nat)"
  have "(?n + 1) div 2 \<le> 32768" using n by linarith
  then have wb: "wsum bs < 2 ^ 64"
    using wsum_le [of bs] assms by simp
  have "unat (sum_words ?buff 0 bound 0) = wsum bs"
  proof (cases "?pad \<and> even ?n")
    case False
    have "length bs \<le> 65536" using assms n by linarith
    moreover have "0 + length bs = bound \<or> odd (length bs) \<and> 0 + length bs + 1 = bound"
      using False assms by (auto simp: bound_def)
    ultimately show ?thesis using k wb sum_words_eq [of bs 0 0 ?buff ?k bound] by simp
  next
    case True
    obtain k' where k': "?k = Suc k'" using k by (cases ?k) auto
    have "words_of (bs @ [0]) = words_of bs @ [0]"
      using True assms by (simp add: words_of_append_even be16_def)
    then have w: "wsum (bs @ [0]) = wsum bs" by (simp add: wsum_def)
    have "?n \<noteq> 65535" using True by auto
    then have "1 < ?k" using n unfolding BUFF_SIZE_def by linarith
    then have "0 < k'" using k' by simp
    moreover have "length (bs @ [0]) \<le> 65536" using assms n by simp
    moreover have "0 + length (bs @ [0]) = bound" using True assms by (auto simp: bound_def)
    moreover have "drop 0 ?buff = (bs @ [0]) @ replicate k' 0" using k' by simp
    moreover have "unat (0 :: u64) + wsum (bs @ [0]) < 2 ^ 64" using w wb by simp
    ultimately show ?thesis
      using w sum_words_eq [of "bs @ [0]" 0 0 ?buff k' bound] by (metis unat_0 add_0)
  qed
  then have "unat (fold_carries (sum_words ?buff 0 bound 0)) = ones_rep (wsum bs)"
    by (simp add: unat_fold_carries)
  then show ?thesis using assms upd ones_rep_less [of "wsum bs"]
    by (simp add: checksum_def checksum_buffer_def bound_def unat_complement Let_def)
qed

section \<open>What a verifier accepts\<close>

lemma ones_rep_full_iff: "ones_rep n = 65535 \<longleftrightarrow> 0 < n \<and> n mod 65535 = 0"
proof (cases n)
  case (Suc m)
  have "m mod 65535 = 65534 \<longleftrightarrow> Suc m mod 65535 = 0"
    by (simp add: mod_Suc)
  then show ?thesis by (simp add: ones_rep_def Suc)
qed (simp add: ones_rep_def)

lemma unat_zero_iff_u16: "c = (0 :: u16) \<longleftrightarrow> unat c = 0"
  by (simp add: unat_0_iff)

lemma checksum_zero_iff:
  assumes "length bs = unat len_udp"
  shows "checksum len_udp padding (bs @ rest) = Inr 0 \<longleftrightarrow> 0 < wsum bs \<and> wsum bs mod 65535 = 0"
proof -
  obtain c where c: "checksum len_udp padding (bs @ rest) = Inr c"
    "unat c = 65535 - ones_rep (wsum bs)"
    using checksum_eq [OF assms] by blast
  have "c = 0 \<longleftrightarrow> ones_rep (wsum bs) = 65535"
    using c(2) ones_rep_less [of "wsum bs"] unat_zero_iff_u16 [of c] by linarith
  then show ?thesis using c(1) by (simp add: ones_rep_full_iff)
qed

lemma complement_completes:
  assumes "n = 65535 - ones_rep s"
  shows "0 < n + s \<and> (n + s) mod 65535 = 0"
proof (cases s)
  case (Suc m)
  obtain q r where m: "m = 65535 * q + r" and r: "r = m mod 65535" "r < 65535"
    by (metis mod_less_divisor mult_div_mod_eq zero_less_numeral)
  have "n = 65534 - r" using assms Suc r by (simp add: ones_rep_def)
  then have e: "n + s = 65535 * (q + 1)" using Suc m r(2) by simp
  show ?thesis unfolding e by simp
qed (use assms in \<open>simp add: ones_rep_def\<close>)

lemma wsum_Cons_Cons: "wsum (b0 # b1 # bs) = be16 b0 b1 + wsum bs"
  by (simp add: wsum_def)

definition byte_weight :: "nat \<Rightarrow> nat" where
  "byte_weight i = (if even i then 256 else 1)"

lemma wsum_update:
  "i < length bs \<Longrightarrow>
   wsum (bs[i := b]) + byte_weight i * unat (bs ! i) = wsum bs + byte_weight i * unat b"
proof (induction bs arbitrary: i rule: words_of.induct)
  case (3 b0 b1 bs)
  consider "i = 0" | "i = 1" | j where "i = Suc (Suc j)"
    by (metis One_nat_def not0_implies_Suc)
  then show ?case
  proof cases
    case 3
    then show ?thesis using "3.IH" [of j] "3.prems"
      by (simp add: wsum_Cons_Cons byte_weight_def)
  qed (simp_all add: wsum_Cons_Cons byte_weight_def be16_def)
qed (auto simp: wsum_def byte_weight_def be16_def)

lemma no_small_multiple:
  assumes "\<bar>d\<bar> \<le> 255" and "d \<noteq> 0"
  shows "\<not> (65535 :: int) dvd int (byte_weight i) * d"
proof
  assume z: "65535 dvd int (byte_weight i) * d"
  have w: "byte_weight i = 256 \<or> byte_weight i = 1" by (simp add: byte_weight_def)
  then have "int (byte_weight i) * d \<noteq> 0" using assms(2) by auto
  then have "65535 \<le> \<bar>int (byte_weight i) * d\<bar>" using dvd_imp_le_int [OF _ z] by simp
  then show False using w assms(1) by (auto simp: abs_mult)
qed

text \<open>No change of a single byte keeps the sum modulo 65535.\<close>

lemma byte_change_detected:
  assumes "i < length bs" and "b \<noteq> bs ! i" and "wsum bs mod 65535 = 0"
  shows "wsum (bs[i := b]) mod 65535 \<noteq> 0"
proof
  assume z: "wsum (bs[i := b]) mod 65535 = 0"
  let ?w = "int (byte_weight i)" and ?x = "int (unat (bs ! i))" and ?y = "int (unat b)"
  have "int (wsum (bs[i := b])) + ?w * ?x = int (wsum bs) + ?w * ?y"
    using wsum_update [OF assms(1), of b] by (metis of_nat_add of_nat_mult)
  then have "?w * (?y - ?x) = int (wsum (bs[i := b])) - int (wsum bs)" by (simp add: algebra_simps)
  moreover have "65535 dvd int (wsum (bs[i := b]))" "65535 dvd int (wsum bs)"
    using z assms(3) by presburger+
  ultimately have "65535 dvd ?w * (?y - ?x)" by simp
  moreover have "?y - ?x \<noteq> 0"
    using assms(2) by (metis eq_iff_diff_eq_0 of_nat_eq_iff word_unat_eq_iff)
  moreover have "\<bar>?y - ?x\<bar> \<le> 255" using unat_byte_le [of b] unat_byte_le [of "bs ! i"] by linarith
  ultimately show False using no_small_multiple [of "?y - ?x" i] by blast
qed

section \<open>Properties\<close>

text \<open>A packet as \<open>_send\<close> builds it: the checksum in network order, then the data.\<close>

definition checksummed :: "u16 \<Rightarrow> byte list \<Rightarrow> byte list" where
  "checksummed c bs = store16 (htons c) @ bs"

lemma unat_length [simp]: "n < 65536 \<Longrightarrow> unat (of_nat n :: u16) = n"
  by (simp add: unsigned_of_nat take_bit_nat_eq_self_iff)

lemma wsum_checksummed: "wsum (checksummed c bs) = unat c + wsum bs"
  using store16_htons [of c] by (auto simp: checksummed_def wsum_Cons_Cons)

lemma length_checksummed [simp]: "length (checksummed c bs) = length bs + 2"
  by (simp add: checksummed_def)

lemma checksummed_verifies:
  assumes "length bs < 65534" and "checksum (of_nat (length bs)) padding bs = Inr c"
  shows "wsum (checksummed c bs) mod 65535 = 0 \<and> 0 < wsum (checksummed c bs)"
proof -
  have n: "unat (of_nat (length bs) :: u16) = length bs"
    using assms(1) by (intro unat_length) simp
  then have "unat c = 65535 - ones_rep (wsum bs)"
    using checksum_eq [of bs "of_nat (length bs)" padding "[]"] assms(2) by auto
  then show ?thesis using complement_completes [of "unat c" "wsum bs"] by (simp add: wsum_checksummed)
qed

text \<open>What is sent is accepted.\<close>

lemma checksum_accepts:
  assumes "length bs < 65534"
  shows "\<exists>c. checksum (of_nat (length bs)) (int (length bs mod 2)) bs = Inr c
    \<and> checksum (of_nat (length (checksummed c bs))) 0 (checksummed c bs) = Inr 0"
proof -
  have n: "unat (of_nat (length bs) :: u16) = length bs"
    "unat (of_nat (length bs + 2) :: u16) = length bs + 2"
    using assms by (intro unat_length; simp)+
  then obtain c where c: "checksum (of_nat (length bs)) (int (length bs mod 2)) bs = Inr c"
    using checksum_eq [of bs "of_nat (length bs)" "int (length bs mod 2)" "[]"] by auto
  have "checksum (of_nat (length bs + 2)) 0 (checksummed c bs) = Inr 0"
    using checksum_zero_iff [of "checksummed c bs" "of_nat (length bs + 2)" 0 "[]"] n(2)
      checksummed_verifies [OF assms c] by simp
  then show ?thesis using c by (simp only: length_checksummed) blast
qed

text \<open>
  C15. What the sender checksums the receiver accepts: for any data of fewer than 65534 bytes, of odd
  or even length, the checksum is computed, and the checksum over the packet that carries it is 0.
\<close>

theorem checksum_roundtrip:
  assumes "length bs < 65534"
  shows "\<exists>c. checksum (of_nat (length bs)) (int (length bs mod 2)) bs = Inr c
    \<and> checksum (of_nat (length (checksummed c bs))) 0 (checksummed c bs) = Inr 0"
  using assms by (rule checksum_accepts)

theorem checksum_roundtrip_witness:
  "\<exists>c. checksum 3 1 [1, 2, 3] = Inr c \<and> checksum 5 0 (checksummed c [1, 2, 3]) = Inr 0"
  using checksum_roundtrip [of "[1, 2, 3]"] by simp

text \<open>
  C14. The corruption of any single byte of a checksummed packet, the checksum's own bytes included,
  is detected.
\<close>

theorem checksum_detects_corruption:
  assumes "length bs < 65534" and "checksum (of_nat (length bs)) padding bs = Inr c"
    and "i < length bs + 2" and "b \<noteq> checksummed c bs ! i"
  shows "checksum (of_nat (length bs + 2)) 0 ((checksummed c bs)[i := b]) \<noteq> Inr 0"
proof -
  let ?p = "checksummed c bs"
  have "unat (of_nat (length bs + 2) :: u16) = length (?p[i := b])"
    using assms(1) by (subst unat_length) auto
  moreover have "wsum (?p[i := b]) mod 65535 \<noteq> 0"
    using byte_change_detected [of i ?p b] assms checksummed_verifies [OF assms(1,2)] by simp
  ultimately show ?thesis
    using checksum_zero_iff [of "?p[i := b]" "of_nat (length bs + 2)" 0 "[]"] by simp
qed

theorem checksum_detects_corruption_witness:
  "\<exists>c. checksum 1 1 [7] = Inr c \<and> checksum 3 0 ((checksummed c [7])[2 := 8]) \<noteq> Inr 0"
proof -
  obtain c where "checksum 1 1 [7] = Inr c" using checksum_eq [of "[7]" 1 1 "[]"] by auto
  then show ?thesis using checksum_detects_corruption [of "[7]" 1 c 2 8]
    by (simp add: checksummed_def nth_append)
qed

end
