(* ===== verification/Tftp_Packet.thy ===== *)
theory Tftp_Packet
  imports Checksum C_String "HOL-Library.Word"
begin

text \<open>
  The packets of the TFTP side: the opcodes and error messages of
  \<open>src/networking/tftp/header.c\<close> and \<open>header.h\<close>, strings in a packet, and the options of a request.
\<close>

section \<open>Opcodes and messages\<close>

text \<open>The two bytes of the string literals, in the order in which they lie in memory.\<close>

definition RRQ :: "byte list" where "RRQ = [0, 1]"
definition WRQ :: "byte list" where "WRQ = [0, 2]"
definition DATA :: "byte list" where "DATA = [0, 3]"
definition ACK :: "byte list" where "ACK = [0, 4]"
definition ERROR :: "byte list" where "ERROR = [0, 5]"
definition OACK :: "byte list" where "OACK = [0, 6]"

definition BLOCK_SIZE :: int where "BLOCK_SIZE = 512"
definition MAX_RETRIES :: nat where "MAX_RETRIES = 10"
definition BUF_SIZE :: int where "BUF_SIZE = 65536"

datatype tftp_error =
    UNKNOWN | FILE_NOT_FOUND | ACCESS_VIOLATION | DISK_FULL | ILLEGAL_OPERATION
  | UNKNOWN_TRANSFER_ID | FILE_ALREADY_EXISTS | NO_SUCH_USER | INVALID_OPTIONS | INVALID_CHECKSUM

definition error_code :: "tftp_error \<Rightarrow> nat" where
  "error_code c =
     (case c of UNKNOWN \<Rightarrow> 0 | FILE_NOT_FOUND \<Rightarrow> 1 | ACCESS_VIOLATION \<Rightarrow> 2 | DISK_FULL \<Rightarrow> 3
      | ILLEGAL_OPERATION \<Rightarrow> 4 | UNKNOWN_TRANSFER_ID \<Rightarrow> 5 | FILE_ALREADY_EXISTS \<Rightarrow> 6 | NO_SUCH_USER \<Rightarrow> 7
      | INVALID_OPTIONS \<Rightarrow> 8 | INVALID_CHECKSUM \<Rightarrow> 9)"

definition get_message :: "tftp_error \<Rightarrow> string" where
  "get_message c =
     (case c of
        UNKNOWN \<Rightarrow> ''Unknown error''
      | FILE_NOT_FOUND \<Rightarrow> ''File not found''
      | ACCESS_VIOLATION \<Rightarrow> ''Access violation''
      | DISK_FULL \<Rightarrow> ''Disk full or allocation exceeded''
      | ILLEGAL_OPERATION \<Rightarrow> ''Illegal TFTP operation''
      | UNKNOWN_TRANSFER_ID \<Rightarrow> ''Unknown transfer ID''
      | FILE_ALREADY_EXISTS \<Rightarrow> ''File already exists''
      | NO_SUCH_USER \<Rightarrow> ''No such user''
      | INVALID_OPTIONS \<Rightarrow> ''Invalid options specified''
      | INVALID_CHECKSUM \<Rightarrow> ''Data may be lost'')"

section \<open>Strings in packets\<close>

definition bytes_of :: "string \<Rightarrow> byte list" where
  "bytes_of s = map (\<lambda>c. of_nat (of_char c)) s"

definition string_of :: "byte list \<Rightarrow> string" where
  "string_of bs = map (\<lambda>b. char_of (unat b)) bs"

lemma string_of_bytes_of [simp]: "string_of (bytes_of s) = s"
proof -
  have "unat (of_nat (of_char c) :: byte) = of_char c" for c
    by (simp add: unsigned_of_nat take_bit_nat_eq_self_iff)
  then show ?thesis by (simp add: string_of_def bytes_of_def comp_def map_idI)
qed

lemma length_bytes_of [simp]: "length (bytes_of s) = length s"
  by (simp add: bytes_of_def)

lemma bytes_of_append [simp]: "bytes_of (s @ t) = bytes_of s @ bytes_of t"
  by (simp add: bytes_of_def)

text \<open>The C string at the start of a block, and what follows its NUL.\<close>

definition cstr_at :: "byte list \<Rightarrow> (string \<times> byte list) run" where
  "cstr_at bs =
     (if 0 \<in> set bs
      then Inr (string_of (takeWhile (\<lambda>b. b \<noteq> 0) bs), tl (dropWhile (\<lambda>b. b \<noteq> 0) bs))
      else Inl Out_Of_Bounds)"

lemma cstr_at_shorter: "cstr_at bs = Inr (s, rest) \<Longrightarrow> length rest < length bs"
  using dropWhile_length_le [of "\<lambda>b. b \<noteq> 0" bs]
  by (cases bs) (auto simp: cstr_at_def less_Suc_eq_le split: if_splits)

lemma bytes_of_nonzero: "nul_free s \<Longrightarrow> 0 \<notin> set (bytes_of s)"
proof
  assume s: "nul_free s" and "0 \<in> set (bytes_of s)"
  then obtain c where c: "c \<in> set s" "of_nat (of_char c) = (0 :: byte)" by (auto simp: bytes_of_def)
  have "unat (of_nat (of_char c) :: byte) = of_char c"
    by (simp add: unsigned_of_nat take_bit_nat_eq_self_iff)
  then have "of_char c = (0 :: nat)" using c(2) by simp
  then have "of_char c = (of_char NUL :: nat)" by (simp add: NUL_def)
  then have "c = NUL" by (simp only: of_char_eq_iff)
  then show False using c(1) s by (auto simp: nul_free_def)
qed

lemma cstr_at_string: "nul_free s \<Longrightarrow> cstr_at (bytes_of s @ 0 # rest) = Inr (s, rest)"
proof -
  assume "nul_free s"
  then have n: "\<forall>b \<in> set (bytes_of s). b \<noteq> 0" using bytes_of_nonzero by auto
  have "takeWhile (\<lambda>b. b \<noteq> 0) (bytes_of s @ 0 # rest) = bytes_of s"
    "dropWhile (\<lambda>b. b \<noteq> 0) (bytes_of s @ 0 # rest) = 0 # rest"
    by (rule takeWhile_append_stop dropWhile_append_stop; use n in simp)+
  then show ?thesis by (simp add: cstr_at_def)
qed

section \<open>Options\<close>

definition isprint :: "byte \<Rightarrow> bool" where
  "isprint b \<longleftrightarrow> 32 \<le> unat b \<and> unat b \<le> 126"

text \<open>
  Pairs of a name and a value, each copied into an array of 256 bytes, up to the first byte that is
  not printable.
\<close>

function process_option :: "byte list \<Rightarrow> (string \<times> string) list run" where
  "process_option bs =
     (case bs of
        [] \<Rightarrow> Inl Out_Of_Bounds
      | b # _ \<Rightarrow>
          if \<not> isprint b then Inr []
          else
            and_then (cstr_at bs) (\<lambda>(name, rest).
            if 256 \<le> length name then Inl Out_Of_Bounds
            else
              and_then (cstr_at rest) (\<lambda>(val, rest2).
              if 256 \<le> length val then Inl Out_Of_Bounds
              else and_then (process_option rest2) (\<lambda>os. Inr ((name, val) # os)))))"
  by pat_completeness auto
termination
  by (relation "measure length") (auto dest!: cstr_at_shorter)

declare process_option.simps [simp del]

end
