(* ===== verification/Tftp_Handler.thy ===== *)
theory Tftp_Handler
  imports Tftp_Packet
begin

text \<open>
  The handler of one TFTP client, \<open>src/networking/tftp/tftp_client_handle.c\<close>: its state, and what it
  receives and sends.

  The datagrams that arrive at its socket are the list \<open>inbox\<close>, in their order; a time-out or an error
  of \<open>recvfrom\<close> is an element of its own. A function ends in one of four ways: it returns (\<open>Done\<close>), it
  jumps back to \<open>handle_client\<close> (\<open>Jumped\<close>, the \<open>longjmp\<close>), it waits for a datagram when there is no
  more (\<open>Waiting\<close>), or the fuel of a loop is used up (\<open>No_Fuel\<close>). Undefined behaviour is a fault.

  Log output is not modelled.
\<close>

section \<open>State\<close>

type_synonym address = "nat \<times> nat"

datatype recv_event = Timeout | Recv_Error | Datagram address "byte list"

datatype send_result = Sent | Again | Broken

text \<open>
  A received packet: the data, what lies behind it in its block, the number of data bytes, the address
  it came from and the raw bytes.
\<close>

record packet =
  opcode :: u16
  pdata :: "byte list"
  ptail :: "byte list"
  data_len :: int
  sender :: address
  raw :: "byte list"
  block_id :: int

text \<open>
  What the program does not determine. \<open>stale_addr\<close>: \<open>_recv\<close> leaves a pointer to its own local variable
  in the packet, and this is what is read through it later. \<open>after_block\<close>: the words behind an array of
  opcodes. \<open>junk_len\<close>, \<open>junk_data\<close>: the length field of the last packet, which is never set, and the bytes
  behind its data. The results of \<open>sendto\<close>, of \<open>fopen\<close> for writing and of \<open>fwrite\<close>.
\<close>

record tftp_env =
  stale_addr :: "address \<Rightarrow> address"
  after_block :: "u16 list"
  junk_len :: "nat \<Rightarrow> nat"
  junk_data :: "nat \<Rightarrow> byte list"
  send_result :: "nat \<Rightarrow> send_result"
  fopen_ok :: "string \<Rightarrow> bool"
  write_ok :: "nat \<Rightarrow> bool"
  disk_full :: bool

record tftp =
  peer :: address
  block_size :: int
  window_size :: int
  check_addr :: bool
  allow_upload :: bool
  pending :: "packet option"
  last_packet :: "byte list"
  inbox :: "recv_event list"
  sent :: "(address \<times> byte list) list"
  sends :: nat
  disk :: "string \<Rightarrow> byte list option"
  writes :: nat
  closes :: nat

datatype 'a outcome = Done 'a | Jumped | Waiting | No_Fuel

type_synonym 'a tact = "tftp \<Rightarrow> ('a outcome \<times> tftp) run"

definition tret :: "'a \<Rightarrow> 'a tact" where
  "tret x = (\<lambda>s. Inr (Done x, s))"

definition tbind :: "'a tact \<Rightarrow> ('a \<Rightarrow> 'b tact) \<Rightarrow> 'b tact" where
  "tbind m k = (\<lambda>s. and_then (m s) (\<lambda>(r, s).
     case r of
       Done x \<Rightarrow> k x s
     | Jumped \<Rightarrow> Inr (Jumped, s)
     | Waiting \<Rightarrow> Inr (Waiting, s)
     | No_Fuel \<Rightarrow> Inr (No_Fuel, s)))"

definition tlift :: "'a run \<Rightarrow> 'a tact" where
  "tlift r = (\<lambda>s. and_then r (\<lambda>x. Inr (Done x, s)))"

definition tget :: "(tftp \<Rightarrow> 'a) \<Rightarrow> 'a tact" where
  "tget f = (\<lambda>s. Inr (Done (f s), s))"

definition tput :: "(tftp \<Rightarrow> tftp) \<Rightarrow> unit tact" where
  "tput f = (\<lambda>s. Inr (Done (), f s))"

definition tstop :: "'a outcome \<Rightarrow> 'a tact" where
  "tstop r = (\<lambda>s. Inr (r, s))"

section \<open>Sending\<close>

text \<open>
  When \<open>sendto\<close> fails, or after the last attempt, the handler is freed and \<open>longjmp\<close> reads its freed
  \<open>buf\<close>.
\<close>

fun send_loop :: "tftp_env \<Rightarrow> address \<Rightarrow> byte list \<Rightarrow> nat \<Rightarrow> unit tact" where
  "send_loop e addr buffer 0 = tlift (Inl Use_After_Free)"
| "send_loop e addr buffer (Suc n) =
     tbind (tget sends) (\<lambda>k.
     tbind (tput (sends_update Suc)) (\<lambda>_.
     case send_result e k of
       Sent \<Rightarrow> tput (sent_update (\<lambda>xs. xs @ [(addr, buffer)]))
     | Again \<Rightarrow> send_loop e addr buffer n
     | Broken \<Rightarrow> tlift (Inl Use_After_Free)))"

text \<open>The address is the client's when None is passed. The length goes to the checksum as 16 bits.\<close>

definition send :: "tftp_env \<Rightarrow> byte list \<Rightarrow> address option \<Rightarrow> unit tact" where
  "send e data addr =
     tbind (tget peer) (\<lambda>client.
     let addr = (case addr of None \<Rightarrow> client | Some a \<Rightarrow> a)
     in tbind (tlift (checksum (of_nat (length data)) (int (length data mod 2)) data)) (\<lambda>c.
        tbind (tput (\<lambda>s. s\<lparr>last_packet := data\<rparr>)) (\<lambda>_.
          send_loop e addr (checksummed c data) (MAX_RETRIES + 1))))"

definition resend_last_packet :: "tftp_env \<Rightarrow> unit tact" where
  "resend_last_packet e =
     tbind (tget sends) (\<lambda>k.
     tbind (tget last_packet) (\<lambda>lp.
     let block = lp @ junk_data e k
     in if length block < junk_len e k then tlift (Inl Out_Of_Bounds)
        else send e (take (junk_len e k) block) None))"

text \<open>The error code is copied in the order of the host.\<close>

definition send_err :: "tftp_env \<Rightarrow> tftp_error \<Rightarrow> string \<Rightarrow> address option \<Rightarrow> unit tact" where
  "send_err e code message addr =
     send e (ERROR @ store16 (of_nat (error_code code)) @ bytes_of message @ [0]) addr"

text \<open>The big-endian bytes of a block number.\<close>

definition block_bytes :: "int \<Rightarrow> byte list" where
  "block_bytes n = store16 (htons (word_of_int n))"

definition send_ack :: "tftp_env \<Rightarrow> int \<Rightarrow> unit tact" where
  "send_ack e n = send e (ACK @ block_bytes n) None"

definition send_data :: "tftp_env \<Rightarrow> byte list \<Rightarrow> int \<Rightarrow> unit tact" where
  "send_data e data n = send e (DATA @ block_bytes n @ data) None"

definition send_oack :: "tftp_env \<Rightarrow> (string \<times> string) list \<Rightarrow> unit tact" where
  "send_oack e options =
     (let buffer = OACK @ concat (map (\<lambda>(name, val). bytes_of name @ [0] @ bytes_of val @ [0]) options)
      in if 65536 < length buffer then tlift (Inl Out_Of_Bounds) else send e buffer None)"

section \<open>Errors\<close>

definition error_occurred :: "tftp_env \<Rightarrow> tftp_error \<Rightarrow> string option \<Rightarrow> address option \<Rightarrow> string tact" where
  "error_occurred e code message addr =
     (let message = (case message of None \<Rightarrow> get_message code | Some m \<Rightarrow> m)
      in tbind (send_err e code message addr) (\<lambda>_. tret message))"

text \<open>The client gets an error packet, the socket is closed, and control goes back to \<open>handle_client\<close>.\<close>

definition terminate :: "tftp_env \<Rightarrow> tftp_error \<Rightarrow> 'a tact" where
  "terminate e code =
     tbind (error_occurred e code None None) (\<lambda>_.
     tbind (tput (closes_update Suc)) (\<lambda>_. tstop Jumped))"

text \<open>The scan of the array of opcodes up to a zero.\<close>

fun opcode_expected :: "u16 \<Rightarrow> u16 list \<Rightarrow> bool run" where
  "opcode_expected op [] = Inl Out_Of_Bounds"
| "opcode_expected op (x # xs) =
     (if x = 0 then Inr False else if op = x then Inr True else opcode_expected op xs)"

definition check_error :: "tftp_env \<Rightarrow> packet \<Rightarrow> u16 list \<Rightarrow> unit tact" where
  "check_error e p opcodes =
     (if opcode p = load16 ERROR then
        if data_len p < 2 then tlift (Inl Out_Of_Bounds) else tstop Jumped
      else
        tbind (tlift (opcode_expected (opcode p) (opcodes @ after_block e))) (\<lambda>ok.
          if ok then tret () else terminate e ILLEGAL_OPERATION))"

section \<open>Receiving\<close>

text \<open>
  A datagram of fewer than four bytes makes the number of bytes to copy wrap around. The opcode is
  converted to host order. The block is cleared before the data is copied, so the byte behind the data
  is 0 unless the block is full.
\<close>

definition read_datagram :: "tftp_env \<Rightarrow> address \<Rightarrow> byte list \<Rightarrow> packet run" where
  "read_datagram e a bs =
     (let bs = take 65536 bs
      in if length bs < 4 then Inl Out_Of_Bounds
         else Inr \<lparr>opcode = ntohs (load16 (drop 2 bs)), pdata = drop 4 bs,
                ptail = (if length bs = 65536 then [] else [0]), data_len = int (length bs) - 4,
                sender = stale_addr e a, raw = bs, block_id = 0\<rparr>)"

definition next_event :: "recv_event tact" where
  "next_event = (\<lambda>s. case inbox s of
     [] \<Rightarrow> Inr (Waiting, s) | x # xs \<Rightarrow> Inr (Done x, s\<lparr>inbox := xs\<rparr>))"

text \<open>The attempts with a time-out; each but the last resends the last packet after a time-out.\<close>

fun recv_attempts :: "tftp_env \<Rightarrow> nat \<Rightarrow> packet option tact" where
  "recv_attempts e 0 = tret None"
| "recv_attempts e (Suc n) =
     tbind next_event (\<lambda>x.
     case x of
       Timeout \<Rightarrow>
         tbind (if n = 0 then tret () else resend_last_packet e) (\<lambda>_. recv_attempts e n)
     | Recv_Error \<Rightarrow> tret None
     | Datagram a bs \<Rightarrow> tbind (tlift (read_datagram e a bs)) (\<lambda>p. tret (Some p)))"

definition recv_packet_buffer :: "tftp_env \<Rightarrow> bool \<Rightarrow> packet option tact" where
  "recv_packet_buffer e handle_timeout =
     tbind (tget pending) (\<lambda>p.
     case p of
       Some p \<Rightarrow> tbind (tput (\<lambda>s. s\<lparr>pending := None\<rparr>)) (\<lambda>_. tret (Some p))
     | None \<Rightarrow>
         if handle_timeout then recv_attempts e (MAX_RETRIES + 1)
         else
           tbind next_event (\<lambda>x.
           case x of
             Datagram a bs \<Rightarrow> tbind (tlift (read_datagram e a bs)) (\<lambda>p. tret (Some p))
           | _ \<Rightarrow> tret None))"

text \<open>
  The loop over packets from other addresses, each of which is answered with an error. It takes a
  datagram in every round, so the fuel \<open>recv_packet_mul\<close> gives it is enough. A packet that is too short
  is printed into an array with room for \<open>min_len + 3\<close> of its bytes.
\<close>

fun recv_packet_loop :: "tftp_env \<Rightarrow> u16 list \<Rightarrow> int \<Rightarrow> bool \<Rightarrow> nat \<Rightarrow> packet option tact" where
  "recv_packet_loop e opcodes min_len handle_timeout 0 = tstop No_Fuel"
| "recv_packet_loop e opcodes min_len handle_timeout (Suc fuel) =
     tbind (recv_packet_buffer e handle_timeout) (\<lambda>p.
     case p of
       None \<Rightarrow> if handle_timeout then tlift (Inl Use_After_Free) else tret None
     | Some p \<Rightarrow>
         tbind (tget check_addr) (\<lambda>check.
         tbind (tget peer) (\<lambda>client.
         if \<not> check \<or> sender p = client then
           tbind (if check then tret () else tput (\<lambda>s. s\<lparr>peer := sender p, check_addr := True\<rparr>)) (\<lambda>_.
           tbind (check_error e p opcodes) (\<lambda>_.
           if data_len p < min_len
           then
             tbind (tlift (cstr_at (pdata p @ ptail p))) (\<lambda>(text, _).
             if min_len + 3 < int (length text) then tlift (Inl Out_Of_Bounds)
             else terminate e ILLEGAL_OPERATION)
           else tret (Some p)))
         else
           tbind (error_occurred e UNKNOWN_TRANSFER_ID None (Some (sender p))) (\<lambda>_.
             recv_packet_loop e opcodes min_len handle_timeout fuel))))"

definition recv_packet_mul :: "tftp_env \<Rightarrow> u16 list \<Rightarrow> int \<Rightarrow> bool \<Rightarrow> packet option tact" where
  "recv_packet_mul e opcodes min_len handle_timeout = (\<lambda>s.
     recv_packet_loop e opcodes min_len handle_timeout (length (inbox s) + 2) s)"

definition recv_packet :: "tftp_env \<Rightarrow> byte list \<Rightarrow> int \<Rightarrow> bool \<Rightarrow> packet option tact" where
  "recv_packet e op min_len handle_timeout =
     recv_packet_mul e [ntohs (load16 op)] min_len handle_timeout"

text \<open>None stands for -1, a wrong checksum.\<close>

definition recv_ack :: "tftp_env \<Rightarrow> bool \<Rightarrow> int option tact" where
  "recv_ack e handle_timeout =
     tbind (recv_packet e ACK 2 handle_timeout) (\<lambda>p.
     tbind (tlift (deref p)) (\<lambda>p.
     tbind (tlift (checksum (word_of_int (data_len p + 4)) 0 (raw p))) (\<lambda>c.
     if c \<noteq> 0 then tret None else tret (Some (uint (ntohs (load16 (pdata p))))))))"

definition recv_data :: "tftp_env \<Rightarrow> bool \<Rightarrow> packet tact" where
  "recv_data e handle_timeout =
     tbind (recv_packet e DATA 2 handle_timeout) (\<lambda>p.
     tbind (tlift (deref p)) (\<lambda>p.
       tret (p\<lparr>block_id := uint (ntohs (load16 (pdata p))), pdata := drop 2 (pdata p),
              data_len := data_len p - 2\<rparr>)))"

end
