(* ===== verification/Tftp_Transfer.thy ===== *)
theory Tftp_Transfer
  imports Tftp_Handler
begin

text \<open>
  The transfers of \<open>src/networking/tftp/tftp_client_handle.c\<close>: the request with its options, reading a
  file, writing a file, and \<open>handle_client\<close>; then the handler's life in
  \<open>src/networking/tftp/tftp_server.c\<close>.
\<close>

section \<open>The request\<close>

fun map_options :: "tftp_env \<Rightarrow> (string \<times> string) list \<Rightarrow> unit tact" where
  "map_options e [] = tret ()"
| "map_options e ((name, val) # os) =
     tbind (if strcmp name ''blksize'' = 0
            then
              tbind (tput (\<lambda>s. s\<lparr>block_size := atoi val\<rparr>)) (\<lambda>_.
              if atoi val < 0 \<or> 65464 < atoi val then terminate e ILLEGAL_OPERATION else tret ())
            else tret ()) (\<lambda>_.
     tbind (if strcmp name ''windowsize'' = 0
            then
              tbind (tput (\<lambda>s. s\<lparr>window_size := atoi val\<rparr>)) (\<lambda>_.
              if atoi val < 0 \<or> 255 < atoi val then terminate e ILLEGAL_OPERATION else tret ())
            else tret ()) (\<lambda>_.
       map_options e os))"

text \<open>
  The file name is copied into 100 bytes, the mode into 10. The options are looked at when the two
  strings do not fill the packet; the acknowledgement of the options is awaited for a read only, and
  its checksum does not matter.
\<close>

definition recv_rq :: "tftp_env \<Rightarrow> (u16 \<times> string) tact" where
  "recv_rq e =
     tbind (recv_packet_mul e [load16 RRQ, load16 WRQ] 2 True) (\<lambda>p.
     tbind (tlift (deref p)) (\<lambda>p.
     tbind (tlift (cstr_at (pdata p @ ptail p))) (\<lambda>(file_name, rest).
     if 100 \<le> length file_name then tlift (Inl Out_Of_Bounds)
     else
       tbind (tlift (cstr_at rest)) (\<lambda>(file_mode, rest).
       if 10 \<le> length file_mode then tlift (Inl Out_Of_Bounds)
       else
         tbind (if strcmp file_mode ''octet'' \<noteq> 0 then terminate e ILLEGAL_OPERATION else tret ()) (\<lambda>_.
         if int (2 + length file_mode + length file_name) \<noteq> data_len p then
           tbind (tlift (process_option rest)) (\<lambda>options.
           if options = [] then tret (opcode p, file_name)
           else
             tbind (map_options e options) (\<lambda>_.
             tbind (send_oack e options) (\<lambda>_.
             tbind (if opcode p = load16 RRQ then tbind (recv_ack e True) (\<lambda>_. tret ()) else tret ()) (\<lambda>_.
               tret (opcode p, file_name)))))
         else tret (opcode p, file_name))))))"

section \<open>Sending a file\<close>

text \<open>
  The blocks of one window, \<open>n\<close> of them left; the result tells whether anything was left to send. The
  numbers are of type \<open>int\<close>.
\<close>

fun send_blocks_loop :: "tftp_env \<Rightarrow> byte list \<Rightarrow> int \<Rightarrow> int \<Rightarrow> int \<Rightarrow> nat \<Rightarrow> nat \<Rightarrow> bool tact" where
  "send_blocks_loop e buffer buff_size outer_id inner_id i 0 = tret True"
| "send_blocks_loop e buffer buff_size outer_id inner_id i (Suc n) =
     tbind (tget block_size) (\<lambda>blk_size.
     let local_blkid = int32 (outer_id * BUF_SIZE + inner_id + int i);
         start = int32 (local_blkid * blk_size)
     in if buff_size < start then tret (i \<noteq> 0)
        else
          let data_len_rest = buff_size - start;
              data_len_send = (if data_len_rest < blk_size then data_len_rest else blk_size)
          in if data_len_send < 0 \<or> int (length buffer) < int i * blk_size + data_len_send
             then tlift (Inl Out_Of_Bounds)
             else
               tbind (send_data e (take (nat data_len_send) (drop (nat (int i * blk_size)) buffer))
                 ((local_blkid + 1) mod BUF_SIZE)) (\<lambda>_.
               send_blocks_loop e buffer buff_size outer_id inner_id (Suc i) n))"

definition send_blocks :: "tftp_env \<Rightarrow> byte list \<Rightarrow> int \<Rightarrow> int \<Rightarrow> int \<Rightarrow> bool tact" where
  "send_blocks e buffer buff_size outer_id inner_id =
     tbind (tget window_size) (\<lambda>w. send_blocks_loop e buffer buff_size outer_id inner_id 0 (nat w))"

text \<open>
  The next window of the file is read into the buffer in every round, whether the last one was
  acknowledged or not; behind the end of the file the buffer keeps its bytes. Every round waits for an
  acknowledgement, so the fuel \<open>send_file\<close> gives is enough.
\<close>

fun send_file_loop ::
  "tftp_env \<Rightarrow> byte list \<Rightarrow> int \<Rightarrow> nat \<Rightarrow> nat \<Rightarrow> byte list \<Rightarrow> int \<Rightarrow> int \<Rightarrow> unit tact" where
  "send_file_loop e content buff_size 0 pos buffer outer_id blk_id = tstop No_Fuel"
| "send_file_loop e content buff_size (Suc fuel) pos buffer outer_id blk_id =
     tbind (tget block_size) (\<lambda>b.
     tbind (tget window_size) (\<lambda>w.
     let chunk = take (nat (b * w)) (drop pos content);
         buffer = chunk @ drop (length chunk) buffer
     in tbind (send_blocks e buffer buff_size outer_id blk_id) (\<lambda>more.
        if \<not> more then tret ()
        else
          tbind (recv_ack e False) (\<lambda>ack.
          case ack of
            None \<Rightarrow> terminate e INVALID_CHECKSUM
          | Some ack \<Rightarrow>
              let last_block_id = blk_id + w
              in if (ack \<le> last_block_id \<and> blk_id \<le> ack) \<or> (ack \<le> last_block_id mod BUF_SIZE \<and> ack < blk_id)
                 then send_file_loop e content buff_size fuel (pos + length chunk) buffer
                        (if ack < blk_id then outer_id + 1 else outer_id) ack
                 else send_file_loop e content buff_size fuel (pos + length chunk) buffer outer_id blk_id))))"

text \<open>The buffer has a block per window, its bytes are not initialised.\<close>

definition send_file :: "tftp_env \<Rightarrow> string \<Rightarrow> int \<Rightarrow> byte list \<Rightarrow> unit tact" where
  "send_file e filename buff_size junk = (\<lambda>s.
     case disk s filename of
       None \<Rightarrow> Inl Null_Deref
     | Some content \<Rightarrow> send_file_loop e content buff_size (length (inbox s) + 2) 0 junk 0 0 s)"

declare send_blocks_loop.simps(2) [simp del] send_file_loop.simps(2) [simp del]

section \<open>Receiving a file\<close>

text \<open>A short write removes the file.\<close>

definition write_block :: "tftp_env \<Rightarrow> string \<Rightarrow> byte list \<Rightarrow> unit tact" where
  "write_block e filename bytes =
     tbind (tget writes) (\<lambda>k.
     tbind (tput (writes_update Suc)) (\<lambda>_.
     if write_ok e k
     then tput (\<lambda>s. s\<lparr>disk := (disk s)(filename := map_option (\<lambda>f. f @ bytes) (disk s filename))\<rparr>)
     else
       tbind (tput (\<lambda>s. s\<lparr>disk := (disk s)(filename := None)\<rparr>)) (\<lambda>_.
         terminate e (if disk_full e then DISK_FULL else UNKNOWN))))"

text \<open>
  One window, \<open>n\<close> packets of it left. \<open>recv_data\<close> does not return NULL, it reads through it; the
  branches of the loop for NULL are never reached. The result: the last block and whether the file is
  complete.
\<close>

fun recv_window :: "tftp_env \<Rightarrow> string \<Rightarrow> nat \<Rightarrow> int \<Rightarrow> (int \<times> bool) tact" where
  "recv_window e filename 0 last_id = tret (last_id, False)"
| "recv_window e filename (Suc n) last_id =
     tbind (recv_data e False) (\<lambda>p.
     tbind (tlift (checksum (word_of_int (data_len p + 6)) 0 (raw p))) (\<lambda>c.
     if c \<noteq> 0 then tret (last_id, False)
     else if block_id p = last_id + 1 then
       tbind (write_block e filename (take (nat (data_len p)) (pdata p))) (\<lambda>_.
       tbind (tget block_size) (\<lambda>b.
       let last_id = (if block_id p = BUF_SIZE then -1 else block_id p)
       in if data_len p < b
          then tbind (send_ack e last_id) (\<lambda>_. tret (last_id, True))
          else recv_window e filename n last_id))
     else recv_window e filename n last_id))"

text \<open>The number of retries stays 0, so only the last block ends the loop.\<close>

fun recv_file_loop :: "tftp_env \<Rightarrow> string \<Rightarrow> nat \<Rightarrow> int \<Rightarrow> unit tact" where
  "recv_file_loop e filename 0 last_id = tstop No_Fuel"
| "recv_file_loop e filename (Suc fuel) last_id =
     tbind (tget window_size) (\<lambda>w.
     tbind (recv_window e filename (nat w) last_id) (\<lambda>(last_id, complete).
     if complete then tret ()
     else
       tbind (send_ack e (if last_id = -1 then BUF_SIZE else last_id)) (\<lambda>_.
         recv_file_loop e filename fuel last_id)))"

definition recv_file :: "tftp_env \<Rightarrow> nat \<Rightarrow> string \<Rightarrow> unit tact" where
  "recv_file e fuel filename =
     tbind (if fopen_ok e filename
            then tput (\<lambda>s. s\<lparr>disk := (disk s)(filename \<mapsto> [])\<rparr>)
            else terminate e ACCESS_VIOLATION) (\<lambda>_.
       recv_file_loop e filename fuel 0)"

section \<open>A client\<close>

definition upload_path :: "string \<Rightarrow> string" where
  "upload_path file_name = UPLOAD_DIR @ ''/'' @ file_name"

definition handle_read :: "tftp_env \<Rightarrow> string \<Rightarrow> byte list \<Rightarrow> unit tact" where
  "handle_read e file_name junk =
     (let full_path = upload_path file_name
      in if 128 \<le> length full_path then tlift (Inl Out_Of_Bounds)
         else
           tbind (tget (\<lambda>s. disk s full_path)) (\<lambda>f.
           case f of
             None \<Rightarrow> terminate e FILE_NOT_FOUND
           | Some content \<Rightarrow> send_file e full_path (int (length content)) junk))"

definition handle_write :: "tftp_env \<Rightarrow> nat \<Rightarrow> string \<Rightarrow> unit tact" where
  "handle_write e fuel file_name =
     tbind (tget allow_upload) (\<lambda>allowed.
     tbind (if \<not> allowed then terminate e ACCESS_VIOLATION else tret ()) (\<lambda>_.
     let full_path = upload_path file_name
     in if 1024 \<le> length full_path then tlift (Inl Out_Of_Bounds)
        else
          tbind (tget (\<lambda>s. disk s full_path)) (\<lambda>f.
          tbind (if f \<noteq> None then terminate e FILE_ALREADY_EXISTS else tret ()) (\<lambda>_.
          tbind (send_ack e 0) (\<lambda>_.
            recv_file e fuel full_path)))))"

text \<open>0 when the transfer came to its end, -1 after a jump.\<close>

definition handle_client :: "tftp_env \<Rightarrow> nat \<Rightarrow> byte list \<Rightarrow> int tact" where
  "handle_client e fuel junk = (\<lambda>s.
     and_then
       (tbind (recv_rq e) (\<lambda>(op, file_name).
        if op = load16 RRQ then handle_read e file_name junk
        else if op = load16 WRQ then handle_write e fuel file_name
        else terminate e ILLEGAL_OPERATION) s)
       (\<lambda>(r, s). case r of
          Done _ \<Rightarrow> Inr (Done 0, s)
        | Jumped \<Rightarrow> Inr (Done (-1), s)
        | Waiting \<Rightarrow> Inr (Waiting, s)
        | No_Fuel \<Rightarrow> Inr (No_Fuel, s)))"

end
