(* ===== verification/Tftp_Correct.thy ===== *)
theory Tftp_Correct
  imports Tftp_Transfer
begin

text \<open>
  What the transfers do with a client that keeps the protocol.
\<close>

section \<open>Actions\<close>

named_theorems tact_simps \<open>running actions\<close>

lemma tact_basics [tact_simps]:
  "tret x s = Inr (Done x, s)" "tget f s = Inr (Done (f s), s)" "tput h s = Inr (Done (), h s)"
  "tstop r s = Inr (r, s)" "tlift (Inr y) s = Inr (Done y, s)" "tlift (Inl z) s = Inl z"
  by (simp_all add: tret_def tget_def tput_def tstop_def tlift_def)

lemma tbind_Done: "m s = Inr (Done x, s') \<Longrightarrow> tbind m k s = k x s'"
  by (simp add: tbind_def)

lemma tbind_Inl: "m s = Inl z \<Longrightarrow> tbind m k s = Inl z"
  by (simp add: tbind_def)

lemma tbind_basics [tact_simps]:
  "tbind (tret x) k1 s = k1 x s" "tbind (tget f) k2 s = k2 (f s) s" "tbind (tput h) k3 s = k3 () (h s)"
  "tbind (tlift (Inr y)) k4 s = k4 y s" "tbind (tlift (Inl z)) k5 s = Inl z"
  by (simp_all add: tbind_def tact_basics)

section \<open>Packets on the wire\<close>

definition wire :: "byte list \<Rightarrow> byte list" where
  "wire data =
     (case checksum (of_nat (length data)) (int (length data mod 2)) data of
        Inr c \<Rightarrow> checksummed c data | Inl _ \<Rightarrow> data)"

lemma wire_checksum:
  assumes "length data < 65534"
  obtains c where "checksum (of_nat (length data)) (int (length data mod 2)) data = Inr c"
    "wire data = checksummed c data" "checksum (of_nat (length data + 2)) 0 (wire data) = Inr 0"
proof -
  obtain c where "checksum (of_nat (length data)) (int (length data mod 2)) data = Inr c"
    "checksum (of_nat (length data + 2)) 0 (checksummed c data) = Inr 0"
    using checksum_accepts [OF assms] by auto
  then show ?thesis using that by (simp add: wire_def)
qed

lemma checksum_wire: "length data < 65534 \<Longrightarrow> checksum (of_nat (length data + 2)) 0 (wire data) = Inr 0"
  by (rule wire_checksum) simp_all

lemma length_opcode [simp]:
  "length ACK = 2" "length DATA = 2" "length OACK = 2" "length RRQ = 2" "length WRQ = 2"
  by (simp_all add: ACK_def DATA_def OACK_def RRQ_def WRQ_def)

lemma length_wire: "length data < 65534 \<Longrightarrow> length (wire data) = length data + 2"
  using wire_checksum [of data] by (metis length_checksummed)

lemma drop_wire: "length data < 65534 \<Longrightarrow> drop 2 (wire data) = data"
  using wire_checksum [of data] by (metis checksummed_def append_eq_conv_conj length_store16)

lemma drop_wire_op: "length (op @ rest) < 65534 \<Longrightarrow> length op = 2 \<Longrightarrow> drop 4 (wire (op @ rest)) = rest"
  using drop_wire [of "op @ rest"] drop_drop [of 2 2 "wire (op @ rest)"] by simp

lemma load_block_bytes: "uint (ntohs (load16 (block_bytes n @ bs))) = n mod 65536"
  by (simp add: block_bytes_def ntohs_def uint_word_of_int)

lemma length_block_bytes [simp]: "length (block_bytes n) = 2"
  by (simp add: block_bytes_def)

section \<open>Sending and receiving\<close>

text \<open>A world in which packets get through.\<close>

definition reliable :: "tftp_env \<Rightarrow> bool" where
  "reliable e \<longleftrightarrow> (\<forall>k. send_result e k = Sent) \<and> (\<forall>a. stale_addr e a = a)"

lemma reliable_send: "reliable e \<Longrightarrow> send_result e k = Sent"
  by (simp add: reliable_def)

lemma reliable_addr: "reliable e \<Longrightarrow> stale_addr e a = a"
  by (cases a) (simp add: reliable_def)

lemma send_ok:
  assumes "reliable e" and "length data < 65534"
  shows "send e data addr s = Inr (Done (), s\<lparr>sends := Suc (sends s), last_packet := data,
    sent := sent s @ [(case addr of None \<Rightarrow> peer s | Some a \<Rightarrow> a, wire data)]\<rparr>)"
proof -
  obtain c where "checksum (of_nat (length data)) (int (length data mod 2)) data = Inr c"
    "wire data = checksummed c data"
    using wire_checksum [OF assms(2)] .
  then show ?thesis using assms(1)
    by (simp add: send_def tbind_def tget_def tput_def tlift_def Let_def reliable_send)
qed

lemma recv_packet_ok:
  assumes "reliable e" and "pending s = None" and "check_addr s"
    and "inbox s = Datagram (peer s) (wire (op @ rest)) # xs"
    and "op = ACK \<or> op = DATA" and "2 \<le> length rest" and "length rest < 65532"
  shows "recv_packet e op 2 t s = Inr (Done (Some \<lparr>opcode = ntohs (load16 op), pdata = rest, ptail = [0],
      data_len = int (length rest), sender = peer s, raw = wire (op @ rest), block_id = 0\<rparr>), s\<lparr>inbox := xs\<rparr>)"
proof -
  have op: "length op = 2" "ntohs (load16 (op @ rest)) = ntohs (load16 op)"
    using assms(5) by (auto simp: ACK_def DATA_def load16_def)
  have l: "length (wire (op @ rest)) = length rest + 4"
    using length_wire [of "op @ rest"] assms(7) op(1) by simp
  have d: "drop 2 (wire (op @ rest)) = op @ rest" "drop 4 (wire (op @ rest)) = rest"
    using drop_wire [of "op @ rest"] drop_wire_op [of op rest] assms(7) op(1) by simp_all
  have r: "read_datagram e (peer s) (wire (op @ rest)) = Inr \<lparr>opcode = ntohs (load16 op), pdata = rest, ptail = [0],
      data_len = int (length rest), sender = peer s, raw = wire (op @ rest), block_id = 0\<rparr>"
    using assms(1,7) l d op(2) by (simp add: read_datagram_def reliable_addr)
  have o: "ntohs (load16 op) \<noteq> load16 ERROR" "ntohs (load16 op) \<noteq> 0"
    using assms(5) by (auto simp: ACK_def DATA_def ERROR_def load16_def ntohs_def htons_def)
  show ?thesis using assms(2-4,6) r o
    by (cases t) (simp_all add: recv_packet_def recv_packet_mul_def recv_packet_buffer_def next_event_def tact_simps
        check_error_def tbind_def)
qed

definition ack_packet :: "int \<Rightarrow> byte list" where
  "ack_packet n = ACK @ block_bytes n"

lemma send_ack_ok:
  assumes "reliable e"
  shows "send_ack e n s = Inr (Done (), s\<lparr>sends := Suc (sends s), last_packet := ack_packet n,
    sent := sent s @ [(peer s, wire (ack_packet n))]\<rparr>)"
  using send_ok [OF assms, of "ack_packet n" None s] by (simp add: send_ack_def ack_packet_def ACK_def)

lemma recv_ack_ok:
  assumes "reliable e" and "pending s = None" and "check_addr s"
    and "inbox s = Datagram (peer s) (wire (ack_packet n)) # xs"
  shows "recv_ack e t s = Inr (Done (Some (n mod 65536)), s\<lparr>inbox := xs\<rparr>)"
proof -
  have c: "checksum 6 0 (wire (ACK @ block_bytes n)) = Inr 0"
    using checksum_wire [of "ACK @ block_bytes n"] by simp
  have "load16 (block_bytes n) = load16 (block_bytes n @ [])" by simp
  then have l: "uint (ntohs (load16 (block_bytes n))) = n mod 65536"
    using load_block_bytes [of n "[]"] by simp
  show ?thesis
    using recv_packet_ok [OF assms(1-3) assms(4) [unfolded ack_packet_def]] c l
    by (simp add: recv_ack_def tbind_def tlift_def tret_def deref_def)
qed

lemma recv_data_ok:
  assumes "reliable e" and "pending s = None" and "check_addr s"
    and "inbox s = Datagram (peer s) (wire (DATA @ block_bytes n @ d)) # xs"
    and "length d < 65530"
  obtains p where "recv_data e False s = Inr (Done p, s\<lparr>inbox := xs\<rparr>)"
    "pdata p = d" "data_len p = int (length d)" "block_id p = n mod 65536"
    "checksum (word_of_int (data_len p + 6)) 0 (raw p) = Inr 0"
proof -
  have c: "checksum (word_of_int (int (length d) + 6)) 0 (wire (DATA @ block_bytes n @ d)) = Inr 0"
    using checksum_wire [of "DATA @ block_bytes n @ d"] assms(5) by (simp add: add.commute)
  show ?thesis
    using recv_packet_ok [OF assms(1-4)] assms(5) c load_block_bytes [of n d] that
    by (simp add: recv_data_def tbind_def tlift_def tret_def deref_def drop_append)
qed

end
