(* ===== verification/Tftp_Request.thy ===== *)
theory Tftp_Request
  imports Tftp_Correct
begin

text \<open>
  The request of a client and the options it asks for.
\<close>

section \<open>Requests\<close>

definition options_bytes :: "(string \<times> string) list \<Rightarrow> byte list" where
  "options_bytes options = concat (map (\<lambda>(name, val). bytes_of name @ [0] @ bytes_of val @ [0]) options)"

definition request_data :: "string \<Rightarrow> (string \<times> string) list \<Rightarrow> byte list" where
  "request_data name options = bytes_of name @ 0 # bytes_of ''octet'' @ 0 # options_bytes options"

text \<open>A request in \<open>octet\<close> mode; behind it in its block there is a byte that is not printable.\<close>

definition is_request :: "byte list \<Rightarrow> string \<Rightarrow> (string \<times> string) list \<Rightarrow> packet \<Rightarrow> bool" where
  "is_request op name options p \<longleftrightarrow>
     opcode p = load16 op \<and> pdata p = request_data name options
     \<and> data_len p = int (length (request_data name options))
     \<and> ptail p \<noteq> [] \<and> \<not> isprint (hd (ptail p))"

definition option_ok :: "string \<times> string \<Rightarrow> bool" where
  "option_ok = (\<lambda>(name, val). nul_free name \<and> nul_free val \<and> length name < 256 \<and> length val < 256
     \<and> name \<noteq> [] \<and> isprint (hd (bytes_of name)))"

lemma isprint_zero [simp]: "\<not> isprint 0"
  by (simp add: isprint_def)

lemma options_bytes_Cons:
  "options_bytes ((name, val) # os) = bytes_of name @ 0 # bytes_of val @ 0 # options_bytes os"
  by (simp add: options_bytes_def)

lemma options_bytes_Nil [simp]: "options_bytes [] = []"
  by (simp add: options_bytes_def)

lemma length_options_bytes: "options \<noteq> [] \<Longrightarrow> 0 < length (options_bytes options)"
  by (cases options) (auto simp: options_bytes_Cons)

lemma process_option_bytes:
  "list_all option_ok options \<Longrightarrow> \<not> isprint t \<Longrightarrow> process_option (options_bytes options @ t # rest) = Inr options"
proof (induction options)
  case Nil
  then show ?case by (simp add: process_option.simps)
next
  case (Cons o' os)
  obtain name val where o': "o' = (name, val)" by (cases o')
  have ok: "nul_free name" "nul_free val" "length name < 256" "length val < 256" "name \<noteq> []"
    "isprint (hd (bytes_of name))" using Cons.prems(1) o' by (auto simp: option_ok_def)
  obtain c cs where c: "bytes_of name = c # cs" using ok(5) by (cases "bytes_of name") (auto simp: bytes_of_def)
  let ?rest = "options_bytes os @ t # rest"
  have n: "cstr_at (c # cs @ 0 # bytes_of val @ 0 # ?rest) = Inr (name, bytes_of val @ 0 # ?rest)"
    using cstr_at_string [OF ok(1), of "bytes_of val @ 0 # ?rest"] c by simp
  have v: "cstr_at (bytes_of val @ 0 # ?rest) = Inr (val, ?rest)"
    using cstr_at_string [OF ok(2)] by simp
  have "options_bytes (o' # os) @ t # rest = c # cs @ 0 # bytes_of val @ 0 # ?rest"
    using o' c by (simp add: options_bytes_Cons)
  then show ?case using n v ok c o' Cons
    by (simp add: process_option.simps [of "c # cs @ 0 # bytes_of val @ 0 # ?rest"])
qed

section \<open>Options\<close>

text \<open>The sizes a client gets, None when it is turned away.\<close>

fun negotiated :: "(string \<times> string) list \<Rightarrow> int \<times> int \<Rightarrow> (int \<times> int) option" where
  "negotiated [] sizes = Some sizes"
| "negotiated ((name, val) # os) (b, w) =
     (if name = ''blksize'' \<and> (atoi val < 0 \<or> 65464 < atoi val)
        \<or> name = ''windowsize'' \<and> (atoi val < 0 \<or> 255 < atoi val)
      then None
      else negotiated os
             (if name = ''blksize'' then atoi val else b, if name = ''windowsize'' then atoi val else w))"

lemma map_options_ok:
  "negotiated options (block_size s, window_size s) = Some (b, w) \<Longrightarrow>
    map_options e options s = Inr (Done (), s\<lparr>block_size := b, window_size := w\<rparr>)"
proof (induction options arbitrary: s)
  case (Cons o' os)
  obtain name val where o': "o' = (name, val)" by (cases o')
  consider (blk) "name = ''blksize''" | (win) "name = ''windowsize''" | (other) "name \<noteq> ''blksize''" "name \<noteq> ''windowsize''"
    by blast
  then show ?case
  proof cases
    case blk
    then show ?thesis using Cons.IH [of "s\<lparr>block_size := atoi val\<rparr>"] Cons.prems o'
      by (simp add: tbind_def tact_basics split: if_splits)
  next
    case win
    then show ?thesis using Cons.IH [of "s\<lparr>window_size := atoi val\<rparr>"] Cons.prems o'
      by (simp add: tbind_def tact_basics split: if_splits)
  next
    case other
    then show ?thesis using Cons.IH [of s] Cons.prems o' by (simp add: tact_simps)
  qed
qed (simp add: tact_simps)

lemma negotiated_range:
  "negotiated options (b, w) = Some (b', w') \<Longrightarrow> 0 \<le> b \<Longrightarrow> b \<le> 65464 \<Longrightarrow> 0 \<le> w \<Longrightarrow> w \<le> 255 \<Longrightarrow>
    0 \<le> b' \<and> b' \<le> 65464 \<and> 0 \<le> w' \<and> w' \<le> 255"
proof (induction options arbitrary: b w)
  case (Cons o' os)
  then show ?case by (cases o') (auto split: if_splits)
qed simp

definition oack_packet :: "(string \<times> string) list \<Rightarrow> byte list" where
  "oack_packet options = OACK @ options_bytes options"

lemma send_oack_ok:
  assumes "reliable e" and "length (oack_packet options) < 65534"
  shows "send_oack e options s = Inr (Done (), s\<lparr>sends := Suc (sends s), last_packet := oack_packet options,
    sent := sent s @ [(peer s, wire (oack_packet options))]\<rparr>)"
  using send_ok [OF assms, of None s] assms(2)
  by (simp add: send_oack_def Let_def oack_packet_def options_bytes_def)

section \<open>The request is read\<close>

lemma WRQ_RRQ [simp]: "WRQ \<noteq> RRQ" "RRQ \<noteq> WRQ"
  by (simp_all add: WRQ_def RRQ_def)

definition oack_sent :: "address \<Rightarrow> (string \<times> string) list \<Rightarrow> (address \<times> byte list) list" where
  "oack_sent a options = (if options = [] then [] else [(a, wire (oack_packet options))])"

definition oack_acked :: "address \<Rightarrow> byte list \<Rightarrow> (string \<times> string) list \<Rightarrow> recv_event list" where
  "oack_acked a op options = (if options = [] \<or> op \<noteq> RRQ then [] else [Datagram a (wire (ack_packet 0))])"

lemma recv_request:
  assumes "pending s = Some p" and "check_addr s" and "sender p = peer s"
    and "is_request op name options p" and "op = RRQ \<or> op = WRQ"
  shows "recv_packet_mul e [load16 RRQ, load16 WRQ] 2 True s = Inr (Done (Some p), s\<lparr>pending := None\<rparr>)"
proof -
  have op: "load16 op \<noteq> load16 ERROR" "opcode p = load16 op" "2 \<le> data_len p"
    and e: "opcode_expected (load16 op) (load16 RRQ # load16 WRQ # after_block e) = Inr True"
    using assms(4,5) by (auto simp: is_request_def request_data_def RRQ_def WRQ_def ERROR_def load16_def)
  then show ?thesis using assms(1-3)
    by (simp add: recv_packet_mul_def recv_packet_buffer_def check_error_def tact_simps tbind_def)
qed

lemma recv_rq_ok:
  assumes r: "reliable e" and s: "pending s = Some p" "check_addr s" "sender p = peer s"
    and p: "is_request op name options p" "op = RRQ \<or> op = WRQ"
    and name: "nul_free name" "length name < 100" and options: "list_all option_ok options"
    and len: "length (oack_packet options) < 65534"
    and sizes: "negotiated options (block_size s, window_size s) = Some (b, w)"
    and acked: "inbox s = oack_acked (peer s) op options @ rest"
  obtains s' where "recv_rq e s = Inr (Done (load16 op, name), s')"
    "block_size s' = b" "window_size s' = w" "inbox s' = rest" "sent s' = sent s @ oack_sent (peer s) options"
    "peer s' = peer s" "check_addr s'" "pending s' = None" "allow_upload s' = allow_upload s"
    "disk s' = disk s" "writes s' = writes s"
proof -
  let ?s = "s\<lparr>pending := None\<rparr>"
  obtain t tail where t: "ptail p = t # tail" "\<not> isprint t"
    using p(1) by (cases "ptail p") (auto simp: is_request_def)
  have data: "pdata p = request_data name options" "data_len p = int (length (request_data name options))"
    "opcode p = load16 op" using p(1) by (simp_all add: is_request_def)
  have c1: "cstr_at (pdata p @ ptail p) = Inr (name, bytes_of ''octet'' @ 0 # options_bytes options @ t # tail)"
    using cstr_at_string [OF name(1), of "bytes_of ''octet'' @ 0 # options_bytes options @ t # tail"] data(1) t(1)
    by (simp add: request_data_def)
  have c2: "cstr_at (bytes_of ''octet'' @ 0 # options_bytes options @ t # tail) = Inr (''octet'', options_bytes options @ t # tail)"
    by (rule cstr_at_string) (simp add: NUL_def)
  note opts = process_option_bytes [OF options t(2), of tail]
  have rq: "recv_packet_mul e [load16 RRQ, load16 WRQ] 2 True s = Inr (Done (Some p), ?s)"
    by (rule recv_request [OF s p])
  show ?thesis
  proof (cases "options = []")
    case True
    then have "recv_rq e s = Inr (Done (load16 op, name), ?s)"
      using c1 c2 data name(2) by (simp add: recv_rq_def tbind_Done [where m = "recv_packet_mul e [load16 RRQ, load16 WRQ] 2 True", OF rq]
        tact_simps deref_def request_data_def)
    then show ?thesis using that [of ?s] True sizes acked s by (simp add: oack_sent_def oack_acked_def)
  next
    case False
    let ?s1 = "?s\<lparr>block_size := b, window_size := w\<rparr>"
    let ?s2 = "?s1\<lparr>sends := Suc (sends s), last_packet := oack_packet options,
      sent := sent s @ [(peer s, wire (oack_packet options))]\<rparr>"
    have m: "map_options e options ?s = Inr (Done (), ?s1)" using map_options_ok [of options ?s] sizes by simp
    have o': "send_oack e options ?s1 = Inr (Done (), ?s2)" using send_oack_ok [OF r len, of ?s1] by simp
    have differs: "int (2 + length ''octet'' + length name) \<noteq> data_len p"
      using data(2) length_options_bytes [OF False] by (simp add: request_data_def)
    have a: "(if load16 op = load16 RRQ then tbind (recv_ack e True) (\<lambda>_. tret ()) else tret ()) ?s2
        = Inr (Done (), ?s2\<lparr>inbox := rest\<rparr>)"
    proof (cases "op = RRQ")
      case True
      then show ?thesis
        using recv_ack_ok [OF r, of ?s2 0 rest True] acked False s(2)
        by (simp add: oack_acked_def tbind_def tact_basics)
    next
      case other: False
      then have "load16 op \<noteq> load16 RRQ" using p(2) by (auto simp: RRQ_def WRQ_def load16_def)
      then show ?thesis using acked other by (simp add: oack_acked_def tact_basics)
    qed
    have "recv_rq e s = Inr (Done (load16 op, name), ?s2\<lparr>inbox := rest\<rparr>)"
      using c1 c2 data(3) name(2) differs False opts
      by (simp add: recv_rq_def tbind_Done [where m = "recv_packet_mul e [load16 RRQ, load16 WRQ] 2 True", OF rq]
        tact_simps deref_def tbind_Done [where m = "map_options e options", OF m]
        tbind_Done [where m = "send_oack e options", OF o'] tbind_Done [where m = "if load16 op = load16 RRQ then _ else _", OF a])
    then show ?thesis using that [of "?s2\<lparr>inbox := rest\<rparr>"] False s by (simp add: oack_sent_def)
  qed
qed

end
