(* ===== verification/Tftp_Download.thy ===== *)
theory Tftp_Download
  imports Tftp_Request
begin

text \<open>
  Reading a file: with a client that acknowledges every window, \<open>_send_file\<close> sends the blocks of the
  file, in their order and each once.
\<close>

section \<open>The blocks of a file\<close>

definition file_block :: "nat \<Rightarrow> byte list \<Rightarrow> nat \<Rightarrow> byte list" where
  "file_block b f k = take b (drop (k * b) f)"

definition block_count :: "nat \<Rightarrow> byte list \<Rightarrow> nat" where
  "block_count b f = length f div b + 1"

definition data_packet :: "nat \<Rightarrow> byte list \<Rightarrow> nat \<Rightarrow> byte list" where
  "data_packet b f k = DATA @ block_bytes ((int k + 1) mod BUF_SIZE) @ file_block b f k"

lemma length_file_block: "length (file_block b f k) = min b (length f - k * b)"
  by (simp add: file_block_def)

lemma block_exists: "0 < b \<Longrightarrow> k < block_count b f \<longleftrightarrow> k * b \<le> length f"
  by (simp add: block_count_def less_Suc_eq_le less_eq_div_iff_mult_less_eq)

lemma take_file_blocks: "concat (map (file_block b f) [0..<k]) = take (k * b) f"
proof (induction k)
  case (Suc k)
  have "take (Suc k * b) f = take (k * b) f @ file_block b f k"
    by (simp only: mult_Suc add.commute [of b] take_add file_block_def)
  then show ?case using Suc by simp
qed simp

lemma concat_file_blocks: "0 < b \<Longrightarrow> concat (map (file_block b f) [0..<block_count b f]) = f"
  using block_exists [of b "block_count b f" f] by (simp only: take_file_blocks) simp

lemma block_in_window:
  "k * b + i * b \<le> length f \<Longrightarrow> i < w \<Longrightarrow>
    take (length (file_block b f (k + i))) (drop (i * b) (take (b * w) (drop (k * b) f) @ junk)) = file_block b f (k + i)"
proof -
  assume k: "k * b + i * b \<le> length f" and i: "i < w"
  have "Suc i * b \<le> w * b" using i by (intro mult_le_mono1) simp
  then have "b \<le> b * w - i * b" by (simp add: mult.commute)
  then show ?thesis using k
    by (simp add: file_block_def drop_take take_append min_def add.commute algebra_simps)
qed

section \<open>A window\<close>

text \<open>What a transfer does not touch.\<close>

definition same_session :: "tftp \<Rightarrow> tftp \<Rightarrow> bool" where
  "same_session s s' \<longleftrightarrow> peer s' = peer s \<and> block_size s' = block_size s \<and> window_size s' = window_size s
     \<and> check_addr s' = check_addr s \<and> allow_upload s' = allow_upload s \<and> pending s' = pending s
     \<and> closes s' = closes s"

lemma same_session_refl [simp]: "same_session s s"
  by (simp add: same_session_def)

lemma same_session_trans: "same_session s t \<Longrightarrow> same_session t u \<Longrightarrow> same_session s u"
  by (simp add: same_session_def)

lemma int32_nat: "n < 2147483648 \<Longrightarrow> int32 (int n) = int n"
  by (rule int32_id) simp_all

lemma send_data_ok:
  assumes "reliable e" and "k < block_count b f" and "b \<le> 65464"
  shows "send_data e (file_block b f k) ((int k + 1) mod BUF_SIZE) s =
    Inr (Done (), s\<lparr>sends := Suc (sends s), last_packet := data_packet b f k,
      sent := sent s @ [(peer s, wire (data_packet b f k))]\<rparr>)"
  using send_ok [OF assms(1), of "data_packet b f k" None s] assms(3)
  by (simp add: send_data_def data_packet_def length_file_block)

definition window_data :: "nat \<Rightarrow> byte list \<Rightarrow> byte list \<Rightarrow> nat \<Rightarrow> nat \<Rightarrow> bool" where
  "window_data b f buffer k w \<longleftrightarrow>
     (\<forall>i<w. k + i < block_count b f \<longrightarrow>
        i * b + length (file_block b f (k + i)) \<le> length buffer \<and>
        take (length (file_block b f (k + i))) (drop (i * b) buffer) = file_block b f (k + i))"

lemma rest_of_block:
  "m \<le> l \<Longrightarrow> (if int l - int m < int b then int l - int m else int b) = int (min b (l - m))"
  by (simp add: min_def) linarith

lemma send_blocks_loop_ok:
  assumes r: "reliable e" and b: "0 < b" "b \<le> 65464" and k: "outer * BUF_SIZE + inner = int k"
    and fits: "(k + w) * b < 2147483648" and data: "window_data b f buffer k w"
  shows "block_size s = int b \<Longrightarrow> i + n = w \<Longrightarrow> \<exists>s'.
    send_blocks_loop e buffer (int (length f)) outer inner i n s
      = Inr (Done (n = 0 \<or> i \<noteq> 0 \<or> k + i < block_count b f), s') \<and>
    same_session s s' \<and> inbox s' = inbox s \<and> disk s' = disk s \<and>
    sent s' = sent s @ map (\<lambda>j. (peer s, wire (data_packet b f j))) [k + i..<min (k + w) (block_count b f)]"
proof (induction n arbitrary: i s)
  case 0
  then show ?case by (intro exI [of _ s]) (simp add: tact_simps)
next
  case (Suc n)
  let ?q = "k + i"
  have "?q * b \<le> (k + w) * b" using Suc.prems by (intro mult_le_mono1) simp
  then have qb: "?q * b < 2147483648" using fits by (rule le_less_trans)
  have "?q * 1 \<le> ?q * b" using b by (intro mult_le_mono2) simp
  then have q: "?q < 2147483648" using qb by (simp only: mult_1_right)
  have id: "int32 (outer * BUF_SIZE + inner + int i) = int ?q"
    using int32_nat [OF q] k by simp
  have start: "int32 (int ?q * int b) = int (?q * b)"
    using int32_nat [OF qb] by simp
  show ?case
  proof (cases "?q < block_count b f")
    case False
    then have "length f < ?q * b" using block_exists [OF b(1), of ?q f] by simp
    then have "int (length f) < int (?q * b)" by (simp only: of_nat_less_iff)
    then show ?thesis using False Suc.prems
      by (intro exI [of _ s]) (simp add: send_blocks_loop.simps(2) tact_simps id start Let_def del: of_nat_mult of_nat_add)
  next
    case True
    then have le: "?q * b \<le> length f" using block_exists [OF b(1), of ?q f] by simp
    have len: "(if int (length f) - int (?q * b) < int b then int (length f) - int (?q * b) else int b)
        = int (length (file_block b f ?q))"
      using rest_of_block [OF le] by (simp only: length_file_block)
    have w: "i < w" using Suc.prems by simp
    have buf: "i * b + length (file_block b f ?q) \<le> length buffer"
      "take (length (file_block b f ?q)) (drop (i * b) buffer) = file_block b f ?q"
      using data w True by (auto simp: window_data_def)
    have idx: "int i * int b = int (i * b)" by simp
    let ?s = "s\<lparr>sends := Suc (sends s), last_packet := data_packet b f ?q,
      sent := sent s @ [(peer s, wire (data_packet b f ?q))]\<rparr>"
    have step: "send_blocks_loop e buffer (int (length f)) outer inner i (Suc n) s
        = send_blocks_loop e buffer (int (length f)) outer inner (Suc i) n ?s"
    proof -
      have size: "tbind (tget block_size) K s = K (int b) s" for K :: "int \<Rightarrow> bool tact"
        using Suc.prems(1) by (simp add: tact_simps)
      have sent: "tbind (send_data e (file_block b f ?q) ((int ?q + 1) mod BUF_SIZE)) K s = K () ?s" for K :: "unit \<Rightarrow> bool tact"
        by (rule tbind_Done) (rule send_data_ok [OF r True b(2)])
      have "\<not> int (length f) < int (?q * b)" using le by (simp only: of_nat_less_iff not_less)
      moreover have "\<not> (int (length (file_block b f ?q)) < 0
          \<or> int (length buffer) < int (i * b) + int (length (file_block b f ?q)))" using buf(1) by linarith
      ultimately show ?thesis
        by (simp only: send_blocks_loop.simps(2) size Let_def id start len idx nat_int buf(2) if_False
            sent)
    qed
    have up: "[?q..<min (k + w) (block_count b f)] = ?q # [k + Suc i..<min (k + w) (block_count b f)]"
      using True w by (simp add: upt_conv_Cons)
    obtain s' where "send_blocks_loop e buffer (int (length f)) outer inner (Suc i) n ?s
        = Inr (Done (n = 0 \<or> Suc i \<noteq> 0 \<or> k + Suc i < block_count b f), s')"
      "same_session ?s s'" "inbox s' = inbox ?s" "disk s' = disk ?s"
      "sent s' = sent ?s @ map (\<lambda>j. (peer ?s, wire (data_packet b f j))) [k + Suc i..<min (k + w) (block_count b f)]"
      using Suc.IH [of ?s "Suc i"] Suc.prems by auto
    then show ?thesis using step True up
      by (intro exI [of _ s']) (simp add: same_session_def)
  qed
qed

lemma send_blocks_ok:
  assumes "reliable e" and "0 < b" "b \<le> 65464" and "outer * BUF_SIZE + inner = int k"
    and "(k + w) * b < 2147483648" and "window_data b f buffer k w"
    and "block_size s = int b" and "window_size s = int w" and "0 < w"
  obtains s' where "send_blocks e buffer (int (length f)) outer inner s = Inr (Done (k < block_count b f), s')"
    "same_session s s'" "inbox s' = inbox s" "disk s' = disk s"
    "sent s' = sent s @ map (\<lambda>j. (peer s, wire (data_packet b f j))) [k..<min (k + w) (block_count b f)]"
proof -
  have "send_blocks e buffer (int (length f)) outer inner s = send_blocks_loop e buffer (int (length f)) outer inner 0 w s"
    using assms(8) by (simp add: send_blocks_def tact_simps)
  then show ?thesis
    using send_blocks_loop_ok [OF assms(1-6), of s 0 w] assms(7,9) that by auto
qed

section \<open>A file\<close>

text \<open>The client acknowledges the last block of every window.\<close>

definition window_count :: "nat \<Rightarrow> nat \<Rightarrow> nat" where
  "window_count w n = (n + w - 1) div w"

definition window_end :: "nat \<Rightarrow> nat \<Rightarrow> nat \<Rightarrow> nat" where
  "window_end w n r = min (r * w) n"

lemma window_end_Suc: "window_end w n (Suc r) = min (window_end w n r + w) n"
  by (simp add: window_end_def min_def)

lemma window_end_last: "0 < w \<Longrightarrow> window_end w n (window_count w n) = n"
proof -
  assume w: "0 < w"
  have "n + w - 1 = (n + w - 1) div w * w + (n + w - 1) mod w" by simp
  moreover have "(n + w - 1) mod w < w" using w by simp
  ultimately have "n \<le> window_count w n * w" unfolding window_count_def using w by linarith
  then show ?thesis by (simp add: window_end_def)
qed

lemma window_end_before: "r < window_count w n \<Longrightarrow> window_end w n r = r * w \<and> r * w < n"
proof -
  assume r: "r < window_count w n"
  have "Suc r * w \<le> (n + w - 1) div w * w" using r by (intro mult_le_mono1) (simp add: window_count_def)
  also have "\<dots> \<le> n + w - 1" by (rule div_times_less_eq_dividend)
  finally have "r * w + w \<le> n + w - 1" by simp
  moreover have "0 < w" using r by (cases w) (simp_all add: window_count_def)
  ultimately have "r * w < n" by linarith
  then show ?thesis by (simp add: window_end_def)
qed

lemma window_dataI:
  assumes "0 < b" and "length junk \<ge> 0"
  shows "window_data b f (take (b * w) (drop (k * b) f) @ junk) k w"
proof -
  have "i * b + length (file_block b f (k + i)) \<le> length (take (b * w) (drop (k * b) f))"
    if "i < w" "k * b + i * b \<le> length f" for i
  proof -
    have "Suc i * b \<le> w * b" using that by (intro mult_le_mono1) simp
    then have "i * b + b \<le> b * w" by (simp add: mult.commute)
    then have "i * b + length (file_block b f (k + i)) \<le> b * w"
      using length_file_block [of b f "k + i"] by simp
    moreover have "i * b + length (file_block b f (k + i)) \<le> length f - k * b"
      using that(2) length_file_block [of b f "k + i"] by (simp add: add_mult_distrib)
    ultimately show ?thesis by simp
  qed
  moreover have "k * b + i * b \<le> length f" if "k + i < block_count b f" for i
    using block_exists [OF assms(1)] that by (simp add: algebra_simps)
  ultimately show ?thesis using block_in_window unfolding window_data_def by fastforce
qed

text \<open>The acknowledgement of block \<open>k'\<close> in the window after block \<open>k\<close>, also across 65536.\<close>

lemma ack_in_window:
  assumes "k \<le> k'" and "k' \<le> k + w" and "w \<le> 255"
  defines "ack \<equiv> int k' mod BUF_SIZE" and "blk \<equiv> int k mod BUF_SIZE"
  shows "ack \<le> blk + int w \<and> blk \<le> ack \<or> ack \<le> (blk + int w) mod BUF_SIZE \<and> ack < blk"
    and "(if ack < blk then int k div BUF_SIZE + 1 else int k div BUF_SIZE) = int k' div BUF_SIZE"
proof -
  define j where "j = int k' - int k"
  have j: "0 \<le> j" "j \<le> int w" "int k' = int k + j" using assms(1,2) by (simp_all add: j_def)
  have k: "int k = int k div 65536 * 65536 + blk" "0 \<le> blk" "blk < 65536"
    by (simp_all add: blk_def BUF_SIZE_def)
  have sum: "int k' = int k div 65536 * 65536 + (blk + j)" using j(3) k(1) by linarith
  then have d: "int k' div 65536 = int k div 65536 + (blk + j) div 65536" and m: "ack = (blk + j) mod 65536"
    by (simp_all add: ack_def BUF_SIZE_def)
  show "ack \<le> blk + int w \<and> blk \<le> ack \<or> ack \<le> (blk + int w) mod BUF_SIZE \<and> ack < blk"
  proof (cases "blk + j < 65536")
    case True
    then have "ack = blk + j" using m k j by simp
    then show ?thesis using j by simp
  next
    case False
    have "(blk + j - 65536) mod 65536 = blk + j - 65536" "(blk + int w - 65536) mod 65536 = blk + int w - 65536"
      using False k j assms(3) by (intro mod_pos_pos_trivial; simp)+
    then have "ack = blk + j - 65536" "(blk + int w) mod BUF_SIZE = blk + int w - 65536"
      using m by (simp_all add: BUF_SIZE_def)
    then show ?thesis using j k assms(3) by simp
  qed
  show "(if ack < blk then int k div BUF_SIZE + 1 else int k div BUF_SIZE) = int k' div BUF_SIZE"
  proof (cases "blk + j < 65536")
    case True
    then have "ack = blk + j" "(blk + j) div 65536 = 0" using m k j by simp_all
    then show ?thesis using j d by (simp add: BUF_SIZE_def)
  next
    case False
    have "(blk + j - 65536) mod 65536 = blk + j - 65536" "(blk + j - 65536) div 65536 = 0"
      using False k j assms(3) by (intro mod_pos_pos_trivial div_pos_pos_trivial; simp)+
    then have "ack = blk + j - 65536" "(blk + j) div 65536 = 1" using m by simp_all
    then show ?thesis using d k j assms(3) by (simp add: BUF_SIZE_def)
  qed
qed

lemma read_position:
  "0 < b \<Longrightarrow> min (min k (block_count b f) * b) (length f) = min (k * b) (length f)"
proof -
  assume b: "0 < b"
  then have "length f < block_count b f * b" using block_exists [of b "block_count b f" f] by simp
  then show ?thesis
  proof (cases "k \<le> block_count b f")
    case False
    then have "block_count b f * b \<le> k * b" by (intro mult_le_mono1) simp
    with \<open>length f < block_count b f * b\<close> have "length f < k * b" by (rule less_le_trans)
    then show ?thesis using \<open>length f < block_count b f * b\<close> False by (simp add: min_def)
  qed (simp add: min_def)
qed

definition acks :: "address \<Rightarrow> nat \<Rightarrow> nat \<Rightarrow> nat \<Rightarrow> recv_event list" where
  "acks a w n i = map (\<lambda>r. Datagram a (wire (ack_packet (int (window_end w n (Suc r)))))) [i..<window_count w n]"

definition data_sent :: "address \<Rightarrow> nat \<Rightarrow> byte list \<Rightarrow> nat \<Rightarrow> nat \<Rightarrow> (address \<times> byte list) list" where
  "data_sent a b f k n = map (\<lambda>j. (a, wire (data_packet b f j))) [k..<n]"

lemma data_sent_append: "k \<le> k' \<Longrightarrow> k' \<le> n \<Longrightarrow> data_sent a b f k k' @ data_sent a b f k' n = data_sent a b f k n"
  using upt_add_eq_append [of k k' "n - k'"] by (simp add: data_sent_def flip: map_append)

lemma min_plus_rest: "min m l + min (l - min m l) d = min (m + d) (l :: nat)"
  by (simp add: min_def) linarith

lemma send_file_loop_ok:
  assumes r: "reliable e" and b: "0 < b" "b \<le> 65464" and w: "0 < w" "w \<le> 255"
    and fits: "length f + (w + 1) * b < 2147483648"
  defines "n \<equiv> block_count b f"
  defines "R \<equiv> window_count w n"
  shows "\<lbrakk>pending s = None; check_addr s; block_size s = int b; window_size s = int w;
      inbox s = acks (peer s) w n i @ rest; length buffer = b * w; i \<le> R; R - i < fuel\<rbrakk> \<Longrightarrow> \<exists>s'.
    send_file_loop e f (int (length f)) fuel (min (window_end w n i * b) (length f)) buffer
      (int (window_end w n i) div BUF_SIZE) (int (window_end w n i) mod BUF_SIZE) s = Inr (Done (), s') \<and>
    same_session s s' \<and> inbox s' = rest \<and> disk s' = disk s \<and>
    sent s' = sent s @ data_sent (peer s) b f (window_end w n i) n"
proof (induction fuel arbitrary: i s buffer)
  case (Suc fuel)
  define k where "k = window_end w n i"
  define pos where "pos = min (k * b) (length f)"
  define chunk where "chunk = take (nat (int b * int w)) (drop pos f)"
  have chunk: "chunk = take (b * w) (drop pos f)" by (simp add: chunk_def nat_mult_distrib)
  have kn: "k \<le> n" by (simp add: k_def window_end_def)
  then have "(k + w) * b \<le> (length f div b + 1 + w) * b"
    by (intro mult_le_mono1) (simp add: n_def block_count_def)
  also have "\<dots> \<le> length f + (w + 1) * b" by (simp add: algebra_simps)
  finally have fit: "(k + w) * b < 2147483648" using fits by simp
  have drop: "drop pos f = drop (k * b) f" by (simp add: pos_def min_def)
  have data: "window_data b f (chunk @ drop (length chunk) buffer) k w"
    using window_dataI [OF b(1)] by (simp add: chunk drop)
  have id: "int k div BUF_SIZE * BUF_SIZE + int k mod BUF_SIZE = int k" by simp
  obtain s1 where s1: "send_blocks e (chunk @ drop (length chunk) buffer) (int (length f)) (int k div BUF_SIZE) (int k mod BUF_SIZE) s
        = Inr (Done (k < n), s1)"
      "same_session s s1" "inbox s1 = inbox s" "disk s1 = disk s"
      "sent s1 = sent s @ data_sent (peer s) b f k (min (k + w) n)"
    using send_blocks_ok [OF r b id fit data Suc.prems(3,4) w(1)] by (auto simp: n_def data_sent_def)
  have blocks: "tbind (send_blocks e (chunk @ drop (length chunk) buffer) (int (length f)) (int k div BUF_SIZE) (int k mod BUF_SIZE)) K s
      = K (k < n) s1" for K :: "bool \<Rightarrow> unit tact"
    by (rule tbind_Done) (rule s1(1))
  have sizes: "tbind (tget block_size) K s = K (int b) s" "tbind (tget window_size) K s = K (int w) s"
    for K :: "int \<Rightarrow> unit tact" using Suc.prems(3,4) by (simp_all add: tact_simps)
  have start: "send_file_loop e f (int (length f)) (Suc fuel) pos buffer (int k div BUF_SIZE) (int k mod BUF_SIZE) s =
      tbind (send_blocks e (chunk @ drop (length chunk) buffer) (int (length f)) (int k div BUF_SIZE) (int k mod BUF_SIZE)) (\<lambda>more.
        if \<not> more then tret ()
        else
          tbind (recv_ack e False) (\<lambda>ack.
          case ack of
            None \<Rightarrow> terminate e INVALID_CHECKSUM
          | Some ack \<Rightarrow>
              let last_block_id = int k mod BUF_SIZE + int w
              in if (ack \<le> last_block_id \<and> int k mod BUF_SIZE \<le> ack) \<or> (ack \<le> last_block_id mod BUF_SIZE \<and> ack < int k mod BUF_SIZE)
                 then send_file_loop e f (int (length f)) fuel (pos + length chunk) (chunk @ drop (length chunk) buffer)
                        (if ack < int k mod BUF_SIZE then int k div BUF_SIZE + 1 else int k div BUF_SIZE) ack
                 else send_file_loop e f (int (length f)) fuel (pos + length chunk) (chunk @ drop (length chunk) buffer)
                        (int k div BUF_SIZE) (int k mod BUF_SIZE))) s"
    by (simp only: send_file_loop.simps(2) sizes Let_def chunk_def)
  show ?case
  proof (cases "i < R")
    case False
    then have last: "k = n" "acks (peer s) w n i = []"
      using Suc.prems(7) w(1) window_end_last [of w n] by (simp_all add: k_def R_def acks_def)
    have "send_file_loop e f (int (length f)) (Suc fuel) pos buffer
        (int k div BUF_SIZE) (int k mod BUF_SIZE) s = Inr (Done (), s1)"
      by (simp only: start blocks) (simp add: tact_simps last(1))
    then show ?thesis using last s1 Suc.prems
      by (intro exI [of _ s1]) (simp add: k_def pos_def data_sent_def)
  next
    case True
    then have k: "k = i * w" "k < n" using window_end_before [of i w n] by (simp_all add: k_def R_def)
    define k' where "k' = window_end w n (Suc i)"
    have k': "k' = min (k + w) n" by (simp add: k'_def k_def window_end_Suc)
    then have le: "k \<le> k'" "k' \<le> k + w" using k by simp_all
    let ?s = "s1\<lparr>inbox := acks (peer s) w n (Suc i) @ rest\<rparr>"
    have "inbox s1 = Datagram (peer s1) (wire (ack_packet (int k'))) # acks (peer s) w n (Suc i) @ rest"
      using s1(2,3) Suc.prems(5) True by (simp add: acks_def same_session_def k'_def R_def upt_conv_Cons)
    then have ack: "recv_ack e False s1 = Inr (Done (Some (int k' mod BUF_SIZE)), ?s)"
      using recv_ack_ok [OF r] s1(2) Suc.prems(1,2) by (simp add: same_session_def BUF_SIZE_def)
    have acked: "tbind (recv_ack e False) K s1 = K (Some (int k' mod BUF_SIZE)) ?s" for K :: "int option \<Rightarrow> unit tact"
      by (rule tbind_Done) (rule ack)
    have pos: "pos + length chunk = min (k' * b) (length f)"
    proof -
      have "pos + length chunk = min (k * b + b * w) (length f)"
        by (simp add: pos_def chunk min_plus_rest)
      also have "k * b + b * w = (k + w) * b" by (simp add: algebra_simps)
      finally show ?thesis using read_position [OF b(1), of "k + w" f] k' by (simp add: n_def)
    qed
    have go: "send_file_loop e f (int (length f)) (Suc fuel) pos buffer (int k div BUF_SIZE) (int k mod BUF_SIZE) s =
        send_file_loop e f (int (length f)) fuel (min (k' * b) (length f)) (chunk @ drop (length chunk) buffer)
          (int k' div BUF_SIZE) (int k' mod BUF_SIZE) ?s"
      using ack_in_window [OF le w(2)] k(2)
      by (simp only: start blocks acked pos if_True option.case Let_def not_True_eq_False if_False)
    obtain s2 where s2: "send_file_loop e f (int (length f)) fuel (min (k' * b) (length f)) (chunk @ drop (length chunk) buffer)
          (int k' div BUF_SIZE) (int k' mod BUF_SIZE) ?s = Inr (Done (), s2)"
        "same_session ?s s2" "inbox s2 = rest" "disk s2 = disk ?s"
        "sent s2 = sent ?s @ data_sent (peer ?s) b f k' n"
    proof -
      have "R - Suc i < fuel" using Suc.prems(8) True by linarith
      moreover have "pending ?s = None" "check_addr ?s" "block_size ?s = int b" "window_size ?s = int w"
        "inbox ?s = acks (peer ?s) w n (Suc i) @ rest"
        using Suc.prems(1-4) s1(2) by (simp_all add: same_session_def)
      moreover have "length (chunk @ drop (length chunk) buffer) = b * w"
        using Suc.prems(6) by (simp add: chunk)
      ultimately show ?thesis
        using Suc.IH [of ?s "Suc i" "chunk @ drop (length chunk) buffer"] True that
        unfolding k'_def by (auto simp del: length_append)
    qed
    have "same_session s s2" using s1(2) s2(2) by (simp add: same_session_def)
    moreover have "sent s2 = sent s @ data_sent (peer s) b f k n"
      using s2(5) s1(2,5) k' le data_sent_append [of k k' n] by (simp add: same_session_def)
    ultimately show ?thesis using go s2 s1(4)
      by (intro exI [of _ s2]) (simp add: k_def pos_def)
  qed
qed simp

section \<open>A client that reads\<close>

lemma length_acks: "length (acks a w n i) = window_count w n - i"
  by (simp add: acks_def)

lemma send_file_ok:
  assumes r: "reliable e" and s: "pending s = None" "check_addr s" "block_size s = int b" "window_size s = int w"
    and sizes: "0 < b" "b \<le> 65464" "0 < w" "w \<le> 255" and fits: "length f + (w + 1) * b < 2147483648"
    and f: "disk s path = Some f" and junk: "length junk = b * w"
    and i: "inbox s = acks (peer s) w (block_count b f) 0"
  obtains s' where "send_file e path (int (length f)) junk s = Inr (Done (), s')"
    "same_session s s'" "inbox s' = []" "disk s' = disk s"
    "sent s' = sent s @ data_sent (peer s) b f 0 (block_count b f)"
  using send_file_loop_ok [OF r sizes fits s, of 0 "[]" junk "length (inbox s) + 2"] i junk f that
  by (auto simp: send_file_def length_acks window_end_def)

lemma handle_client_done:
  "recv_rq e s = Inr (Done (op, name), s') \<Longrightarrow>
    (if op = load16 RRQ then handle_read e name junk
     else if op = load16 WRQ then handle_write e fuel name
     else terminate e ILLEGAL_OPERATION) s' = Inr (Done (), s'') \<Longrightarrow>
    handle_client e fuel junk s = Inr (Done 0, s'')"
  by (simp add: handle_client_def tbind_Done)

lemma download:
  assumes r: "reliable e" and s: "pending s = Some p" "check_addr s" "sender p = peer s"
    and p: "is_request RRQ name options p" and options: "list_all option_ok options"
    and len: "length (oack_packet options) < 65534"
    and name: "nul_free name" "length name < 100" "length (upload_path name) < 128"
    and sizes: "negotiated options (block_size s, window_size s) = Some (int b, int w)"
      "0 < b" "b \<le> 65464" "0 < w" "w \<le> 255"
    and f: "disk s (upload_path name) = Some f" "length f + (w + 1) * b < 2147483648"
    and junk: "length junk = b * w"
    and i: "inbox s = oack_acked (peer s) RRQ options @ acks (peer s) w (block_count b f) 0"
  shows "\<exists>s'. handle_client e fuel junk s = Inr (Done 0, s') \<and> disk s' = disk s \<and> inbox s' = [] \<and>
    sent s' = sent s @ oack_sent (peer s) options @ data_sent (peer s) b f 0 (block_count b f)"
proof -
  obtain s1 where s1: "recv_rq e s = Inr (Done (load16 RRQ, name), s1)"
    "block_size s1 = int b" "window_size s1 = int w" "inbox s1 = acks (peer s) w (block_count b f) 0"
    "sent s1 = sent s @ oack_sent (peer s) options" "peer s1 = peer s" "check_addr s1" "pending s1 = None"
    "disk s1 = disk s"
    using recv_rq_ok [OF r s p _ name(1,2) options len sizes(1) i] by auto
  obtain s2 where s2: "send_file e (upload_path name) (int (length f)) junk s1 = Inr (Done (), s2)"
    "disk s2 = disk s1" "inbox s2 = []" "sent s2 = sent s1 @ data_sent (peer s1) b f 0 (block_count b f)"
    using send_file_ok [OF r s1(8,7,2,3) sizes(2-5) f(2) _ junk, of "upload_path name"] s1(4,6,9) f(1) by auto
  have "handle_read e name junk s1 = Inr (Done (), s2)"
    using name(3) s1(9) f(1) s2(1) by (simp add: handle_read_def Let_def tact_simps)
  then have "handle_client e fuel junk s = Inr (Done 0, s2)"
    by (intro handle_client_done [OF s1(1)]) simp
  then show ?thesis using s1 s2 by auto
qed

end
