(* ===== verification/Tftp_Upload.thy ===== *)
theory Tftp_Upload
  imports Tftp_Download
begin

text \<open>
  Writing a file: when the blocks of a file arrive in their order, \<open>_recv_file\<close> stores the file and
  acknowledges every window.
\<close>

section \<open>A window\<close>

definition data_events :: "address \<Rightarrow> nat \<Rightarrow> byte list \<Rightarrow> nat \<Rightarrow> nat \<Rightarrow> recv_event list" where
  "data_events a b f k n = map (\<lambda>j. Datagram a (wire (data_packet b f j))) [k..<n]"

definition writes_ok :: "tftp_env \<Rightarrow> bool" where
  "writes_ok e \<longleftrightarrow> (\<forall>k. write_ok e k)"

lemma data_events_step:
  "k < n \<Longrightarrow> data_events a b f k n = Datagram a (wire (data_packet b f k)) # data_events a b f (Suc k) n"
  by (simp add: data_events_def upt_conv_Cons)

lemma take_file_block: "take (Suc k * b) f = take (k * b) f @ file_block b f k"
  by (simp only: mult_Suc add.commute [of b] take_add file_block_def)

lemma last_block:
  assumes "0 < b" and "k < block_count b f"
  shows "length (file_block b f k) < b \<longleftrightarrow> Suc k = block_count b f"
proof -
  have "k * b \<le> length f" using block_exists [OF assms(1)] assms(2) by blast
  moreover have "Suc k < block_count b f \<longleftrightarrow> Suc k * b \<le> length f" by (rule block_exists [OF assms(1)])
  ultimately show ?thesis using assms by (simp add: length_file_block) linarith
qed

lemma recv_window_ok:
  assumes r: "reliable e" "writes_ok e" and b: "0 < b" "b \<le> 65464"
    and n: "block_count b f \<le> 65535"
  shows "\<lbrakk>pending s = None; check_addr s; block_size s = int b; k < block_count b f;
      inbox s = data_events (peer s) b f k (min (k + m) (block_count b f)) @ rest;
      disk s name = Some (take (k * b) f)\<rbrakk> \<Longrightarrow> \<exists>s'.
    recv_window e name m (int k) s
      = Inr (Done (int (min (k + m) (block_count b f)), block_count b f \<le> k + m), s') \<and>
    same_session s s' \<and> inbox s' = rest \<and>
    disk s' = (disk s)(name \<mapsto> take (min (k + m) (block_count b f) * b) f) \<and>
    sent s' = sent s @ (if block_count b f \<le> k + m then [(peer s, wire (ack_packet (int (block_count b f))))] else [])"
proof (induction m arbitrary: k s)
  case 0
  then show ?case
    by (intro exI [of _ s]) (simp add: tact_simps data_events_def fun_upd_idem)
next
  case (Suc m)
  let ?n = "block_count b f" and ?d = "file_block b f k"
  let ?xs = "data_events (peer s) b f (Suc k) (min (Suc k + m) ?n) @ rest"
  have id: "(int k + 1) mod BUF_SIZE = int k + 1" "(int k + 1) mod 65536 = int k + 1"
    using Suc.prems(4) n by (simp_all add: BUF_SIZE_def)
  have "inbox s = Datagram (peer s) (wire (DATA @ block_bytes (int k + 1) @ ?d)) # ?xs"
    using Suc.prems(4,5) by (simp add: data_events_step data_packet_def id)
  moreover have "length ?d < 65530" using b by (simp add: length_file_block)
  ultimately obtain p where p: "recv_data e False s = Inr (Done p, s\<lparr>inbox := ?xs\<rparr>)"
    "pdata p = ?d" "data_len p = int (length ?d)" "block_id p = int k + 1"
    "checksum (word_of_int (data_len p + 6)) 0 (raw p) = Inr 0"
    using recv_data_ok [OF r(1) Suc.prems(1,2)] id(2) by metis
  let ?s = "s\<lparr>inbox := ?xs, writes := Suc (writes s), disk := (disk s)(name \<mapsto> take (Suc k * b) f)\<rparr>"
  have got: "tbind (recv_data e False) K s = K p (s\<lparr>inbox := ?xs\<rparr>)" for K :: "packet \<Rightarrow> (int \<times> bool) tact"
    by (rule tbind_Done) (rule p(1))
  have "write_block e name (take (nat (data_len p)) (pdata p)) (s\<lparr>inbox := ?xs\<rparr>) = Inr (Done (), ?s)"
    using r(2) Suc.prems(6) take_file_block [of k b f]
    by (simp add: write_block_def tact_simps writes_ok_def p(2,3))
  then have wrote: "tbind (write_block e name (take (nat (data_len p)) (pdata p))) K (s\<lparr>inbox := ?xs\<rparr>) = K () ?s"
    for K :: "unit \<Rightarrow> (int \<times> bool) tact" by (rule tbind_Done)
  have small: "int k + 1 \<noteq> BUF_SIZE" using Suc.prems(4) n by (simp add: BUF_SIZE_def)
  have step: "recv_window e name (Suc m) (int k) s =
      (if length ?d < b then tbind (send_ack e (int k + 1)) (\<lambda>_. tret (int k + 1, True))
       else recv_window e name m (int k + 1)) ?s"
  proof -
    have c: "tbind (tlift (checksum (word_of_int (data_len p + 6)) 0 (raw p))) K t = K 0 t"
      for K :: "u16 \<Rightarrow> (int \<times> bool) tact" and t by (simp only: p(5) tbind_basics)
    have size: "tbind (tget block_size) K ?s = K (int b) ?s" for K :: "int \<Rightarrow> (int \<times> bool) tact"
      using Suc.prems(3) by (simp add: tact_simps)
    have "data_len p < int b \<longleftrightarrow> length ?d < b" using p(3) by simp
    then show ?thesis using small
      by (simp only: recv_window.simps(2) got c wrote size p(4) Let_def if_True if_False simp_thms)
  qed
  show ?case
  proof (cases "Suc k = ?n")
    case True
    then have "length ?d < b" using last_block [OF b(1) Suc.prems(4)] by simp
    moreover have "tbind (send_ack e (int k + 1)) K ?s = K () (?s\<lparr>sends := Suc (sends s), last_packet := ack_packet (int k + 1),
        sent := sent s @ [(peer s, wire (ack_packet (int k + 1)))]\<rparr>)" for K :: "unit \<Rightarrow> (int \<times> bool) tact"
      by (rule tbind_Done) (use send_ack_ok [OF r(1), of "int k + 1" ?s] in simp)
    moreover have "ack_packet (1 + int k) = ack_packet (int ?n)" by (simp add: True [symmetric])
    ultimately show ?thesis using step True Suc.prems
      by (intro exI [of _ "?s\<lparr>sends := Suc (sends s), last_packet := ack_packet (int k + 1),
        sent := sent s @ [(peer s, wire (ack_packet (int k + 1)))]\<rparr>"])
        (simp add: tact_simps same_session_def data_events_def add.commute)
  next
    case False
    then have "\<not> length ?d < b" and "Suc k < ?n" using last_block [OF b(1) Suc.prems(4)] Suc.prems(4) by simp_all
    moreover have "int k + 1 = int (Suc k)" by simp
    ultimately have go: "recv_window e name (Suc m) (int k) s = recv_window e name m (int (Suc k)) ?s"
      using step by (simp only: if_False)
    have "pending ?s = None" "check_addr ?s" "block_size ?s = int b" "Suc k < ?n"
      "inbox ?s = data_events (peer ?s) b f (Suc k) (min (Suc k + m) ?n) @ rest"
      "disk ?s name = Some (take (Suc k * b) f)"
      using Suc.prems \<open>Suc k < ?n\<close> by simp_all
    from Suc.IH [OF this] obtain s' where
      "recv_window e name m (int (Suc k)) ?s = Inr (Done (int (min (Suc k + m) ?n), ?n \<le> Suc k + m), s')"
      "same_session ?s s'" "inbox s' = rest" "disk s' = (disk ?s)(name \<mapsto> take (min (Suc k + m) ?n * b) f)"
      "sent s' = sent ?s @ (if ?n \<le> Suc k + m then [(peer ?s, wire (ack_packet (int ?n)))] else [])"
      by blast
    then show ?thesis unfolding go
      by (intro exI [of _ s']) (simp add: same_session_def)
  qed
qed

section \<open>A file\<close>

definition acks_sent :: "address \<Rightarrow> nat \<Rightarrow> nat \<Rightarrow> nat \<Rightarrow> (address \<times> byte list) list" where
  "acks_sent a w n i = map (\<lambda>r. (a, wire (ack_packet (int (window_end w n (Suc r)))))) [i..<window_count w n]"

lemma window_last: "0 < w \<Longrightarrow> i < window_count w n \<Longrightarrow> n \<le> window_end w n i + w \<longleftrightarrow> Suc i = window_count w n"
proof
  assume w: "0 < w" and i: "i < window_count w n"
  { assume "n \<le> window_end w n i + w"
    then have "window_end w n (Suc i) = n" by (simp add: window_end_Suc)
    then have "\<not> Suc i < window_count w n" using window_end_before [of "Suc i" w n] by auto
    then show "Suc i = window_count w n" using i by simp }
  { assume "Suc i = window_count w n"
    then have "window_end w n (Suc i) = n" using window_end_last [OF w, of n] by simp
    then show "n \<le> window_end w n i + w" by (simp add: window_end_Suc min_def split: if_splits) }
qed

lemma data_events_append:
  "k \<le> k' \<Longrightarrow> k' \<le> n \<Longrightarrow> data_events a b f k n = data_events a b f k k' @ data_events a b f k' n"
  using upt_add_eq_append [of k k' "n - k'"] by (simp add: data_events_def flip: map_append)

lemma recv_file_loop_ok:
  assumes r: "reliable e" "writes_ok e" and b: "0 < b" "b \<le> 65464" and w: "0 < w"
    and n: "block_count b f \<le> 65535"
  defines "n \<equiv> block_count b f"
  defines "R \<equiv> window_count w n"
  shows "\<lbrakk>pending s = None; check_addr s; block_size s = int b; window_size s = int w;
      inbox s = data_events (peer s) b f (window_end w n i) n @ rest;
      disk s name = Some (take (window_end w n i * b) f); i < R; R - i \<le> fuel\<rbrakk> \<Longrightarrow> \<exists>s'.
    recv_file_loop e name fuel (int (window_end w n i)) s = Inr (Done (), s') \<and>
    same_session s s' \<and> inbox s' = rest \<and> disk s' = (disk s)(name \<mapsto> f) \<and>
    sent s' = sent s @ acks_sent (peer s) w n i"
proof (induction fuel arbitrary: i s)
  case (Suc fuel)
  define k where "k = window_end w n i"
  define k' where "k' = window_end w n (Suc i)"
  have k': "k' = min (k + w) n" by (simp add: k_def k'_def window_end_Suc)
  have k: "k < n" using window_end_before [of i w n] Suc.prems(7) by (simp add: k_def R_def)
  have last: "n \<le> k + w \<longleftrightarrow> Suc i = R" using window_last [OF w] Suc.prems(7) by (simp add: k_def R_def)
  have "inbox s = data_events (peer s) b f k k' @ data_events (peer s) b f k' n @ rest"
    using Suc.prems(5) data_events_append [of k k' n] k k' by (simp add: k_def)
  then obtain s1 where s1: "recv_window e name w (int k) s = Inr (Done (int k', n \<le> k + w), s1)"
    "same_session s s1" "inbox s1 = data_events (peer s) b f k' n @ rest"
    "disk s1 = (disk s)(name \<mapsto> take (k' * b) f)"
    "sent s1 = sent s @ (if n \<le> k + w then [(peer s, wire (ack_packet (int n)))] else [])"
    using recv_window_ok [OF r b, of f s k w "data_events (peer s) b f k' n @ rest" name] Suc.prems k n
    unfolding k' by (auto simp: n_def k_def)
  have window: "tbind (recv_window e name w (int k)) K s = K (int k', n \<le> k + w) s1"
    for K :: "int \<times> bool \<Rightarrow> unit tact" by (rule tbind_Done) (rule s1(1))
  have size: "tbind (tget window_size) K s = K (int w) s" for K :: "int \<Rightarrow> unit tact"
    using Suc.prems(4) by (simp add: tact_simps)
  have not_lost: "int k' \<noteq> -1" by simp
  have start: "recv_file_loop e name (Suc fuel) (int k) s =
      (if n \<le> k + w then tret ()
       else tbind (send_ack e (int k')) (\<lambda>_. recv_file_loop e name fuel (int k'))) s1"
    by (simp only: recv_file_loop.simps size nat_int window prod.case not_lost if_False)
  show ?case
  proof (cases "Suc i = R")
    case True
    then have "k' = n" using last k' by simp
    moreover from this have "take (k' * b) f = f"
      using block_exists [OF b(1), of n f] by (simp add: n_def)
    moreover have "acks_sent (peer s) w n i = [(peer s, wire (ack_packet (int k')))]"
      using True by (simp add: acks_sent_def k'_def R_def [symmetric] True [symmetric])
    ultimately show ?thesis using start s1 True last
      by (intro exI [of _ s1]) (simp add: k_def [symmetric] tact_simps data_events_def)
  next
    case False
    let ?s = "s1\<lparr>sends := Suc (sends s1), last_packet := ack_packet (int k'),
      sent := sent s1 @ [(peer s1, wire (ack_packet (int k')))]\<rparr>"
    have acked: "tbind (send_ack e (int k')) K s1 = K () ?s" for K :: "unit \<Rightarrow> unit tact"
      by (rule tbind_Done) (rule send_ack_ok [OF r(1)])
    have fin: "recv_file_loop e name (Suc fuel) (int k) s = recv_file_loop e name fuel (int k') ?s"
      using start False last by (simp add: acked)
    have "pending ?s = None" "check_addr ?s" "block_size ?s = int b" "window_size ?s = int w"
      "inbox ?s = data_events (peer ?s) b f k' n @ rest" "disk ?s name = Some (take (k' * b) f)"
      "Suc i < R" "R - Suc i \<le> fuel"
      using Suc.prems s1(2-4) False by (simp_all add: same_session_def)
    from Suc.IH [of ?s "Suc i", folded k'_def, OF this] obtain s2 where
      s2: "recv_file_loop e name fuel (int k') ?s = Inr (Done (), s2)" "same_session ?s s2" "inbox s2 = rest"
        "disk s2 = (disk ?s)(name \<mapsto> f)" "sent s2 = sent ?s @ acks_sent (peer ?s) w n (Suc i)"
      by blast
    have "acks_sent (peer s) w n i = (peer s, wire (ack_packet (int k'))) # acks_sent (peer s) w n (Suc i)"
      using Suc.prems(7) by (simp add: acks_sent_def k'_def R_def upt_conv_Cons)
    then show ?thesis using fin s1 s2 False last
      by (intro exI [of _ s2]) (simp add: k_def [symmetric] same_session_def)
  qed
qed simp

section \<open>A client that writes\<close>

lemma upload:
  assumes r: "reliable e" "writes_ok e" "fopen_ok e (upload_path name)"
    and s: "pending s = Some p" "check_addr s" "sender p = peer s" "allow_upload s"
    and p: "is_request WRQ name options p" and options: "list_all option_ok options"
    and len: "length (oack_packet options) < 65534"
    and name: "nul_free name" "length name < 100"
    and sizes: "negotiated options (block_size s, window_size s) = Some (int b, int w)"
      "0 < b" "b \<le> 65464" "0 < w"
    and f: "disk s (upload_path name) = None" "block_count b f \<le> 65535"
    and i: "inbox s = data_events (peer s) b f 0 (block_count b f)"
    and fuel: "window_count w (block_count b f) \<le> fuel"
  shows "\<exists>s'. handle_client e fuel junk s = Inr (Done 0, s') \<and> disk s' = (disk s)(upload_path name \<mapsto> f) \<and>
    sent s' = sent s @ oack_sent (peer s) options @
      (peer s, wire (ack_packet 0)) # acks_sent (peer s) w (block_count b f) 0"
proof -
  let ?n = "block_count b f" and ?path = "upload_path name"
  obtain s1 where s1: "recv_rq e s = Inr (Done (load16 WRQ, name), s1)"
    "block_size s1 = int b" "window_size s1 = int w" "inbox s1 = data_events (peer s) b f 0 ?n"
    "sent s1 = sent s @ oack_sent (peer s) options" "peer s1 = peer s" "check_addr s1" "pending s1 = None"
    "disk s1 = disk s" "allow_upload s1"
    using recv_rq_ok [OF r(1) s(1-3) p _ name options len sizes(1), of "inbox s"] i s(4)
    by (auto simp: oack_acked_def)
  let ?s2 = "s1\<lparr>sends := Suc (sends s1), last_packet := ack_packet 0,
    sent := sent s1 @ [(peer s1, wire (ack_packet 0))]\<rparr>"
  let ?s3 = "?s2\<lparr>disk := (disk s1)(?path \<mapsto> [])\<rparr>"
  have "0 < window_count w ?n"
    using sizes(4) by (simp add: window_count_def block_count_def div_greater_zero_iff)
  moreover have "window_end w ?n 0 = 0" by (simp add: window_end_def)
  ultimately obtain s4 where s4: "recv_file_loop e ?path fuel 0 ?s3 = Inr (Done (), s4)"
    "disk s4 = (disk ?s3)(?path \<mapsto> f)" "sent s4 = sent ?s3 @ acks_sent (peer ?s3) w ?n 0"
    using recv_file_loop_ok [OF r(1,2) sizes(2,3,4) f(2), of ?s3 0 "[]" ?path fuel] s1 fuel by auto
  have length: "length ?path < 1024" using name(2) by (simp add: upload_path_def UPLOAD_DIR_def)
  have ack: "tbind (send_ack e 0) K s1 = K () ?s2" for K :: "unit \<Rightarrow> unit tact"
    by (rule tbind_Done) (rule send_ack_ok [OF r(1)])
  have "handle_write e fuel name s1 = Inr (Done (), s4)"
    using length s1(9,10) f(1) r(3) s4(1)
    by (simp add: handle_write_def recv_file_def Let_def tact_simps ack)
  moreover have "load16 WRQ \<noteq> load16 RRQ" by (simp add: WRQ_def RRQ_def load16_def)
  ultimately have "handle_client e fuel junk s = Inr (Done 0, s4)"
    by (intro handle_client_done [OF s1(1)]) simp
  then show ?thesis using s1 s4 by auto
qed

end
