(* ===== verification/Tftp_Frame.thy ===== *)
theory Tftp_Frame
  imports Tftp_Transfer
begin

text \<open>
  What the actions of a handler leave alone, whatever arrives and whatever fails. The contract is a
  relation of the states before and after, reflexive and transitive, that the single updates keep; a
  locale lifts it to every function of the handler.
\<close>

section \<open>Relations kept by actions\<close>

definition obeys :: "(tftp \<Rightarrow> tftp \<Rightarrow> bool) \<Rightarrow> 'a tact \<Rightarrow> bool" where
  "obeys rel m \<longleftrightarrow> (\<forall>s r s'. m s = Inr (r, s') \<longrightarrow> rel s s')"

lemma obeysD: "obeys rel m \<Longrightarrow> m s = Inr (r, s') \<Longrightarrow> rel s s'"
  by (simp add: obeys_def)

named_theorems obeys_intros \<open>actions that keep a relation\<close>

lemma obeys_branches [obeys_intros]:
  "(c \<Longrightarrow> obeys rel m) \<Longrightarrow> (\<not> c \<Longrightarrow> obeys rel m') \<Longrightarrow> obeys rel (if c then m else m')"
  "(x = None \<Longrightarrow> obeys rel m) \<Longrightarrow> (\<And>a. x = Some a \<Longrightarrow> obeys rel (n a)) \<Longrightarrow>
     obeys rel (case x of None \<Rightarrow> m | Some a \<Rightarrow> n a)"
  "(\<And>a b. obeys rel (f a b)) \<Longrightarrow> obeys rel (case q of (a, b) \<Rightarrow> f a b)"
  "obeys rel (h v) \<Longrightarrow> obeys rel (Let v h)"
  by (simp_all split: option.split prod.split)

lemma obeys_events [obeys_intros]:
  "obeys rel m1 \<Longrightarrow> obeys rel m2 \<Longrightarrow> (\<And>a bs. obeys rel (m3 a bs)) \<Longrightarrow>
     obeys rel (case v of Timeout \<Rightarrow> m1 | Recv_Error \<Rightarrow> m2 | Datagram a bs \<Rightarrow> m3 a bs)"
  "obeys rel n1 \<Longrightarrow> obeys rel n2 \<Longrightarrow> obeys rel n3 \<Longrightarrow>
     obeys rel (case k of Sent \<Rightarrow> n1 | Again \<Rightarrow> n2 | Broken \<Rightarrow> n3)"
  by (simp_all split: recv_event.split send_result.split)

locale tact_frame =
  fixes rel :: "tftp \<Rightarrow> tftp \<Rightarrow> bool"
  assumes rel_refl: "rel s s"
    and rel_trans: "rel s t \<Longrightarrow> rel t u \<Longrightarrow> rel s u"
begin

lemma obeys_basic [obeys_intros]:
  "obeys rel (tret x)" "obeys rel (tget f)" "obeys rel (tlift z)" "obeys rel (tstop y)"
  by (auto simp: obeys_def tret_def tget_def tlift_def tstop_def and_then_def rel_refl split: sum.splits)

lemma obeys_tput: "(\<And>s. rel s (f s)) \<Longrightarrow> obeys rel (tput f)"
  by (simp add: obeys_def tput_def)

lemma obeys_tbind [obeys_intros]:
  assumes "obeys rel m" and "\<And>x. obeys rel (k x)"
  shows "obeys rel (tbind m k)"
  unfolding obeys_def
proof (intro allI impI)
  fix s r s'
  assume "tbind m k s = Inr (r, s')"
  then obtain q s1 where m: "m s = Inr (q, s1)"
    and k: "(case q of Done x \<Rightarrow> k x s1 | Jumped \<Rightarrow> Inr (Jumped, s1) | Waiting \<Rightarrow> Inr (Waiting, s1)
      | No_Fuel \<Rightarrow> Inr (No_Fuel, s1)) = Inr (r, s')"
    by (auto simp: tbind_def and_then_def split: sum.splits)
  have "rel s s1" using assms(1) m by (rule obeysD)
  moreover have "rel s1 s'"
    using k assms(2) by (cases q) (auto simp: rel_refl intro: obeysD)
  ultimately show "rel s s'" by (rule rel_trans)
qed

end

section \<open>Sending\<close>

locale send_frame = tact_frame +
  assumes rel_sends: "rel s (s\<lparr>sends := n\<rparr>)"
    and rel_last: "rel s (s\<lparr>last_packet := lp\<rparr>)"
    and rel_sent: "checksum (of_nat (length bs)) (int (length bs mod 2)) bs = Inr c \<Longrightarrow>
      rel s (s\<lparr>sent := sent s @ [(a, checksummed c bs)]\<rparr>)"
    and rel_closes: "rel s (s\<lparr>closes := n\<rparr>)"
begin

lemma obeys_send_updates [obeys_intros]:
  "obeys rel (tput (sends_update Suc))" "obeys rel (tput (closes_update Suc))"
  "obeys rel (tput (\<lambda>s. s\<lparr>last_packet := lp\<rparr>))"
proof -
  have sends: "rel s (sends_update Suc s)" for s using rel_sends [of s "Suc (sends s)"] by (cases s) simp
  have closes: "rel s (closes_update Suc s)" for s using rel_closes [of s "Suc (closes s)"] by (cases s) simp
  show "obeys rel (tput (sends_update Suc))" "obeys rel (tput (closes_update Suc))"
    "obeys rel (tput (\<lambda>s. s\<lparr>last_packet := lp\<rparr>))"
    by (rule obeys_tput sends closes rel_last)+
qed

text \<open>What is sent is data behind its checksum.\<close>

lemma obeys_sent:
  assumes "checksum (of_nat (length bs)) (int (length bs mod 2)) bs = Inr c"
  shows "obeys rel (tput (sent_update (\<lambda>xs. xs @ [(a, checksummed c bs)])))"
proof -
  have "rel s (sent_update (\<lambda>xs. xs @ [(a, checksummed c bs)]) s)" for s
    using rel_sent [OF assms, of s a] by (cases s) simp
  then show ?thesis by (rule obeys_tput)
qed

lemma obeys_send_loop:
  assumes "checksum (of_nat (length bs)) (int (length bs mod 2)) bs = Inr c"
  shows "obeys rel (send_loop e addr (checksummed c bs) n)"
proof (induction n)
  case (Suc n)
  show ?case unfolding send_loop.simps by (intro obeys_intros obeys_sent [OF assms] Suc)
qed (simp add: obeys_intros)

lemma obeys_send [obeys_intros]: "obeys rel (send e data addr)"
proof (cases "checksum (of_nat (length data)) (int (length data mod 2)) data")
  case (Inl z)
  then show ?thesis by (simp add: obeys_def send_def Let_def tbind_def tget_def tlift_def)
next
  case (Inr c)
  have ok: "tbind (tlift (Inr c)) k = k c" for k :: "u16 \<Rightarrow> unit tact"
    by (rule ext) (simp add: tbind_def tlift_def)
  show ?thesis unfolding send_def Inr ok by (intro obeys_intros obeys_send_loop [OF Inr])
qed

lemma obeys_sends [obeys_intros]:
  "obeys rel (resend_last_packet e)" "obeys rel (send_err e code message addr)"
  "obeys rel (send_ack e n)" "obeys rel (send_data e data n)" "obeys rel (send_oack e options)"
  unfolding resend_last_packet_def send_err_def send_ack_def send_data_def send_oack_def
  by (intro obeys_intros)+

lemma obeys_errors [obeys_intros]:
  "obeys rel (error_occurred e code message addr)" "obeys rel (terminate e code)" "obeys rel (check_error e p opcodes)"
proof -
  show occurred: "obeys rel (error_occurred e code message addr)" for code message addr
    unfolding error_occurred_def by (intro obeys_intros)
  then show terminate: "obeys rel (terminate e code)" for code
    unfolding terminate_def by (intro obeys_intros)
  then show "obeys rel (check_error e p opcodes)"
    unfolding check_error_def by (intro obeys_intros)
qed

end

section \<open>Everything but the disk\<close>

locale net_frame = send_frame +
  assumes rel_inbox: "rel s (s\<lparr>inbox := drop n (inbox s)\<rparr>)"
    and rel_pending: "rel s (s\<lparr>pending := None\<rparr>)"
    and rel_peer: "rel s (s\<lparr>peer := a, check_addr := True\<rparr>)"
    and rel_block: "rel s (s\<lparr>block_size := b\<rparr>)"
    and rel_window: "rel s (s\<lparr>window_size := b\<rparr>)"
begin

lemma obeys_net_updates [obeys_intros]:
  "obeys rel (tput (\<lambda>s. s\<lparr>pending := None\<rparr>))" "obeys rel (tput (\<lambda>s. s\<lparr>peer := a, check_addr := True\<rparr>))"
  "obeys rel (tput (\<lambda>s. s\<lparr>block_size := b\<rparr>))" "obeys rel (tput (\<lambda>s. s\<lparr>window_size := w\<rparr>))"
  by (rule obeys_tput rel_pending rel_peer rel_block rel_window)+

lemma obeys_next_event [obeys_intros]: "obeys rel next_event"
proof -
  have "rel s (s\<lparr>inbox := xs\<rparr>)" if "inbox s = x # xs" for s x xs
    using rel_inbox [of s 1] that by simp
  then show ?thesis
    by (auto simp: obeys_def next_event_def rel_refl split: list.splits)
qed

lemma obeys_recv_attempts [obeys_intros]: "obeys rel (recv_attempts e n)"
  by (induction n) (unfold recv_attempts.simps, (intro obeys_intros; simp)+)

lemma obeys_recv_packet_buffer [obeys_intros]: "obeys rel (recv_packet_buffer e t)"
  unfolding recv_packet_buffer_def by (intro obeys_intros)

lemma obeys_recv_packet_loop [obeys_intros]: "obeys rel (recv_packet_loop e opcodes n t fuel)"
  by (induction fuel) (unfold recv_packet_loop.simps, (intro obeys_intros; simp)+)

lemma obeys_recv [obeys_intros]:
  "obeys rel (recv_packet_mul e opcodes n t)" "obeys rel (recv_packet e op n t)"
  "obeys rel (recv_ack e t)" "obeys rel (recv_data e t)"
proof -
  show mul: "obeys rel (recv_packet_mul e opcodes n t)" for opcodes n t
    using obeys_recv_packet_loop unfolding recv_packet_mul_def obeys_def by blast
  then show packet: "obeys rel (recv_packet e op n t)" for op n t by (simp add: recv_packet_def)
  then show "obeys rel (recv_ack e t)" "obeys rel (recv_data e t)"
    unfolding recv_ack_def recv_data_def by (intro obeys_intros; simp)+
qed

lemma obeys_map_options [obeys_intros]: "obeys rel (map_options e options)"
  by (induction options) (auto intro!: obeys_intros)

lemma obeys_recv_rq [obeys_intros]: "obeys rel (recv_rq e)"
  unfolding recv_rq_def by (intro obeys_intros)

lemma obeys_send_blocks_loop [obeys_intros]: "obeys rel (send_blocks_loop e buffer len outer inner i n)"
  by (induction n arbitrary: i) (unfold send_blocks_loop.simps, (intro obeys_intros; simp)+)

lemma obeys_send_blocks [obeys_intros]: "obeys rel (send_blocks e buffer len outer inner)"
  unfolding send_blocks_def by (intro obeys_intros)

lemma obeys_send_file_loop [obeys_intros]: "obeys rel (send_file_loop e content len fuel pos buffer outer inner)"
  by (induction fuel arbitrary: pos buffer outer inner) (unfold send_file_loop.simps, (intro obeys_intros; simp)+)

lemma obeys_send_file [obeys_intros]: "obeys rel (send_file e name len junk)"
  using obeysD [OF obeys_send_file_loop]
  by (auto simp: send_file_def obeys_def split: option.splits)

lemma obeys_handle_read [obeys_intros]: "obeys rel (handle_read e name junk)"
  unfolding handle_read_def by (intro obeys_intros)

end

section \<open>One file\<close>

locale write_frame = net_frame +
  fixes path :: string
  assumes rel_writes: "rel s (s\<lparr>writes := n\<rparr>)"
    and rel_disk: "rel s (s\<lparr>disk := (disk s)(path := c)\<rparr>)"
begin

lemma obeys_disk_updates [obeys_intros]:
  "obeys rel (tput (writes_update Suc))"
  "obeys rel (tput (\<lambda>s. s\<lparr>disk := (disk s)(path := c s)\<rparr>))"
proof -
  have writes: "rel s (writes_update Suc s)" for s using rel_writes [of s "Suc (writes s)"] by (cases s) simp
  show "obeys rel (tput (writes_update Suc))" "obeys rel (tput (\<lambda>s. s\<lparr>disk := (disk s)(path := c s)\<rparr>))"
    by (rule obeys_tput writes rel_disk)+
qed

lemma obeys_write_block [obeys_intros]: "obeys rel (write_block e path bytes)"
  unfolding write_block_def by (intro obeys_intros)

lemma obeys_recv_window [obeys_intros]: "obeys rel (recv_window e path n last_id)"
  by (induction n arbitrary: last_id) (unfold recv_window.simps, (intro obeys_intros; simp)+)

lemma obeys_recv_file_loop [obeys_intros]: "obeys rel (recv_file_loop e path fuel last_id)"
  by (induction fuel arbitrary: last_id) (unfold recv_file_loop.simps, (intro obeys_intros; simp)+)

lemma obeys_recv_file [obeys_intros]: "obeys rel (recv_file e fuel path)"
  unfolding recv_file_def by (intro obeys_intros)

end

end
