(* ===== verification/Tftp_Safety.thy ===== *)
theory Tftp_Safety
  imports Tftp_Frame Tftp_Correct "HOL-Library.Sublist"
begin

text \<open>
  What a handler never does, whatever arrives and whatever fails: it does not change or remove a file
  that was there before, and what it writes is made of blocks whose checksum is right, in their order.
\<close>

section \<open>Files that exist\<close>

definition same_disk :: "tftp \<Rightarrow> tftp \<Rightarrow> bool" where
  "same_disk s s' \<longleftrightarrow> disk s' = disk s \<and> allow_upload s' = allow_upload s"

definition same_other_files :: "string \<Rightarrow> tftp \<Rightarrow> tftp \<Rightarrow> bool" where
  "same_other_files path s s' \<longleftrightarrow> (\<forall>p. p \<noteq> path \<longrightarrow> disk s' p = disk s p) \<and> allow_upload s' = allow_upload s"

interpretation disk_kept: net_frame same_disk
  by unfold_locales (simp_all add: same_disk_def)

interpretation other_files: write_frame "same_other_files path" path
  by unfold_locales (simp_all add: same_other_files_def)

lemma tbind_cases:
  assumes "tbind m k s = Inr (r, s')"
  obtains x s1 where "m s = Inr (Done x, s1)" "k x s1 = Inr (r, s')"
  | q where "m s = Inr (q, s')" "\<And>x. q \<noteq> Done x" "\<And>y. r \<noteq> Done y" "r = No_Fuel \<Longrightarrow> q = No_Fuel"
  using assms by (auto simp: tbind_def and_then_def split: sum.splits outcome.splits)

text \<open>The values an action can return.\<close>

definition yields :: "'a tact \<Rightarrow> ('a \<Rightarrow> bool) \<Rightarrow> bool" where
  "yields m Q \<longleftrightarrow> (\<forall>s x s'. m s = Inr (Done x, s') \<longrightarrow> Q x)"

lemma yields_tret: "Q x \<Longrightarrow> yields (tret x) Q"
  by (simp add: yields_def tret_def)

lemma yields_tbind: "(\<And>x. yields (k x) Q) \<Longrightarrow> yields (tbind m k) Q"
  unfolding yields_def by (blast elim: tbind_cases)

lemma yields_fault: "yields (tlift (Inl z)) Q"
  by (simp add: yields_def tlift_def)

lemma yields_terminate: "yields (terminate e code) Q"
  unfolding terminate_def by (intro yields_tbind) (simp add: yields_def tstop_def)

lemma terminate_not_Done: "terminate e code s \<noteq> Inr (Done (x :: 'a), s')"
  using yields_terminate [of e code "\<lambda>_ :: 'a. False"] unfolding yields_def by blast

definition disk_safe :: "tftp \<Rightarrow> tftp \<Rightarrow> bool" where
  "disk_safe s s' \<longleftrightarrow> (\<forall>p c. disk s p = Some c \<longrightarrow> disk s' p = Some c) \<and> (\<not> allow_upload s \<longrightarrow> disk s' = disk s)"

lemma disk_safe_trans: "same_disk s t \<Longrightarrow> disk_safe t u \<Longrightarrow> disk_safe s u"
  by (simp add: same_disk_def disk_safe_def)

lemma same_disk_safe: "same_disk s s' \<Longrightarrow> disk_safe s s'"
  by (simp add: same_disk_def disk_safe_def)

lemma handle_write_refused:
  assumes "handle_write e fuel name s = Inr (r, s')"
    and "\<not> (allow_upload s \<and> length (upload_path name) < 1024 \<and> disk s (upload_path name) = None)"
  shows "same_disk s s'"
proof (cases "allow_upload s")
  case True
  then have "\<not> (length (upload_path name) < 1024 \<and> disk s (upload_path name) = None)" using assms(2) by simp
  then show ?thesis using assms(1) True
    by (cases "length (upload_path name) < 1024")
      (auto simp: handle_write_def tact_simps Let_def terminate_not_Done elim!: tbind_cases
        dest: obeysD [OF disk_kept.obeys_errors(2)])
next
  case False
  then show ?thesis using assms(1)
    by (auto simp: handle_write_def tact_simps Let_def terminate_not_Done elim!: tbind_cases
        dest: obeysD [OF disk_kept.obeys_errors(2)])
qed

lemma handle_write_safe:
  assumes "handle_write e fuel name s = Inr (r, s')"
  shows "disk_safe s s'"
proof (cases "allow_upload s \<and> length (upload_path name) < 1024 \<and> disk s (upload_path name) = None")
  case True
  then have run: "tbind (send_ack e 0) (\<lambda>_. recv_file e fuel (upload_path name)) s = Inr (r, s')"
    using assms by (simp add: handle_write_def tact_simps Let_def)
  then have "\<exists>s1. same_disk s s1 \<and> same_other_files (upload_path name) s1 s'"
  proof (cases rule: tbind_cases)
    case (1 x s1)
    then show ?thesis
      using obeysD [OF disk_kept.obeys_sends(3)] obeysD [OF other_files.obeys_recv_file] by blast
  next
    case (2 q)
    then show ?thesis
      using obeysD [OF disk_kept.obeys_sends(3) 2(1)] by (intro exI [of _ s']) (simp add: same_other_files_def)
  qed
  then obtain s1 where s1: "same_disk s s1" "same_other_files (upload_path name) s1 s'" by blast
  have "disk s' p = Some c" if "disk s p = Some c" for p c
  proof -
    have "p \<noteq> upload_path name" using True that by auto
    then show ?thesis using s1 that by (simp add: same_disk_def same_other_files_def)
  qed
  then show ?thesis using True by (simp add: disk_safe_def)
next
  case False
  then show ?thesis using handle_write_refused [OF assms] same_disk_safe by blast
qed

lemma handle_client_safe:
  assumes "handle_client e fuel junk s = Inr (r, s')"
  shows "disk_safe s s'"
proof -
  obtain q where "tbind (recv_rq e) (\<lambda>(op, file_name).
      if op = load16 RRQ then handle_read e file_name junk
      else if op = load16 WRQ then handle_write e fuel file_name
      else terminate e ILLEGAL_OPERATION) s = Inr (q, s')"
    using assms by (auto simp: handle_client_def and_then_def split: sum.splits outcome.splits)
  then show ?thesis
  proof (cases rule: tbind_cases)
    case (1 x s1)
    then have "same_disk s s1" by (auto intro: obeysD [OF disk_kept.obeys_recv_rq])
    moreover have "disk_safe s1 s'" using 1(2)
      by (auto split: prod.splits if_splits intro: handle_write_safe
          same_disk_safe [OF obeysD [OF disk_kept.obeys_handle_read]]
          same_disk_safe [OF obeysD [OF disk_kept.obeys_errors(2)]])
    ultimately show ?thesis by (rule disk_safe_trans)
  next
    case (2 q)
    then show ?thesis by (auto intro: same_disk_safe obeysD [OF disk_kept.obeys_recv_rq])
  qed
qed

section \<open>What is written\<close>

text \<open>What a datagram says, as it is read into the buffer of 65536 bytes.\<close>

definition block_number :: "byte list \<Rightarrow> int" where
  "block_number bs = uint (ntohs (load16 (drop 4 bs)))"

definition verified :: "byte list \<Rightarrow> bool" where
  "verified bs \<longleftrightarrow> checksum (of_nat (length bs)) 0 bs = Inr 0"

definition arrived :: "recv_event list \<Rightarrow> byte list list" where
  "arrived xs = concat (map (\<lambda>x. case x of Datagram a bs \<Rightarrow> [take 65536 bs] | _ \<Rightarrow> []) xs)"

lemma arrived_append [simp]: "arrived (xs @ ys) = arrived xs @ arrived ys"
  by (simp add: arrived_def)

lemma arrived_Cons [simp]:
  "arrived (Timeout # xs) = arrived xs" "arrived (Recv_Error # xs) = arrived xs"
  "arrived (Datagram a bs # xs) = take 65536 bs # arrived xs" "arrived [] = []"
  by (simp_all add: arrived_def)

definition same_queue :: "tftp \<Rightarrow> tftp \<Rightarrow> bool" where
  "same_queue s s' \<longleftrightarrow> inbox s' = inbox s \<and> pending s' = pending s \<and> disk s' = disk s"

interpretation queue_kept: send_frame same_queue
  by unfold_locales (simp_all add: same_queue_def)

text \<open>The next packet from the socket is the last datagram that was taken.\<close>

definition next_packet :: "tftp \<Rightarrow> packet option outcome \<Rightarrow> tftp \<Rightarrow> bool" where
  "next_packet s r s' \<longleftrightarrow> pending s' = None \<and> disk s' = disk s \<and>
     (\<exists>xs. inbox s = xs @ inbox s' \<and>
       (\<forall>p. r = Done (Some p) \<longrightarrow> (\<exists>ys bs. arrived xs = ys @ [bs] \<and> raw p = bs \<and> pdata p = drop 4 bs
          \<and> data_len p = int (length bs) - 4)))"

lemma next_packet_quiet:
  "pending s = None \<Longrightarrow> same_queue s s1 \<Longrightarrow> next_packet s1 r s' \<Longrightarrow> next_packet s r s'"
  by (simp add: next_packet_def same_queue_def)

lemma next_packet_end:
  "next_packet s q s1 \<Longrightarrow> same_queue s1 s' \<Longrightarrow> (\<And>p. r = Done (Some p) \<Longrightarrow> q = r) \<Longrightarrow> next_packet s r s'"
  unfolding next_packet_def same_queue_def by metis

lemma next_packet_skip: "next_packet s q s1 \<Longrightarrow> next_packet s1 r s' \<Longrightarrow> next_packet s r s'"
proof -
  assume "next_packet s q s1" and n: "next_packet s1 r s'"
  then obtain xs where "inbox s = xs @ inbox s1" "disk s1 = disk s" by (auto simp: next_packet_def)
  moreover obtain ys where "inbox s1 = ys @ inbox s'"
    "\<forall>p. r = Done (Some p) \<longrightarrow> (\<exists>zs bs. arrived ys = zs @ [bs] \<and> raw p = bs \<and> pdata p = drop 4 bs
          \<and> data_len p = int (length bs) - 4)" using n by (auto simp: next_packet_def)
  moreover have "arrived (xs @ ys) = (arrived xs @ zs) @ [bs]" if "arrived ys = zs @ [bs]" for zs bs using that by simp
  ultimately show ?thesis using n unfolding next_packet_def
    by (intro conjI exI [of _ "xs @ ys"]) (simp_all, metis append_assoc)
qed

lemma next_packet_event:
  assumes "recv_packet_buffer e False s = Inr (r, s')" and "pending s = None"
  shows "next_packet s r s'"
proof (cases "inbox s")
  case Nil
  then show ?thesis using assms
    by (simp add: recv_packet_buffer_def tact_simps next_event_def tbind_def next_packet_def)
next
  case (Cons x xs)
  have run: "recv_packet_buffer e False s = (case x of
      Datagram a bs \<Rightarrow> tbind (tlift (read_datagram e a bs)) (\<lambda>p. tret (Some p)) | _ \<Rightarrow> tret None) (s\<lparr>inbox := xs\<rparr>)"
  proof -
    have "tbind next_event K s = K x (s\<lparr>inbox := xs\<rparr>)" for K :: "recv_event \<Rightarrow> packet option tact"
      using Cons by (intro tbind_Done) (simp add: next_event_def)
    then show ?thesis using assms(2) by (simp add: recv_packet_buffer_def tact_simps)
  qed
  show ?thesis
  proof (cases x)
    case (Datagram a bs)
    then show ?thesis using assms run Cons
      by (auto simp: tbind_def tlift_def tret_def read_datagram_def Let_def next_packet_def and_then_def
          split: if_splits intro!: exI [of _ "[Datagram a bs]"])
  qed (use assms run Cons in \<open>auto simp: tact_simps next_packet_def intro!: exI [of _ "[x]"]\<close>)
qed

lemma next_packet_loop:
  "recv_packet_loop e opcodes n False fuel s = Inr (r, s') \<Longrightarrow> pending s = None \<Longrightarrow> next_packet s r s'"
proof (induction fuel arbitrary: s)
  case 0
  then show ?case by (simp add: tstop_def next_packet_def)
next
  case (Suc fuel)
  define ok where "ok p = tbind (check_error e p opcodes) (\<lambda>_.
    if data_len p < n
    then tbind (tlift (cstr_at (pdata p @ ptail p))) (\<lambda>(text, _).
           if n + 3 < int (length text) then tlift (Inl Out_Of_Bounds) else terminate e ILLEGAL_OPERATION)
    else tret (Some p))" for p
  have ok: "obeys same_queue (ok p)" "yields (ok p) (\<lambda>x. x = Some p)" for p
    unfolding ok_def
    by (intro obeys_intros) (auto intro!: yields_tbind yields_tret yields_terminate yields_fault split: prod.split)
  from Suc.prems(1) show ?case
    unfolding recv_packet_loop.simps
  proof (cases rule: tbind_cases)
    case (1 x s1)
    have np: "next_packet s (Done x) s1" by (rule next_packet_event [OF 1(1) Suc.prems(2)])
    then have pend: "pending s1 = None" by (simp add: next_packet_def)
    show ?thesis
    proof (cases x)
      case None
      then show ?thesis using 1(2) np by (simp add: tact_simps)
    next
      case (Some p)
      let ?known = "\<not> check_addr s1 \<or> sender p = peer s1"
      show ?thesis
      proof (cases ?known)
        case True
        define s2 where "s2 = (if check_addr s1 then s1 else s1\<lparr>peer := sender p, check_addr := True\<rparr>)"
        have s2: "same_queue s1 s2" "ok p s2 = Inr (r, s')"
          using 1(2) Some True by (cases "check_addr s1"; simp add: s2_def tact_simps ok_def same_queue_def)+
        then have "same_queue s2 s'" "\<And>y. r = Done y \<Longrightarrow> y = Some p"
          using ok obeysD unfolding yields_def by blast+
        then have "same_queue s1 s'" using s2(1) by (simp add: same_queue_def)
        then show ?thesis using np Some \<open>\<And>y. r = Done y \<Longrightarrow> y = Some p\<close> by (intro next_packet_end [OF np]) auto
      next
        case False
        then have "tbind (error_occurred e UNKNOWN_TRANSFER_ID None (Some (sender p)))
            (\<lambda>_. recv_packet_loop e opcodes n False fuel) s1 = Inr (r, s')"
          using 1(2) Some by (simp add: tact_simps)
        then have "next_packet s1 r s'"
        proof (cases rule: tbind_cases)
          case (1 y s2)
          have q: "same_queue s1 s2" using 1(1) by (rule obeysD [OF queue_kept.obeys_errors(1)])
          then show ?thesis using Suc.IH [OF 1(2)] pend by (intro next_packet_quiet [OF pend q]) (simp add: same_queue_def)
        next
          case (2 q)
          have "same_queue s1 s'" using 2(1) by (rule obeysD [OF queue_kept.obeys_errors(1)])
          then show ?thesis using 2(3) pend by (auto simp: next_packet_def same_queue_def)
        qed
        then show ?thesis by (rule next_packet_skip [OF np])
      qed
    qed
  next
    case (2 q)
    have "next_packet s q s'" by (rule next_packet_event [OF 2(1) Suc.prems(2)])
    then show ?thesis using 2(3) by (auto simp: next_packet_def)
  qed
qed

definition next_block :: "tftp \<Rightarrow> packet outcome \<Rightarrow> tftp \<Rightarrow> bool" where
  "next_block s r s' \<longleftrightarrow> pending s' = None \<and> disk s' = disk s \<and>
     (\<exists>xs. inbox s = xs @ inbox s' \<and>
       (\<forall>p. r = Done p \<longrightarrow> (\<exists>ys bs. arrived xs = ys @ [bs] \<and> raw p = bs \<and> pdata p = drop 6 bs
          \<and> data_len p = int (length bs) - 6 \<and> block_id p = block_number bs)))"

lemma next_block_recv:
  assumes "recv_data e False s = Inr (r, s')" and s: "pending s = None"
  shows "next_block s r s'"
proof -
  have packet: "next_packet s q t" if "recv_packet e DATA 2 False s = Inr (q, t)" for q t
    using that s unfolding recv_packet_def recv_packet_mul_def by (rule next_packet_loop)
  have "tbind (recv_packet e DATA 2 False) (\<lambda>p.
      tbind (tlift (deref p)) (\<lambda>p.
        tret (p\<lparr>block_id := uint (ntohs (load16 (pdata p))), pdata := drop 2 (pdata p),
              data_len := data_len p - 2\<rparr>))) s = Inr (r, s')"
    using assms(1) by (simp add: recv_data_def)
  then show ?thesis
  proof (cases rule: tbind_cases)
    case (1 x s1)
    then obtain p where x: "x = Some p" and r: "s1 = s'"
      "r = Done (p\<lparr>block_id := uint (ntohs (load16 (pdata p))), pdata := drop 2 (pdata p), data_len := data_len p - 2\<rparr>)"
      by (cases x) (auto simp: tact_simps deref_def)
    then show ?thesis using packet [OF 1(1)]
      by (auto simp: next_packet_def next_block_def block_number_def)
  next
    case (2 q)
    then show ?thesis using packet [OF 2(1)] by (auto simp: next_packet_def next_block_def)
  qed
qed

lemma write_block_cases:
  assumes "write_block e path bytes s = Inr (r, s')"
  shows "(\<forall>x. r \<noteq> Done x) \<and> disk s' path = None \<or>
    r = Done () \<and> inbox s' = inbox s \<and> pending s' = pending s \<and>
    disk s' path = map_option (\<lambda>f. f @ bytes) (disk s path)"
proof (cases "write_ok e (writes s)")
  case False
  then have "terminate e (if disk_full e then DISK_FULL else UNKNOWN)
      (s\<lparr>writes := Suc (writes s), disk := (disk s)(path := None)\<rparr>) = Inr (r, s')"
    using assms by (cases s; cases "disk_full e") (simp_all add: write_block_def tact_simps)
  then show ?thesis
    using obeysD [OF disk_kept.obeys_errors(2)] terminate_not_Done by (fastforce simp: same_disk_def)
qed (use assms in \<open>auto simp: write_block_def tact_simps\<close>)

text \<open>From block \<open>k\<close> to block \<open>k'\<close>: the file has grown by the blocks between, each of them verified.\<close>

definition stored :: "string \<Rightarrow> int \<Rightarrow> tftp \<Rightarrow> tftp \<Rightarrow> int \<Rightarrow> bool" where
  "stored path k s s' k' \<longleftrightarrow> pending s' = None \<and>
     (\<exists>xs bss. inbox s = xs @ inbox s' \<and> subseq bss (arrived xs) \<and> list_all verified bss \<and>
        map block_number bss = [k + 1..k'] \<and> k \<le> k' \<and>
        disk s' path = map_option (\<lambda>c. c @ concat (map (drop 6) bss)) (disk s path))"

lemma stored_pending: "stored path k s s' k' \<Longrightarrow> pending s' = None"
  by (simp add: stored_def)

lemma stored_nothing:
  "pending s' = None \<Longrightarrow> inbox s = xs @ inbox s' \<Longrightarrow> disk s' path = disk s path \<Longrightarrow> stored path k s s' k"
  unfolding stored_def by (intro conjI exI [of _ xs] exI [of _ "[]"]) (simp_all add: option.map_ident)

lemma stored_one:
  "pending s' = None \<Longrightarrow> inbox s = xs @ inbox s' \<Longrightarrow> arrived xs = ys @ [bs] \<Longrightarrow> verified bs \<Longrightarrow>
    block_number bs = k + 1 \<Longrightarrow> disk s' path = map_option (\<lambda>c. c @ drop 6 bs) (disk s path) \<Longrightarrow>
    stored path k s s' (k + 1)"
  unfolding stored_def by (intro conjI exI [of _ xs] exI [of _ "[bs]"]) (simp_all add: subseq_singleton_left)

lemma stored_trans:
  assumes "stored path k s t k'" and "stored path k' t u k''"
  shows "stored path k s u k''"
proof -
  obtain xs bss where 1: "inbox s = xs @ inbox t" "subseq bss (arrived xs)" "list_all verified bss"
    "map block_number bss = [k + 1..k']" "k \<le> k'"
    "disk t path = map_option (\<lambda>c. c @ concat (map (drop 6) bss)) (disk s path)"
    using assms(1) by (auto simp: stored_def)
  obtain ys css where 2: "inbox t = ys @ inbox u" "subseq css (arrived ys)" "list_all verified css"
    "map block_number css = [k' + 1..k'']" "k' \<le> k''"
    "disk u path = map_option (\<lambda>c. c @ concat (map (drop 6) css)) (disk t path)"
    using assms(2) by (auto simp: stored_def)
  have "[k + 1..k''] = [k + 1..k'] @ [k' + 1..k'']"
    using 1(5) 2(5) upto_split2 [of "k + 1" k' k''] by (cases "k = k'") simp_all
  then show ?thesis using 1 2 assms(2)
    unfolding stored_def
    by (intro conjI exI [of _ "xs @ ys"] exI [of _ "bss @ css"])
      (simp_all add: list_emb_append_mono option.map_comp comp_def)
qed

lemma block_number_less: "block_number bs < BUF_SIZE"
  using unsigned_less [of "ntohs (load16 (drop 4 bs))", where ?'a = int] by (simp add: block_number_def BUF_SIZE_def)

lemma recv_window_stored:
  "recv_window e path n k s = Inr (r, s') \<Longrightarrow> pending s = None \<Longrightarrow>
    (\<forall>x. r \<noteq> Done x) \<and> disk s' path = None \<or>
    (\<exists>k'. stored path k s s' k' \<and> (\<forall>l c. r = Done (l, c) \<longrightarrow> l = k'))"
proof (induction n arbitrary: k s)
  case 0
  then show ?case by (auto simp: tact_simps intro!: stored_nothing [of _ _ "[]"])
next
  case (Suc n)
  from Suc.prems(1) show ?case unfolding recv_window.simps
  proof (cases rule: tbind_cases)
    case (2 q)
    have "stored path k s s' k" using next_block_recv [OF 2(1) Suc.prems(2)]
      by (auto simp: next_block_def intro: stored_nothing)
    then show ?thesis using 2(3) by blast
  next
    case (1 p s1)
    obtain xs ys bs where b: "pending s1 = None" "disk s1 = disk s" "inbox s = xs @ inbox s1" "arrived xs = ys @ [bs]"
      "raw p = bs" "pdata p = drop 6 bs" "data_len p = int (length bs) - 6" "block_id p = block_number bs"
      using next_block_recv [OF 1(1) Suc.prems(2)] by (auto simp: next_block_def)
    have none: "stored path k s s1 k" using b(1-3) by (intro stored_nothing) simp_all
    have sum: "checksum (word_of_int (data_len p + 6)) 0 (raw p) = checksum (of_nat (length bs)) 0 bs"
      using b(5,7) by simp
    show ?thesis
    proof (cases "verified bs")
      case False
      then show ?thesis using 1(2) none sum
        by (cases "checksum (of_nat (length bs)) 0 bs") (auto simp: tact_simps verified_def)
    next
      case True
      then have c: "tbind (tlift (checksum (word_of_int (data_len p + 6)) 0 (raw p))) K s1 = K 0 s1"
        for K :: "u16 \<Rightarrow> (int \<times> bool) tact" using sum by (simp add: verified_def tact_simps)
      show ?thesis
      proof (cases "block_id p = k + 1")
        case False
        then have "recv_window e path n k s1 = Inr (r, s')" using 1(2) c by simp
        then show ?thesis using Suc.IH [OF _ b(1)] stored_trans [OF none] by blast
      next
        case eq: True
        have "tbind (write_block e path (take (nat (data_len p)) (pdata p))) (\<lambda>_. tbind (tget block_size) (\<lambda>b.
            if data_len p < b then tbind (send_ack e (k + 1)) (\<lambda>_. tret (k + 1, True))
            else recv_window e path n (k + 1))) s1 = Inr (r, s')"
          using 1(2) c eq b(8) block_number_less [of bs] by (simp add: Let_def)
        then show ?thesis
        proof (cases rule: tbind_cases)
          case (2 q)
          then show ?thesis using write_block_cases [OF 2(1)] by auto
        next
          case w: (1 x s2)
          have "take (nat (data_len p)) (pdata p) = drop 6 bs" using b(6,7) by simp
          then have s2: "stored path k s s2 (k + 1)" "pending s2 = None"
          proof -
            have "inbox s2 = inbox s1" "pending s2 = pending s1" "disk s2 path = map_option (\<lambda>f. f @ drop 6 bs) (disk s path)"
              using write_block_cases [OF w(1)] b(2) \<open>take (nat (data_len p)) (pdata p) = drop 6 bs\<close> by simp_all
            moreover from this have "pending s2 = None" "inbox s = xs @ inbox s2" using b(1,3) by simp_all
            moreover have "block_number bs = k + 1" using b(8) eq by simp
            ultimately show "stored path k s s2 (k + 1)" "pending s2 = None"
              using stored_one [OF _ _ b(4) True] by blast+
          qed
          show ?thesis
          proof (cases "data_len p < block_size s2")
            case True
            then have "tbind (send_ack e (k + 1)) (\<lambda>_. tret (k + 1, True)) s2 = Inr (r, s')"
              using w(2) by (simp add: tact_simps)
            then have "same_queue s2 s' \<and> (\<forall>l c. r = Done (l, c) \<longrightarrow> l = k + 1)"
              by (cases rule: tbind_cases)
                (auto simp: tact_simps dest: obeysD [OF queue_kept.obeys_sends(3)])
            then have "stored path (k + 1) s2 s' (k + 1) \<and> (\<forall>l c. r = Done (l, c) \<longrightarrow> l = k + 1)"
              using s2(2) by (auto simp: same_queue_def intro!: stored_nothing [of _ _ "[]"])
            then show ?thesis using stored_trans [OF s2(1)] by blast
          next
            case False
            then have "recv_window e path n (k + 1) s2 = Inr (r, s')" using w(2) by (simp add: tact_simps)
            then show ?thesis using Suc.IH [OF _ s2(2)] stored_trans [OF s2(1)] by blast
          qed
        qed
      qed
    qed
  qed
qed

lemma recv_file_loop_stored:
  "recv_file_loop e path fuel k s = Inr (r, s') \<Longrightarrow> pending s = None \<Longrightarrow>
    disk s' path = None \<or> (\<exists>k'. stored path k s s' k')"
proof (induction fuel arbitrary: k s)
  case 0
  then show ?case by (auto simp: tact_simps intro!: stored_nothing [of _ _ "[]"])
next
  case (Suc fuel)
  then have "tbind (recv_window e path (nat (window_size s)) k) (\<lambda>(last_id, complete).
     if complete then tret ()
     else tbind (send_ack e (if last_id = -1 then BUF_SIZE else last_id)) (\<lambda>_.
         recv_file_loop e path fuel last_id)) s = Inr (r, s')"
    by (simp add: tact_simps)
  then show ?case
  proof (cases rule: tbind_cases)
    case (2 q)
    then show ?thesis using recv_window_stored [OF 2(1) Suc.prems(2)] by blast
  next
    case (1 x s1)
    obtain k' where k': "stored path k s s1 k'" "fst x = k'"
      using recv_window_stored [OF 1(1) Suc.prems(2)] by (cases x) auto
    show ?thesis
    proof (cases "snd x")
      case True
      then show ?thesis using 1(2) k' by (cases x) (auto simp: tact_simps)
    next
      case False
      then have "tbind (send_ack e (if k' = -1 then BUF_SIZE else k')) (\<lambda>_. recv_file_loop e path fuel k') s1 = Inr (r, s')"
        using 1(2) k'(2) by (cases x) auto
      then show ?thesis
      proof (cases rule: tbind_cases)
        case (1 y s2)
        have p2: "pending s2 = None" "inbox s1 = inbox s2" "disk s2 path = disk s1 path"
          using obeysD [OF queue_kept.obeys_sends(3) 1(1)] stored_pending [OF k'(1)] by (simp_all add: same_queue_def)
        then have "stored path k' s1 s2 k'" "pending s2 = None"
          by (auto intro: stored_nothing [of _ _ "[]"])
        then show ?thesis using Suc.IH [OF 1(2)] stored_trans [OF stored_trans [OF k'(1)]] by blast
      next
        case (2 q)
        have "stored path k' s1 s' k'"
          using obeysD [OF queue_kept.obeys_sends(3) 2(1)] stored_pending [OF k'(1)]
          by (intro stored_nothing [of _ _ "[]"]) (simp_all add: same_queue_def)
        then show ?thesis using stored_trans [OF k'(1)] by blast
      qed
    qed
  qed
qed

section \<open>A new file\<close>

definition inbox_taken :: "tftp \<Rightarrow> tftp \<Rightarrow> bool" where
  "inbox_taken s s' \<longleftrightarrow> (\<exists>xs. inbox s = xs @ inbox s') \<and> (pending s = None \<longrightarrow> pending s' = None)"

lemma inbox_taken_drop: "\<exists>xs. ys = xs @ drop n ys"
  by (rule exI [of _ "take n ys"]) simp

interpretation taken: net_frame inbox_taken
proof unfold_locales
  show "inbox_taken t u \<Longrightarrow> inbox_taken s t \<Longrightarrow> inbox_taken s u" for s t u
    by (auto simp: inbox_taken_def)
qed (simp_all add: inbox_taken_def inbox_taken_drop)

lemma tbind_after:
  assumes "tbind m k s = Inr (Done x, s')"
    and "\<And>y s1. m s = Inr (Done y, s1) \<Longrightarrow> P s1" and "\<And>y. obeys rel (k y)"
  shows "\<exists>s1. P s1 \<and> rel s1 s'"
  using assms(1)
proof (cases rule: tbind_cases)
  case (1 y s1)
  then show ?thesis using assms(2) obeysD [OF assms(3)] by blast
qed blast

lemma recv_packet_buffer_pending:
  assumes "recv_packet_buffer e t s = Inr (Done y, s')"
  shows "pending s' = None"
proof (cases "pending s")
  case None
  then show ?thesis using obeysD [OF taken.obeys_recv_packet_buffer assms] by (simp add: inbox_taken_def)
qed (use assms in \<open>auto simp: recv_packet_buffer_def tact_simps\<close>)

lemma recv_packet_loop_pending:
  assumes "recv_packet_loop e opcodes n t fuel s = Inr (Done y, s')"
  shows "pending s' = None"
proof (cases fuel)
  case (Suc fuel')
  have "\<exists>s1. pending s1 = None \<and> inbox_taken s1 s'"
    using assms unfolding Suc recv_packet_loop.simps
    by (rule tbind_after)
      (erule recv_packet_buffer_pending, intro obeys_intros taken.obeys_recv_packet_loop)
  then show ?thesis by (auto simp: inbox_taken_def)
qed (use assms in \<open>simp add: tstop_def\<close>)

lemma recv_rq_pending:
  assumes "recv_rq e s = Inr (Done x, s')"
  shows "pending s' = None"
proof -
  have "\<exists>s1. pending s1 = None \<and> inbox_taken s1 s'"
    using assms unfolding recv_rq_def
    by (rule tbind_after) (unfold recv_packet_mul_def, erule recv_packet_loop_pending, intro obeys_intros)
  then show ?thesis by (auto simp: inbox_taken_def)
qed

definition verified_file :: "recv_event list \<Rightarrow> byte list \<Rightarrow> bool" where
  "verified_file xs c \<longleftrightarrow> (\<exists>bss. subseq bss (arrived xs) \<and> list_all verified bss \<and>
     map block_number bss = [1..int (length bss)] \<and> c = concat (map (drop 6) bss))"

lemma verified_file_more: "verified_file ys c \<Longrightarrow> verified_file (xs @ ys) c"
  by (auto simp: verified_file_def intro: list_emb_append2)

lemma stored_verified:
  assumes "stored path 0 s s' k" and "disk s path = Some []" and "disk s' path = Some c"
  shows "verified_file (inbox s) c"
proof -
  obtain xs bss where b: "inbox s = xs @ inbox s'" "subseq bss (arrived xs)" "list_all verified bss"
    "map block_number bss = [1..k]" "0 \<le> k" "c = concat (map (drop 6) bss)"
    using assms by (auto simp: stored_def)
  have "int (length bss) = k" using b(5) arg_cong [OF b(4), of length] by simp
  then show ?thesis using b unfolding verified_file_def
    by (intro exI [of _ bss]) (auto intro: subseq_rev_drop_many)
qed

lemma recv_file_verified:
  assumes "recv_file e fuel path s = Inr (r, s')" and "pending s = None"
    and "disk s path = None" and "disk s' path = Some c"
  shows "verified_file (inbox s) c"
proof (cases "fopen_ok e path")
  case True
  let ?s = "s\<lparr>disk := (disk s)(path \<mapsto> [])\<rparr>"
  have "recv_file_loop e path fuel 0 ?s = Inr (r, s')"
    using assms(1) True by (simp add: recv_file_def tact_simps)
  then obtain k where "stored path 0 ?s s' k" using recv_file_loop_stored assms(2,4) by fastforce
  then have "verified_file (inbox ?s) c" by (rule stored_verified) (simp_all add: assms(4))
  then show ?thesis by simp
next
  case False
  then have "tbind (terminate e ACCESS_VIOLATION :: unit tact) (\<lambda>_. recv_file_loop e path fuel 0) s = Inr (r, s')"
    using assms(1) by (simp add: recv_file_def)
  then have "same_disk s s'"
    by (cases rule: tbind_cases) (auto simp: terminate_not_Done dest: obeysD [OF disk_kept.obeys_errors(2)])
  then show ?thesis using assms(3,4) by (simp add: same_disk_def)
qed

lemma handle_write_verified:
  assumes "handle_write e fuel name s = Inr (r, s')" and "pending s = None"
    and "disk s p = None" and "disk s' p = Some c"
  shows "verified_file (inbox s) c"
proof (cases "allow_upload s \<and> length (upload_path name) < 1024 \<and> disk s (upload_path name) = None")
  case True
  then have "tbind (send_ack e 0) (\<lambda>_. recv_file e fuel (upload_path name)) s = Inr (r, s')"
    using assms(1) by (simp add: handle_write_def tact_simps Let_def)
  then show ?thesis
  proof (cases rule: tbind_cases)
    case (1 x s1)
    have q: "same_queue s s1" by (rule obeysD [OF queue_kept.obeys_sends(3) 1(1)])
    have "p = upload_path name"
      using obeysD [OF other_files.obeys_recv_file 1(2)] q assms(3,4) by (auto simp: same_other_files_def same_queue_def)
    then have "verified_file (inbox s1) c"
      using recv_file_verified [OF 1(2)] q assms(2-4) by (simp add: same_queue_def)
    then show ?thesis using q by (simp add: same_queue_def)
  next
    case (2 q)
    then show ?thesis using obeysD [OF queue_kept.obeys_sends(3) 2(1)] assms(3,4) by (simp add: same_queue_def)
  qed
next
  case False
  then show ?thesis using handle_write_refused [OF assms(1)] assms(3,4) by (auto simp: same_disk_def)
qed

lemma handle_client_verified:
  assumes "handle_client e fuel junk s = Inr (r, s')" and "disk s p = None" and "disk s' p = Some c"
  shows "verified_file (inbox s) c"
proof -
  obtain q where "tbind (recv_rq e) (\<lambda>(op, file_name).
      if op = load16 RRQ then handle_read e file_name junk
      else if op = load16 WRQ then handle_write e fuel file_name
      else terminate e ILLEGAL_OPERATION) s = Inr (q, s')"
    using assms(1) by (auto simp: handle_client_def and_then_def split: sum.splits outcome.splits)
  then show ?thesis
  proof (cases rule: tbind_cases)
    case (1 x s1)
    obtain op name where x: "x = (op, name)" by (cases x)
    have d: "disk s1 = disk s" using obeysD [OF disk_kept.obeys_recv_rq 1(1)] by (simp add: same_disk_def)
    have "same_disk s1 s'" if "op \<noteq> load16 WRQ \<or> op = load16 RRQ"
      using 1(2) x that by (cases "op = load16 RRQ")
        (auto intro: obeysD [OF disk_kept.obeys_handle_read] obeysD [OF disk_kept.obeys_errors(2)])
    then have "op = load16 WRQ \<and> op \<noteq> load16 RRQ" using d assms(2,3) by (metis same_disk_def option.distinct(1))
    then have "op = load16 WRQ" "op \<noteq> load16 RRQ" by blast+
    then have "handle_write e fuel name s1 = Inr (q, s')" using 1(2) x by simp
    then have "verified_file (inbox s1) c"
      using handle_write_verified [OF _ recv_rq_pending [OF 1(1)]] d assms(2,3) by simp
    moreover obtain xs where "inbox s = xs @ inbox s1"
      using obeysD [OF taken.obeys_recv_rq 1(1)] by (auto simp: inbox_taken_def)
    ultimately show ?thesis using verified_file_more by simp
  next
    case (2 q)
    then show ?thesis using obeysD [OF disk_kept.obeys_recv_rq 2(1)] assms(2,3) by (simp add: same_disk_def)
  qed
qed

section \<open>What is sent\<close>

text \<open>A packet: data behind its checksum. The receiver verifies it when its length fits 16 bits.\<close>

definition well_formed_packet :: "byte list \<Rightarrow> bool" where
  "well_formed_packet bs \<longleftrightarrow> (\<exists>data c. bs = checksummed c data
     \<and> checksum (of_nat (length data)) (int (length data mod 2)) data = Inr c)"

definition sends_packets :: "tftp \<Rightarrow> tftp \<Rightarrow> bool" where
  "sends_packets s s' \<longleftrightarrow> (\<exists>xs. sent s' = sent s @ xs \<and> (\<forall>(a, bs) \<in> set xs. well_formed_packet bs))"

lemma sends_packets_same: "sent s' = sent s \<Longrightarrow> sends_packets s s'"
  by (simp add: sends_packets_def)

lemma sends_packets_trans: "sends_packets s t \<Longrightarrow> sends_packets t u \<Longrightarrow> sends_packets s u"
  unfolding sends_packets_def by (elim exE conjE) (rule exI, rule conjI, simp, auto)

interpretation packets: write_frame sends_packets path for path
proof unfold_locales
  fix bs c s a
  assume "checksum (of_nat (length bs)) (int (length bs mod 2)) bs = Inr c"
  then have "well_formed_packet (checksummed c bs)" by (auto simp: well_formed_packet_def)
  then show "sends_packets s (s\<lparr>sent := sent s @ [(a, checksummed c bs)]\<rparr>)"
    unfolding sends_packets_def by (intro exI [of _ "[(a, checksummed c bs)]"]) simp
qed (auto intro: sends_packets_same sends_packets_trans)

lemma packets_handle_write: "obeys sends_packets (handle_write e fuel name)"
  unfolding handle_write_def by (intro obeys_intros)

lemma well_formed_verified:
  assumes "well_formed_packet bs" and "length bs < 65536"
  shows "verified bs"
proof -
  obtain data c where d: "bs = checksummed c data" "checksum (of_nat (length data)) (int (length data mod 2)) data = Inr c"
    using assms(1) by (auto simp: well_formed_packet_def)
  then have "length data < 65534" using assms(2) by simp
  from checksum_accepts [OF this] d show ?thesis by (auto simp: verified_def)
qed

lemma handle_client_packets:
  assumes "handle_client e fuel junk s = Inr (r, s')"
  shows "sends_packets s s'"
proof -
  obtain q where "tbind (recv_rq e) (\<lambda>(op, file_name).
      if op = load16 RRQ then handle_read e file_name junk
      else if op = load16 WRQ then handle_write e fuel file_name
      else terminate e ILLEGAL_OPERATION) s = Inr (q, s')"
    using assms by (auto simp: handle_client_def and_then_def split: sum.splits outcome.splits)
  moreover have "obeys sends_packets (tbind (recv_rq e) (\<lambda>(op, file_name).
      if op = load16 RRQ then handle_read e file_name junk
      else if op = load16 WRQ then handle_write e fuel file_name
      else terminate e ILLEGAL_OPERATION))"
    by (intro obeys_intros packets_handle_write)
  ultimately show ?thesis by (blast dest: obeysD)
qed

end
