(* ===== verification/Tftp_Ends.thy ===== *)
theory Tftp_Ends
  imports Tftp_Safety
begin

text \<open>
  Reading ends: the fuel of the loops is enough whatever arrives, since every round takes a datagram.
\<close>

section \<open>Enough fuel\<close>

definition waiting :: "tftp \<Rightarrow> nat" where
  "waiting s = length (inbox s) + (if pending s = None then 0 else 1)"

definition fewer :: "tftp \<Rightarrow> tftp \<Rightarrow> bool" where
  "fewer s s' \<longleftrightarrow> waiting s' \<le> waiting s"

interpretation fewer: net_frame fewer
  by unfold_locales (simp_all add: fewer_def waiting_def)

definition ends :: "'a tact \<Rightarrow> bool" where
  "ends m \<longleftrightarrow> (\<forall>s s'. m s \<noteq> Inr (No_Fuel, s'))"

lemma endsD: "ends m \<Longrightarrow> m s \<noteq> Inr (No_Fuel, s')"
  by (simp add: ends_def)

named_theorems ends_intros \<open>actions that do not run out of fuel\<close>

lemma ends_basic [ends_intros]:
  "ends (tret x)" "ends (tget f)" "ends (tput h)" "ends (tlift z)" "ends (tstop Jumped)"
  by (simp_all add: ends_def tret_def tget_def tput_def tlift_def tstop_def and_then_def split: sum.split)

lemma ends_tbind [ends_intros]: "ends m \<Longrightarrow> (\<And>x. ends (k x)) \<Longrightarrow> ends (tbind m k)"
  unfolding ends_def by (auto simp: tbind_def and_then_def split: sum.splits outcome.splits)

lemma ends_branches [ends_intros]:
  "ends m \<Longrightarrow> ends m' \<Longrightarrow> ends (if c then m else m')"
  "ends m \<Longrightarrow> (\<And>a. ends (n a)) \<Longrightarrow> ends (case x of None \<Rightarrow> m | Some a \<Rightarrow> n a)"
  "(\<And>a b. ends (f a b)) \<Longrightarrow> ends (case q of (a, b) \<Rightarrow> f a b)"
  "ends (h v) \<Longrightarrow> ends (Let v h)"
  "ends m1 \<Longrightarrow> ends m2 \<Longrightarrow> (\<And>a bs. ends (m3 a bs)) \<Longrightarrow>
     ends (case y of Timeout \<Rightarrow> m1 | Recv_Error \<Rightarrow> m2 | Datagram a bs \<Rightarrow> m3 a bs)"
  "ends n1 \<Longrightarrow> ends n2 \<Longrightarrow> ends n3 \<Longrightarrow> ends (case z of Sent \<Rightarrow> n1 | Again \<Rightarrow> n2 | Broken \<Rightarrow> n3)"
  by (simp_all split: option.split prod.split recv_event.split send_result.split)

lemma ends_send_loop [ends_intros]: "ends (send_loop e addr buffer n)"
  by (induction n) (unfold send_loop.simps, (intro ends_intros; simp)+)

lemma ends_sends [ends_intros]:
  "ends (send e bytes addr)" "ends (resend_last_packet e)" "ends (send_err e code message addr)"
  "ends (send_ack e n)" "ends (send_data e bytes n)" "ends (send_oack e options)"
  unfolding send_def resend_last_packet_def send_err_def send_ack_def send_data_def send_oack_def
  by (intro ends_intros)+

lemma ends_errors [ends_intros]:
  "ends (error_occurred e code message addr)" "ends (terminate e code)" "ends (check_error e p opcodes)"
  unfolding error_occurred_def terminate_def check_error_def by (intro ends_intros)+

lemma ends_next_event [ends_intros]: "ends next_event"
  by (simp add: ends_def next_event_def split: list.split)

lemma ends_recv_attempts [ends_intros]: "ends (recv_attempts e n)"
  by (induction n) (unfold recv_attempts.simps, (intro ends_intros; simp)+)

lemma ends_recv_packet_buffer [ends_intros]: "ends (recv_packet_buffer e t)"
  unfolding recv_packet_buffer_def by (intro ends_intros)

text \<open>A packet that is received was waiting.\<close>

lemma next_event_fewer:
  assumes "tbind next_event k s = Inr (Done x, s')" and "\<And>y. obeys fewer (k y)"
  shows "waiting s' < waiting s"
proof (cases "inbox s")
  case Nil
  then show ?thesis using assms(1) by (simp add: tbind_def next_event_def)
next
  case (Cons y ys)
  then have "k y (s\<lparr>inbox := ys\<rparr>) = Inr (Done x, s')"
    using assms(1) by (simp add: tbind_def next_event_def)
  then have "fewer (s\<lparr>inbox := ys\<rparr>) s'" by (rule obeysD [OF assms(2)])
  then show ?thesis using Cons by (simp add: fewer_def waiting_def)
qed

lemma recv_packet_buffer_fewer:
  assumes "recv_packet_buffer e t s = Inr (Done (Some p), s')"
  shows "waiting s' < waiting s"
proof (cases "pending s")
  case (Some q)
  then show ?thesis using assms by (auto simp: recv_packet_buffer_def tact_simps waiting_def)
next
  case None
  have attempts: "recv_packet_buffer e True = tbind (tget pending) (\<lambda>p. case p of
      Some p \<Rightarrow> tbind (tput (\<lambda>s. s\<lparr>pending := None\<rparr>)) (\<lambda>_. tret (Some p))
    | None \<Rightarrow> recv_attempts e (MAX_RETRIES + 1))" by (simp add: recv_packet_buffer_def)
  show ?thesis
  proof (cases t)
    case True
    then have "recv_attempts e (Suc MAX_RETRIES) s = Inr (Done (Some p), s')"
      using assms None by (simp add: recv_packet_buffer_def tact_simps)
    then show ?thesis unfolding recv_attempts.simps
      by (rule next_event_fewer) (intro obeys_intros; simp)
  next
    case False
    then have "tbind next_event (\<lambda>x. case x of
        Datagram a bs \<Rightarrow> tbind (tlift (read_datagram e a bs)) (\<lambda>p. tret (Some p)) | _ \<Rightarrow> tret None) s
        = Inr (Done (Some p), s')"
      using assms None by (simp add: recv_packet_buffer_def tact_simps)
    then show ?thesis by (rule next_event_fewer) (intro obeys_intros; simp)
  qed
qed

lemma recv_packet_loop_ends:
  "waiting s < fuel \<Longrightarrow> recv_packet_loop e opcodes n t fuel s \<noteq> Inr (No_Fuel, s')"
proof (induction fuel arbitrary: s)
  case (Suc fuel)
  show ?case
  proof
    assume "recv_packet_loop e opcodes n t (Suc fuel) s = Inr (No_Fuel, s')"
    then show False unfolding recv_packet_loop.simps
    proof (cases rule: tbind_cases)
      case (2 q)
      then show False using ends_recv_packet_buffer unfolding ends_def by blast
    next
      case (1 x s1)
      show False
      proof (cases x)
        case None
        then show ?thesis using 1(2) by (cases t) (simp_all add: tact_simps)
      next
        case (Some p)
        have less: "waiting s1 < fuel" using recv_packet_buffer_fewer 1(1) Some Suc.prems by fastforce
        show ?thesis
        proof (cases "\<not> check_addr s1 \<or> sender p = peer s1")
          case True
          have "ends (tbind (if check_addr s1 then tret () else tput (\<lambda>s. s\<lparr>peer := sender p, check_addr := True\<rparr>)) (\<lambda>_.
              tbind (check_error e p opcodes) (\<lambda>_. if data_len p < n
              then tbind (tlift (cstr_at (pdata p @ ptail p))) (\<lambda>(text, _).
                if n + 3 < int (length text) then tlift (Inl Out_Of_Bounds) else terminate e ILLEGAL_OPERATION)
              else tret (Some p))))" by (intro ends_intros)
          then show ?thesis using 1(2) Some True unfolding ends_def by (auto simp: tact_basics tbind_basics(2))
        next
          case False
          then have "tbind (error_occurred e UNKNOWN_TRANSFER_ID None (Some (sender p)))
            (\<lambda>_. recv_packet_loop e opcodes n t fuel) s1 = Inr (No_Fuel, s')"
            using 1(2) Some by (simp add: tact_simps)
          then show ?thesis
          proof (cases rule: tbind_cases)
            case (1 y s2)
            have "waiting s2 < fuel" using obeysD [OF fewer.obeys_errors(1) 1(1)] less by (simp add: fewer_def)
            then show ?thesis using Suc.IH 1(2) by blast
          next
            case (2 q)
            then show ?thesis using ends_errors(1) unfolding ends_def by blast
          qed
        qed
      qed
    qed
  qed
qed simp

lemma tbind_fewer:
  assumes "tbind m k s = Inr (Done x, s')"
    and "\<And>y s1. m s = Inr (Done y, s1) \<Longrightarrow> k y s1 = Inr (Done x, s') \<Longrightarrow> waiting s1 < waiting s"
    and "\<And>y. obeys fewer (k y)"
  shows "waiting s' < waiting s"
  using assms(1)
proof (cases rule: tbind_cases)
  case (1 y s1)
  then show ?thesis using assms(2) [OF 1] obeysD [OF assms(3)] by (fastforce simp: fewer_def)
qed blast

lemma recv_packet_loop_fewer:
  assumes "recv_packet_loop e opcodes n t fuel s = Inr (Done (Some p), s')"
  shows "waiting s' < waiting s"
proof (cases fuel)
  case (Suc fuel')
  from assms show ?thesis unfolding Suc recv_packet_loop.simps
  proof (rule tbind_fewer)
    fix x s1
    assume m: "recv_packet_buffer e t s = Inr (Done x, s1)"
      and "(case x of None \<Rightarrow> if t then tlift (Inl Use_After_Free) else tret None
        | Some p \<Rightarrow> tbind (tget check_addr) (\<lambda>check. tbind (tget peer) (\<lambda>client.
            if \<not> check \<or> sender p = client
            then tbind (if check then tret () else tput (\<lambda>s. s\<lparr>peer := sender p, check_addr := True\<rparr>)) (\<lambda>_.
              tbind (check_error e p opcodes) (\<lambda>_. if data_len p < n
              then tbind (tlift (cstr_at (pdata p @ ptail p))) (\<lambda>(text, _).
                if n + 3 < int (length text) then tlift (Inl Out_Of_Bounds) else terminate e ILLEGAL_OPERATION)
              else tret (Some p)))
            else tbind (error_occurred e UNKNOWN_TRANSFER_ID None (Some (sender p))) (\<lambda>_.
              recv_packet_loop e opcodes n t fuel')))) s1 = Inr (Done (Some p), s')"
    then obtain q where "x = Some q" by (cases x; cases t) (simp_all add: tact_basics)
    then show "waiting s1 < waiting s" using m recv_packet_buffer_fewer by simp
  qed (intro obeys_intros fewer.obeys_recv_packet_loop)
qed (use assms in \<open>simp add: tstop_def\<close>)

lemma ends_recv [ends_intros]:
  "ends (recv_packet_mul e opcodes n t)" "ends (recv_packet e op n t)" "ends (recv_ack e t)"
proof -
  have "waiting s < length (inbox s) + 2" for s by (simp add: waiting_def)
  then show mul: "ends (recv_packet_mul e opcodes n t)" for opcodes n t
    using recv_packet_loop_ends unfolding ends_def recv_packet_mul_def by blast
  then show packet: "ends (recv_packet e op n t)" for op n t by (simp add: recv_packet_def)
  then show "ends (recv_ack e t)" unfolding recv_ack_def by (intro ends_intros)
qed

lemma recv_ack_fewer:
  assumes "recv_ack e t s = Inr (Done x, s')"
  shows "waiting s' < waiting s"
  using assms unfolding recv_ack_def
proof (rule tbind_fewer)
  fix p s1
  assume "recv_packet e ACK 2 t s = Inr (Done p, s1)"
    and "tbind (tlift (deref p)) (\<lambda>p. tbind (tlift (checksum (word_of_int (data_len p + 4)) 0 (raw p))) (\<lambda>c.
      if c \<noteq> 0 then tret None else tret (Some (uint (ntohs (load16 (pdata p))))))) s1 = Inr (Done x, s')"
  then show "waiting s1 < waiting s" unfolding recv_packet_def recv_packet_mul_def
    by (cases p) (auto simp: tact_simps deref_def simp del: recv_packet_loop.simps intro: recv_packet_loop_fewer)
qed (intro obeys_intros)

section \<open>A read ends\<close>

lemma ends_send_blocks_loop [ends_intros]: "ends (send_blocks_loop e buffer len outer inner i n)"
  by (induction n arbitrary: i) (unfold send_blocks_loop.simps, (intro ends_intros; simp)+)

lemma ends_send_blocks [ends_intros]: "ends (send_blocks e buffer len outer inner)"
  unfolding send_blocks_def by (intro ends_intros)

lemma ack_then_ends:
  assumes "waiting s < Suc fuel" and "\<And>a s2. waiting s2 < fuel \<Longrightarrow> k a s2 \<noteq> Inr (No_Fuel, s')"
  shows "tbind (recv_ack e False) (\<lambda>ack. case ack of
      None \<Rightarrow> terminate e INVALID_CHECKSUM | Some a \<Rightarrow> k a) s \<noteq> Inr (No_Fuel, s')"
proof
  assume "tbind (recv_ack e False) (\<lambda>ack. case ack of
      None \<Rightarrow> terminate e INVALID_CHECKSUM | Some a \<Rightarrow> k a) s = Inr (No_Fuel, s')"
  then show False
  proof (cases rule: tbind_cases)
    case (1 x s2)
    have "waiting s2 < fuel" using recv_ack_fewer [OF 1(1)] assms(1) by simp
    then show False using 1(2) assms(2) endsD [OF ends_errors(2), of e INVALID_CHECKSUM s2 s'] by (cases x) auto
  next
    case (2 q)
    then show False using ends_recv(3) unfolding ends_def by blast
  qed
qed

lemma send_file_loop_ends:
  "waiting s < fuel \<Longrightarrow> send_file_loop e content len fuel pos buffer outer inner s \<noteq> Inr (No_Fuel, s')"
proof (induction fuel arbitrary: s pos buffer outer inner)
  case (Suc fuel)
  show ?case
  proof
    assume "send_file_loop e content len (Suc fuel) pos buffer outer inner s = Inr (No_Fuel, s')"
    then obtain B k where
      run: "tbind (send_blocks e B len outer inner) (\<lambda>more. if \<not> more then tret () else
        tbind (recv_ack e False) (\<lambda>ack. case ack of
          None \<Rightarrow> terminate e INVALID_CHECKSUM | Some a \<Rightarrow> k a)) s = Inr (No_Fuel, s')"
      and k: "\<And>a. \<exists>pos outer inner. k a = send_file_loop e content len fuel pos B outer inner"
      by (simp only: send_file_loop.simps(2) tbind_basics Let_def) (rule that, assumption, auto)
    from run show False
    proof (cases rule: tbind_cases)
      case (1 more s1)
      have "waiting s1 < Suc fuel"
        using obeysD [OF fewer.obeys_send_blocks 1(1)] Suc.prems by (simp add: fewer_def)
      moreover have "k a s2 \<noteq> Inr (No_Fuel, s')" if "waiting s2 < fuel" for a s2
        using Suc.IH [OF that] k [of a] by metis
      ultimately have "tbind (recv_ack e False) (\<lambda>ack. case ack of
          None \<Rightarrow> terminate e INVALID_CHECKSUM | Some a \<Rightarrow> k a) s1 \<noteq> Inr (No_Fuel, s')"
        by (rule ack_then_ends)
      then show False using 1(2) by (cases more) (auto simp: tact_basics)
    next
      case (2 q)
      then show False using ends_send_blocks unfolding ends_def by blast
    qed
  qed
qed simp

lemma ends_handle_read: "ends (handle_read e name junk)"
proof -
  have "waiting s < length (inbox s) + 2" for s by (simp add: waiting_def)
  then have "ends (send_file e path len junk)" for path len
    using send_file_loop_ends by (simp add: ends_def send_file_def split: option.split)
  then show ?thesis unfolding handle_read_def by (intro ends_intros)
qed

lemma ends_map_options [ends_intros]: "ends (map_options e options)"
  by (induction options) (auto intro!: ends_intros)

lemma ends_recv_rq [ends_intros]: "ends (recv_rq e)"
  unfolding recv_rq_def by (intro ends_intros)

lemma recv_packet_mul_pending:
  assumes "recv_packet_mul e opcodes n t s = Inr (Done x, s')"
    and "pending s = Some p" and "check_addr s" and "sender p = peer s"
  shows "x = Some p"
proof -
  define ok where "ok = tbind (check_error e p opcodes) (\<lambda>_.
    if data_len p < n
    then tbind (tlift (cstr_at (pdata p @ ptail p))) (\<lambda>(text, _).
           if n + 3 < int (length text) then tlift (Inl Out_Of_Bounds) else terminate e ILLEGAL_OPERATION)
    else tret (Some p))"
  have "ok (s\<lparr>pending := None\<rparr>) = Inr (Done x, s')"
    using assms by (simp add: recv_packet_mul_def recv_packet_buffer_def tact_simps tbind_def ok_def)
  moreover have "yields ok (\<lambda>x. x = Some p)"
    unfolding ok_def
    by (auto intro!: yields_tbind yields_tret yields_terminate yields_fault split: prod.split)
  ultimately show ?thesis unfolding yields_def by blast
qed

lemma recv_rq_opcode:
  assumes "recv_rq e s = Inr (Done (op, name), s')"
    and s: "pending s = Some p" "check_addr s" "sender p = peer s"
  shows "op = opcode p"
  using assms(1) unfolding recv_rq_def
proof (cases rule: tbind_cases)
  case (1 x s1)
  have x: "x = Some p" by (rule recv_packet_mul_pending [OF 1(1) s])
  have "yields (tbind (tlift (cstr_at (pdata p @ ptail p))) (\<lambda>(file_name, rest).
     if 100 \<le> length file_name then tlift (Inl Out_Of_Bounds)
     else
       tbind (tlift (cstr_at rest)) (\<lambda>(file_mode, rest).
       if 10 \<le> length file_mode then tlift (Inl Out_Of_Bounds)
       else
         tbind (if strcmp file_mode ''octet'' \<noteq> 0 then terminate e ILLEGAL_OPERATION else tret ()) (\<lambda>_.
         if int (2 + length file_mode + length file_name) \<noteq> data_len p then
           tbind (tlift (process_option rest)) (\<lambda>options.
           if options = [] then tret (opcode p, file_name)
           else
             tbind (map_options e options) (\<lambda>_.
             tbind (send_oack e options) (\<lambda>_.
             tbind (if opcode p = load16 RRQ then tbind (recv_ack e True) (\<lambda>_. tret ()) else tret ()) (\<lambda>_.
               tret (opcode p, file_name)))))
         else tret (opcode p, file_name))))) (\<lambda>q. fst q = opcode p)"
    by (auto intro!: yields_tbind yields_tret yields_fault split: prod.split)
  then show ?thesis using 1(2) x by (force simp: tact_simps deref_def yields_def)
qed blast

lemma handle_client_read_ends:
  assumes "pending s = Some p" and "check_addr s" and "sender p = peer s" and "opcode p = load16 RRQ"
  shows "handle_client e fuel junk s \<noteq> Inr (No_Fuel, s')"
proof
  assume "handle_client e fuel junk s = Inr (No_Fuel, s')"
  then have "tbind (recv_rq e) (\<lambda>(op, file_name).
      if op = load16 RRQ then handle_read e file_name junk
      else if op = load16 WRQ then handle_write e fuel file_name
      else terminate e ILLEGAL_OPERATION) s = Inr (No_Fuel, s')"
    by (auto simp: handle_client_def and_then_def split: sum.splits outcome.splits)
  then show False
  proof (cases rule: tbind_cases)
    case (1 x s1)
    obtain op name where x: "x = (op, name)" by (cases x)
    then have "op = load16 RRQ" using recv_rq_opcode [OF 1(1) [unfolded x] assms(1-3)] assms(4) by simp
    then show ?thesis using 1(2) x endsD [OF ends_handle_read] by simp
  next
    case (2 q)
    then show ?thesis using endsD [OF ends_recv_rq] by simp
  qed
qed


end
