(* ===== verification/Tftp_Server.thy ===== *)
theory Tftp_Server
  imports Tftp_Upload Tftp_Ends Http_Server
begin

text \<open>
  The TFTP server of \<open>src/networking/tftp/tftp_server.c\<close>, and the life of a handler: it is created for a
  datagram of the main socket, on a socket of its own, runs \<open>handle_client\<close> and is freed.
\<close>

section \<open>The server\<close>

definition AF_INET :: int where "AF_INET = 2"
definition SOCK_DGRAM :: int where "SOCK_DGRAM = 2"

record tftp_server =
  tftp_socket :: server
  is_allow_upload :: bool
  upload_dir :: string

text \<open>The directory is copied into 256 bytes. Its use is elsewhere: the paths are made from \<open>UPLOAD_DIR\<close>.\<close>

definition tftp_server_constructor :: "int \<Rightarrow> int \<Rightarrow> nat \<Rightarrow> int \<Rightarrow> bool \<Rightarrow> string \<Rightarrow> tftp_server run" where
  "tftp_server_constructor socket_ret bind_ret addr prt allowed dir =
     and_then (server_constructor socket_ret bind_ret 0 AF_INET SOCK_DGRAM 0 addr prt 0) (\<lambda>srv.
     if 256 \<le> length dir then Inl Out_Of_Bounds
     else Inr \<lparr>tftp_socket = srv, is_allow_upload = allowed, upload_dir = dir\<rparr>)"

section \<open>The main loop\<close>

text \<open>
  One buffer for all datagrams: a job of the thread pool holds a pointer to it, the number of bytes and a
  copy of the address. A failed \<open>recvfrom\<close> gives -1, which is a large \<open>size_t\<close>; buffer and address are
  those of the datagram before.
\<close>

record launch_state =
  shared_data :: "byte list"
  last_client :: address
  jobs :: "(nat \<times> address) list"

definition receive_request_datagram :: "recv_event \<Rightarrow> launch_state \<Rightarrow> launch_state" where
  "receive_request_datagram x st =
     (case x of
        Datagram a bs \<Rightarrow>
          let n = min (length bs) 65536;
              st = st\<lparr>shared_data := take n bs @ drop n (shared_data st), last_client := a\<rparr>
          in if n < 1 then st else st\<lparr>jobs := jobs st @ [(n, a)]\<rparr>
      | _ \<Rightarrow> st\<lparr>jobs := jobs st @ [(2 ^ 64 - 1, last_client st)]\<rparr>)"

definition tftp_launch :: "tftp_server \<Rightarrow> recv_event list \<Rightarrow> launch_state \<Rightarrow> launch_state" where
  "tftp_launch srv xs st =
     (if socket_fd (tftp_socket srv) \<le> 0 then st else fold receive_request_datagram xs st)"

text \<open>What a job finds when it is run.\<close>

definition job_request :: "launch_state \<Rightarrow> nat \<Rightarrow> byte list" where
  "job_request st i = take (fst (jobs st ! i)) (shared_data st)"

section \<open>A handler\<close>

text \<open>
  What the program does not determine when a handler is created: the size of the block \<open>malloc\<close> gives
  for a request, the results of the system calls, the port of the new socket, and the contents of fresh
  memory.
\<close>

record create_env =
  usable :: "nat \<Rightarrow> nat"
  socket_ret :: int
  bind_ret :: int
  getsockname_ok :: bool
  new_port :: u16
  sendto_ret :: int
  handshake_ret :: int
  heap_tail :: "byte list"
  heap_packet :: packet
  heap_last :: "byte list"

text \<open>The acknowledgement that tells the client the new port.\<close>

definition handshake_packet :: "u16 \<Rightarrow> byte list run" where
  "handshake_packet port_no =
     (let buffer = [0, 0] @ ACK @ store16 port_no
      in and_then (checksum 6 0 buffer) (\<lambda>c. Inr (checksummed c (drop 2 buffer))))"

text \<open>
  The block for \<open>__packet_buffer\<close> has \<open>sizeof(Packet)\<close> = 65536 bytes. As a \<open>PacketBuffer\<close> its
  \<open>data_len\<close> starts there, the address at 65544 and the raw bytes at 65552. \<open>recvfrom\<close> is not checked
  for the sender, \<open>sendto\<close> only for 0.
\<close>

definition create_handler ::
  "create_env \<Rightarrow> byte list option \<Rightarrow> nat \<Rightarrow> address \<Rightarrow> tftp_server \<Rightarrow> (string \<Rightarrow> byte list option) \<Rightarrow>
   recv_event list \<Rightarrow> (tftp option \<times> (address \<times> byte list) list) run" where
  "create_handler ce initial_buffer buffer_size client srv fs arriving =
     and_then (tftp_server_constructor (socket_ret ce) (bind_ret ce) (interface_addr (tftp_socket srv)) 0
       (is_allow_upload srv) (upload_dir srv)) (\<lambda>own.
     let h = \<lparr>peer = client, block_size = BLOCK_SIZE, window_size = 1, check_addr = True,
              allow_upload = is_allow_upload own, pending = Some (heap_packet ce),
              last_packet = heap_last ce, inbox = arriving, sent = [], sends = 0, disk = fs, writes = 0, closes = 0\<rparr>;
         store = (\<lambda>out. case initial_buffer of
             None \<Rightarrow> Inr (Some h, out)
           | Some bs \<Rightarrow>
               if buffer_size < 4 \<or> length bs < buffer_size \<or> usable ce 65536 < 65552 + buffer_size
               then Inl Out_Of_Bounds
               else Inr (Some (h\<lparr>pending := Some \<lparr>opcode = load16 (drop 2 bs),
                 pdata = take (buffer_size - 4) (drop 4 bs), ptail = heap_tail ce,
                 data_len = int buffer_size - 4, sender = client, raw = take buffer_size bs, block_id = 0\<rparr>\<rparr>), out))
     in if \<not> getsockname_ok ce then store []
        else
          and_then (handshake_packet (new_port ce)) (\<lambda>pkt.
          let out = (if sendto_ret ce = -1 then [] else [(client, pkt)])
          in if sendto_ret ce = 0 then Inr (None, out)
             else if handshake_ret ce < 1 then Inr (None, out)
             else store out))"

text \<open>The socket is closed, whether \<open>_terminate\<close> has closed it before or not.\<close>

definition free_handler :: "tftp \<Rightarrow> tftp" where
  "free_handler h = closes_update Suc h"

definition tftp_handler ::
  "create_env \<Rightarrow> tftp_env \<Rightarrow> nat \<Rightarrow> byte list \<Rightarrow> byte list \<Rightarrow> nat \<Rightarrow> address \<Rightarrow> tftp_server \<Rightarrow>
   (string \<Rightarrow> byte list option) \<Rightarrow> recv_event list \<Rightarrow>
   ((int outcome \<times> tftp) option \<times> (address \<times> byte list) list) run" where
  "tftp_handler ce e fuel junk bytes n client srv fs arriving =
     and_then (create_handler ce (Some bytes) n client srv fs arriving) (\<lambda>(h, out).
     case h of
       None \<Rightarrow> Inr (None, out)
     | Some h \<Rightarrow>
         and_then (handle_client e fuel junk h) (\<lambda>(r, h).
         case r of
           Done x \<Rightarrow> Inr (Some (Done x, free_handler h), out)
         | q \<Rightarrow> Inr (Some (q, h), out)))"

section \<open>A handler is created\<close>

lemma handshake_accepted: "\<exists>pkt. handshake_packet port_no = Inr pkt \<and> length pkt = 6"
proof -
  let ?b = "[0, 0] @ ACK @ store16 port_no"
  have "length ?b = 6" by simp
  then obtain c where "checksum 6 0 ?b = Inr c"
    by (cases "checksum 6 0 ?b") (simp_all add: checksum_def checksum_buffer_def Let_def)
  then show ?thesis by (auto simp: handshake_packet_def Let_def)
qed

text \<open>
  An environment in which the handler comes up. \<open>malloc\<close> gives enough for the \<open>n\<close> bytes of the
  datagram behind the block that was asked for, and the fresh memory behind the request does not look
  like an option.
\<close>

definition handler_ready :: "create_env \<Rightarrow> tftp_server \<Rightarrow> nat \<Rightarrow> bool" where
  "handler_ready ce srv n \<longleftrightarrow>
     0 < socket_ret ce \<and> 0 \<le> bind_ret ce \<and> length (upload_dir srv) < 256 \<and> getsockname_ok ce
     \<and> sendto_ret ce = 6 \<and> 1 \<le> handshake_ret ce \<and> 65552 + n \<le> usable ce 65536
     \<and> heap_tail ce \<noteq> [] \<and> \<not> isprint (hd (heap_tail ce))"

lemma create_handler_ready:
  assumes "handler_ready ce srv n" and "4 \<le> n" and "n \<le> length bs"
  obtains pkt h where "create_handler ce (Some bs) n client srv fs arriving = Inr (Some h, [(client, pkt)])"
    "handshake_packet (new_port ce) = Inr pkt"
    "pending h = Some \<lparr>opcode = load16 (drop 2 bs), pdata = take (n - 4) (drop 4 bs), ptail = heap_tail ce,
       data_len = int n - 4, sender = client, raw = take n bs, block_id = 0\<rparr>"
    "peer h = client" "block_size h = 512" "window_size h = 1" "check_addr h" "allow_upload h = is_allow_upload srv"
    "disk h = fs" "inbox h = arriving" "sent h = []" "closes h = 0"
proof -
  obtain pkt where "handshake_packet (new_port ce) = Inr pkt" using handshake_accepted by blast
  then show ?thesis using assms
    by (intro that [of "\<lparr>peer = client, block_size = BLOCK_SIZE, window_size = 1, check_addr = True,
              allow_upload = is_allow_upload srv, pending = Some \<lparr>opcode = load16 (drop 2 bs), pdata = take (n - 4) (drop 4 bs),
              ptail = heap_tail ce, data_len = int n - 4, sender = client, raw = take n bs, block_id = 0\<rparr>,
              last_packet = heap_last ce, inbox = arriving, sent = [], sends = 0, disk = fs, writes = 0, closes = 0\<rparr>" pkt])
      (auto simp: create_handler_def handler_ready_def tftp_server_constructor_def server_constructor_def
        Let_def SOCK_DGRAM_def SOCK_STREAM_def BLOCK_SIZE_def)
qed

section \<open>Sessions\<close>

text \<open>A client's request, as it lies in the buffer of the main loop, and what the options lead to.\<close>

definition request_session ::
  "byte list \<Rightarrow> create_env \<Rightarrow> tftp_env \<Rightarrow> byte list \<Rightarrow> nat \<Rightarrow> tftp_server \<Rightarrow> string \<Rightarrow> (string \<times> string) list \<Rightarrow>
   nat \<Rightarrow> nat \<Rightarrow> bool" where
  "request_session op ce e bytes n srv name options b w \<longleftrightarrow>
     handler_ready ce srv n \<and> reliable e
     \<and> take n bytes = wire (op @ request_data name options) \<and> n = length (request_data name options) + 4
     \<and> length (request_data name options) < 65000
     \<and> nul_free name \<and> length name < 100 \<and> list_all option_ok options
     \<and> negotiated options (512, 1) = Some (int b, int w) \<and> 0 < b \<and> 0 < w"

lemma load16_take: "load16 (take (Suc (Suc m)) xs) = load16 xs"
  by (cases xs; cases "tl xs") (auto simp: load16_def)

lemma session_request:
  assumes "request_session op ce e bytes n srv name options b w" and "op = RRQ \<or> op = WRQ"
  obtains pkt h p where "create_handler ce (Some bytes) n client srv fs arriving = Inr (Some h, [(client, pkt)])"
    "pending h = Some p" "check_addr h" "sender p = peer h" "is_request op name options p"
    "list_all option_ok options" "length (oack_packet options) < 65534" "nul_free name" "length name < 100"
    "negotiated options (block_size h, window_size h) = Some (int b, int w)" "b \<le> 65464" "w \<le> 255"
    "peer h = client" "allow_upload h = is_allow_upload srv" "disk h = fs" "inbox h = arriving" "sent h = []"
proof -
  note r = assms(1) [unfolded request_session_def]
  have op: "length op = 2" using assms(2) by auto
  have n: "4 \<le> n" "n \<le> length bytes"
    using r length_wire [of "op @ request_data name options"] op by (auto simp: min_def dest: arg_cong [of _ _ length] split: if_splits)
  obtain pkt h where h: "create_handler ce (Some bytes) n client srv fs arriving = Inr (Some h, [(client, pkt)])"
    "pending h = Some \<lparr>opcode = load16 (drop 2 bytes), pdata = take (n - 4) (drop 4 bytes), ptail = heap_tail ce,
       data_len = int n - 4, sender = client, raw = take n bytes, block_id = 0\<rparr>"
    "peer h = client" "block_size h = 512" "window_size h = 1" "check_addr h" "allow_upload h = is_allow_upload srv"
    "disk h = fs" "inbox h = arriving" "sent h = []"
    using create_handler_ready [OF _ n, of ce srv client fs arriving] r by blast
  have taken: "take n bytes = wire (op @ request_data name options)" using r by blast
  moreover have "length (op @ request_data name options) < 65534" using r op by simp
  ultimately have "drop 2 (take n bytes) = op @ request_data name options" by (simp only: drop_wire)
  then have d: "take (n - 2) (drop 2 bytes) = op @ request_data name options" by (simp add: drop_take)
  have "take (n - 4) (drop 4 bytes) = drop 2 (take (n - 2) (drop 2 bytes))" by (simp add: drop_take)
  then have data: "take (n - 4) (drop 4 bytes) = request_data name options" using d op by simp
  have "load16 (take (n - 2) (drop 2 bytes)) = load16 (drop 2 bytes)"
  proof -
    have "n - 2 = Suc (Suc (n - 4))" using n by simp
    then show ?thesis using load16_take [of "n - 4" "drop 2 bytes"] by simp
  qed
  then have opcode: "load16 (drop 2 bytes) = load16 op"
    using d assms(2) by (auto simp: load16_def RRQ_def WRQ_def)
  have "0 \<le> int b \<and> int b \<le> 65464 \<and> 0 \<le> int w \<and> int w \<le> 255"
    by (rule negotiated_range [of options 512 1]) (use r in simp_all)
  moreover have "length (oack_packet options) < 65534"
    using r by (simp add: oack_packet_def request_data_def)
  ultimately show ?thesis
    using r h data opcode by (intro that [OF h(1,2)]) (simp_all add: is_request_def handler_ready_def)
qed

lemma tftp_handler_run:
  assumes "create_handler ce (Some bytes) n client srv fs arriving = Inr (Some h, out)"
    and "handle_client e fuel junk h = Inr (Done x, h')"
  shows "tftp_handler ce e fuel junk bytes n client srv fs arriving = Inr (Some (Done x, free_handler h'), out)"
  using assms by (simp add: tftp_handler_def)

lemma free_handler_simps [simp]:
  "disk (free_handler h) = disk h" "sent (free_handler h) = sent h" "inbox (free_handler h) = inbox h"
  by (simp_all add: free_handler_def)

lemma tftp_handler_cases:
  assumes "tftp_handler ce e fuel junk bytes n client srv fs arriving = Inr (Some (r, h), out)"
  obtains h0 q h1 where "handle_client e fuel junk h0 = Inr (q, h1)" "disk h0 = fs" "inbox h0 = arriving"
    "allow_upload h0 = is_allow_upload srv" "disk h = disk h1" "r = q" "check_addr h0"
    "\<exists>p. pending h0 = Some p \<and> sender p = peer h0 \<and> opcode p = load16 (drop 2 bytes)"
    "sent h0 = []" "sent h = sent h1"
proof -
  obtain h0 q h1 where h0: "create_handler ce (Some bytes) n client srv fs arriving = Inr (Some h0, out)"
    and run: "handle_client e fuel junk h0 = Inr (q, h1)"
      "h = h1 \<or> h = free_handler h1" "r = q"
    using assms by (auto simp: tftp_handler_def and_then_def split: sum.splits option.splits outcome.splits)
  have "disk h0 = fs" "inbox h0 = arriving" "allow_upload h0 = is_allow_upload srv" "check_addr h0"
    "\<exists>p. pending h0 = Some p \<and> sender p = peer h0 \<and> opcode p = load16 (drop 2 bytes)" "sent h0 = []"
    using h0 by (auto simp: create_handler_def tftp_server_constructor_def and_then_def Let_def
        split: sum.splits if_splits)
  then show ?thesis using run that by auto
qed

end
