(* ===== verification/Tftp_Defects.thy ===== *)
theory Tftp_Defects
  imports Tftp_Server
begin

text \<open>
  What goes wrong, stated as what the code does: memory, sockets and requests when a handler is created
  and freed, and transfers with a client that repeats an acknowledgement, sends an error or asks for an
  empty window.
\<close>

section \<open>Creating and freeing a handler\<close>

text \<open>The memory \<open>malloc\<close> was asked for is not enough for any datagram.\<close>

lemma create_handler_overflow:
  assumes "0 < socket_ret ce" and "0 \<le> bind_ret ce" and "sendto_ret ce \<noteq> 0" and "1 \<le> handshake_ret ce"
    and "usable ce 65536 < 65556"
  shows "create_handler ce (Some bs) n client srv fs arriving = Inl Out_Of_Bounds"
proof -
  obtain pkt where "handshake_packet (new_port ce) = Inr pkt" using handshake_accepted by blast
  then show ?thesis using assms
    by (auto simp: create_handler_def tftp_server_constructor_def server_constructor_def Let_def
        SOCK_DGRAM_def SOCK_STREAM_def)
qed

text \<open>A handler that gave up has closed its socket, and closes it once more.\<close>

lemma terminated_closes_twice:
  assumes "reliable e" and "terminate e code s = Inr (Jumped :: unit outcome, s')"
  shows "closes (free_handler s') = closes s + 2"
proof -
  have len: "length (ERROR @ store16 (of_nat (error_code code)) @ bytes_of (get_message code) @ [0]) < 65534"
    by (cases code) (simp_all add: get_message_def ERROR_def)
  show ?thesis
    using assms(2) send_ok [OF assms(1) len, of None s]
    by (auto simp: terminate_def error_occurred_def send_err_def Let_def tbind_Done tact_simps free_handler_def)
qed

text \<open>A datagram that arrives before a job is run replaces the request of that job.\<close>

lemma request_overwritten:
  assumes "jobs st = []" and "0 < length bs1" and "length bs1 = length bs2" and "length bs2 \<le> 65536"
    and "0 < socket_fd (tftp_socket srv)"
  shows "let st' = tftp_launch srv [Datagram a1 bs1, Datagram a2 bs2] st
    in job_request st' 0 = bs2 \<and> jobs st' ! 0 = (length bs1, a1)"
  using assms by (simp add: tftp_launch_def receive_request_datagram_def job_request_def Let_def min_def)

section \<open>A window of 0\<close>

text \<open>The server acknowledges for ever and takes nothing from its socket.\<close>

lemma zero_window_write:
  assumes "reliable e" and "window_size s = 0"
  shows "\<exists>s'. recv_file_loop e path fuel k s = Inr (No_Fuel, s') \<and> inbox s' = inbox s \<and>
    sent s' = sent s @ replicate fuel (peer s, wire (ack_packet (if k = -1 then BUF_SIZE else k)))"
  using assms(2)
proof (induction fuel arbitrary: s)
  case 0
  then show ?case by (simp add: tact_simps)
next
  case (Suc fuel)
  let ?n = "if k = -1 then BUF_SIZE else k"
  let ?s = "s\<lparr>sends := Suc (sends s), last_packet := ack_packet ?n, sent := sent s @ [(peer s, wire (ack_packet ?n))]\<rparr>"
  have "tbind (send_ack e ?n) K s = K () ?s" for K :: "unit \<Rightarrow> unit tact"
    by (rule tbind_Done) (rule send_ack_ok [OF assms(1)])
  then have "recv_file_loop e path (Suc fuel) k s = recv_file_loop e path fuel k ?s"
    using Suc.prems by (simp only: recv_file_loop.simps) (simp add: tact_simps)
  then show ?case using Suc.IH [of ?s] Suc.prems by (auto simp: replicate_append_same [symmetric])
qed

section \<open>Errors of the client\<close>

text \<open>The opcode of a received packet is in host order, the one it is compared with is not.\<close>

lemma error_packet_not_recognised:
  assumes "read_datagram e a bs = Inr p" and "take 2 (drop 2 bs) = ERROR"
  shows "opcode p \<noteq> load16 ERROR"
proof -
  have "drop 2 (take 65536 bs) = take (Suc (Suc 65532)) (drop 2 bs)" by (simp add: drop_take)
  moreover have "take 2 (drop 2 bs) = take (Suc (Suc 0)) (drop 2 bs)" by (simp only: numeral_2_eq_2)
  ultimately have "load16 (drop 2 (take 65536 bs)) = load16 ERROR"
    using assms(2) load16_take by metis
  then show ?thesis using assms(1)
    by (auto simp: read_datagram_def Let_def ERROR_def load16_def ntohs_def htons_def split: if_splits)
qed

section \<open>A file of 65536 blocks\<close>

lemma verified_file_limit:
  assumes "verified_file xs c"
  shows "\<exists>bss. length bss \<le> 65535 \<and> c = concat (map (drop 6) bss)"
proof -
  obtain bss where b: "map block_number bss = [1..int (length bss)]" "c = concat (map (drop 6) bss)"
    using assms by (auto simp: verified_file_def)
  have "int (length bss) < BUF_SIZE"
  proof (cases "bss = []")
    case False
    then have "1 \<le> int (length bss)" by (cases bss) simp_all
    then have "int (length bss) \<in> set (map block_number bss)" using b(1) by simp
    then show ?thesis using block_number_less by auto
  qed (simp add: BUF_SIZE_def)
  then show ?thesis using b(2) by (intro exI [of _ bss]) (simp add: BUF_SIZE_def)
qed

section \<open>An acknowledgement that is repeated\<close>

definition sent_grows :: "tftp \<Rightarrow> tftp \<Rightarrow> bool" where
  "sent_grows s s' \<longleftrightarrow> prefix (sent s) (sent s')"

interpretation sent_log: net_frame sent_grows
  by unfold_locales (auto simp: sent_grows_def)

text \<open>
  The block before the acknowledged one is expected again, but the file has been read on: block 1 goes
  out with the bytes of block 2.
\<close>

lemma repeated_ack_skips_data:
  assumes r: "reliable e" and s: "pending s = None" "check_addr s" "block_size s = int b" "window_size s = 1"
    and b: "0 < b" "b \<le> 65464" and f: "2 * b \<le> length f" "length f + 2 * b < 2147483648"
    and junk: "length junk = b" and i: "inbox s = Datagram (peer s) (wire (ack_packet 0)) # xs"
    and run: "send_file_loop e f (int (length f)) (Suc (Suc n)) 0 junk 0 0 s = Inr (q, s')"
  shows "prefix (sent s @ [(peer s, wire (DATA @ block_bytes 1 @ file_block b f 0)),
    (peer s, wire (DATA @ block_bytes 1 @ file_block b f 1))]) (sent s')"
proof -
  have one: "\<exists>t'. send_blocks e (take b g) (int (length f)) 0 0 t = Inr (Done True, t') \<and> same_session t t'
      \<and> inbox t' = inbox t \<and> sent t' = sent t @ [(peer t, wire (DATA @ block_bytes 1 @ take b g))]"
    if g: "length g = length f" and t: "block_size t = int b" "window_size t = 1" for g t
  proof -
    have "window_data b g (take b g) 0 1" by (simp add: window_data_def file_block_def min_def)
    moreover have "(0 + 1) * b < 2147483648" using f(2) by simp
    moreover have "window_size t = int 1" using t(2) by simp
    ultimately show ?thesis
      using send_blocks_ok [OF r b, of 0 0 0 1 g "take b g" t] t(1) g
      by (auto simp: block_count_def data_packet_def file_block_def BUF_SIZE_def)
  qed
  have sizes: "tbind (tget block_size) K t = K (int b) t" "tbind (tget window_size) K t = K 1 t"
    if "block_size t = int b" "window_size t = 1" for K :: "int \<Rightarrow> unit tact" and t
    using that by (simp_all add: tact_simps)
  let ?g = "take b (drop b f) @ drop b f"
  obtain s1 where s1: "send_blocks e (take b f) (int (length f)) 0 0 s = Inr (Done True, s1)" "same_session s s1"
    "inbox s1 = inbox s" "sent s1 = sent s @ [(peer s, wire (DATA @ block_bytes 1 @ take b f))]"
    using one [OF refl s(3,4)] by blast
  let ?s2 = "s1\<lparr>inbox := xs\<rparr>"
  have ack: "recv_ack e False s1 = Inr (Done (Some 0), ?s2)"
    using recv_ack_ok [OF r, of s1 0 xs False] s1(2,3) s i by (simp add: same_session_def)
  have "send_file_loop e f (int (length f)) (Suc n) b (take b f) 0 0 ?s2 = Inr (q, s')"
  proof -
    have buffer: "take (nat (int b * 1)) (drop 0 f) @ drop (length (take (nat (int b * 1)) (drop 0 f))) junk = take b f"
      "0 + length (take (nat (int b * 1)) (drop 0 f)) = b" using junk f(1) by simp_all
    have "send_file_loop e f (int (length f)) (Suc (Suc n)) 0 junk 0 0 s
        = send_file_loop e f (int (length f)) (Suc n) b (take b f) 0 0 ?s2"
      by (subst send_file_loop.simps(2))
        (simp only: sizes [OF s(3,4)] Let_def buffer
          tbind_Done [where m = "send_blocks e (take b f) (int (length f)) 0 0" and s = s, OF s1(1)],
         simp add: tbind_Done [where m = "recv_ack e False" and s = s1, OF ack])
    then show ?thesis using run by simp
  qed
  moreover have "take (nat (int b * 1)) (drop b f) @ drop (length (take (nat (int b * 1)) (drop b f))) (take b f) = take b (drop b f)"
    using f(1) by simp
  moreover have "block_size ?s2 = int b" "window_size ?s2 = 1" using s1(2) s by (simp_all add: same_session_def)
  ultimately have "\<exists>k. tbind (send_blocks e (take b (drop b f)) (int (length f)) 0 0) k ?s2 = Inr (q, s')
      \<and> (\<forall>more. obeys sent_grows (k more))"
    by (simp only: send_file_loop.simps(2) sizes Let_def)
      (rule exI, rule conjI, assumption, intro allI obeys_intros sent_log.obeys_send_file_loop)
  then obtain k where rest: "tbind (send_blocks e (take b (drop b f)) (int (length f)) 0 0) k ?s2 = Inr (q, s')"
    and k: "\<And>more. obeys sent_grows (k more)"
    by blast
  have "length ?g = length f" "take b ?g = take b (drop b f)" using f(1) by simp_all
  then obtain s3 where s3: "send_blocks e (take b (drop b f)) (int (length f)) 0 0 ?s2 = Inr (Done True, s3)"
    "sent s3 = sent ?s2 @ [(peer ?s2, wire (DATA @ block_bytes 1 @ take b (drop b f)))]"
    using one [of ?g ?s2] s1(2) s by (auto simp: same_session_def simp del: take_append)
  then have "k True s3 = Inr (q, s')"
    using rest by (simp only: tbind_Done [where m = "send_blocks e (take b (drop b f)) (int (length f)) 0 0" and s = ?s2])
  then have "sent_grows s3 s'" by (rule obeysD [OF k])
  then show ?thesis using s3(2) s1(2,4)
    by (simp add: sent_grows_def same_session_def file_block_def)
qed

end
