(* ===== verification/Tftp_Promises.thy ===== *)
theory Tftp_Promises
  imports Tftp_Defects
begin

text \<open>
  What the TFTP server promises to a client that keeps the protocol, and to everybody else.
\<close>

section \<open>Sessions\<close>

text \<open>
  A read: the file is there, small enough for the arithmetic in \<open>int\<close>, and the client acknowledges the
  options and the last block of every window. A write: uploads are allowed, the file is not there, and
  the client sends the blocks of \<open>f\<close>, in their order, fewer than 65536 of them.
\<close>

definition read_session ::
  "create_env \<Rightarrow> tftp_env \<Rightarrow> byte list \<Rightarrow> byte list \<Rightarrow> nat \<Rightarrow> address \<Rightarrow> tftp_server \<Rightarrow> (string \<Rightarrow> byte list option) \<Rightarrow>
   recv_event list \<Rightarrow> string \<Rightarrow> (string \<times> string) list \<Rightarrow> nat \<Rightarrow> nat \<Rightarrow> byte list \<Rightarrow> bool" where
  "read_session ce e junk bytes n client srv fs arriving name options b w f \<longleftrightarrow>
     request_session RRQ ce e bytes n srv name options b w
     \<and> fs (upload_path name) = Some f \<and> length f + (w + 1) * b < 2147483648 \<and> length junk = b * w
     \<and> arriving = oack_acked client RRQ options @ acks client w (block_count b f) 0"

definition write_session ::
  "create_env \<Rightarrow> tftp_env \<Rightarrow> nat \<Rightarrow> byte list \<Rightarrow> nat \<Rightarrow> tftp_server \<Rightarrow> (string \<Rightarrow> byte list option) \<Rightarrow>
   string \<Rightarrow> (string \<times> string) list \<Rightarrow> nat \<Rightarrow> nat \<Rightarrow> byte list \<Rightarrow> bool" where
  "write_session ce e fuel bytes n srv fs name options b w f \<longleftrightarrow>
     request_session WRQ ce e bytes n srv name options b w
     \<and> writes_ok e \<and> fopen_ok e (upload_path name) \<and> is_allow_upload srv \<and> fs (upload_path name) = None
     \<and> block_count b f \<le> 65535 \<and> window_count w (block_count b f) \<le> fuel"

lemma read_session_run:
  assumes "read_session ce e junk bytes n client srv fs arriving name options b w f"
  shows "\<exists>h pkt. tftp_handler ce e fuel junk bytes n client srv fs arriving = Inr (Some (Done 0, h), [(client, pkt)])
    \<and> disk h = fs \<and> sent h = oack_sent client options @ data_sent client b f 0 (block_count b f)"
proof -
  note r = assms [unfolded read_session_def]
  obtain pkt h p where h: "create_handler ce (Some bytes) n client srv fs arriving = Inr (Some h, [(client, pkt)])"
    "pending h = Some p" "check_addr h" "sender p = peer h" "is_request RRQ name options p"
    "list_all option_ok options" "length (oack_packet options) < 65534" "nul_free name" "length name < 100"
    "negotiated options (block_size h, window_size h) = Some (int b, int w)" "b \<le> 65464" "w \<le> 255"
    "peer h = client" "disk h = fs" "inbox h = arriving" "sent h = []"
    using session_request [of RRQ ce e bytes n srv name options b w client fs arriving] r by blast
  have "0 < b" "0 < w" "reliable e" using r by (simp_all add: request_session_def)
  moreover have "length (upload_path name) < 128" using h(9) by (simp add: upload_path_def UPLOAD_DIR_def)
  ultimately obtain h' where "handle_client e fuel junk h = Inr (Done 0, h')" "disk h' = disk h"
    "sent h' = sent h @ oack_sent (peer h) options @ data_sent (peer h) b f 0 (block_count b f)"
    using download [where e = e and f = f and junk = junk and fuel = fuel, OF _ h(2-9) _ h(10) _ h(11) _ h(12)] r h(13-15)
    by auto
  then show ?thesis using tftp_handler_run [OF h(1)] h by fastforce
qed

lemma write_session_run:
  assumes "write_session ce e fuel bytes n srv fs name options b w f"
    and arriving: "arriving = data_events client b f 0 (block_count b f)"
  shows "\<exists>h pkt. tftp_handler ce e fuel junk bytes n client srv fs arriving = Inr (Some (Done 0, h), [(client, pkt)])
    \<and> disk h = fs(upload_path name \<mapsto> f)
    \<and> sent h = oack_sent client options @ (client, wire (ack_packet 0)) # acks_sent client w (block_count b f) 0"
proof -
  note r = assms(1) [unfolded write_session_def]
  obtain pkt h p where h: "create_handler ce (Some bytes) n client srv fs arriving = Inr (Some h, [(client, pkt)])"
    "pending h = Some p" "check_addr h" "sender p = peer h" "allow_upload h" "is_request WRQ name options p"
    "list_all option_ok options" "length (oack_packet options) < 65534" "nul_free name" "length name < 100"
    "negotiated options (block_size h, window_size h) = Some (int b, int w)" "b \<le> 65464"
    "peer h = client" "disk h = fs" "inbox h = arriving" "sent h = []"
    using session_request [of WRQ ce e bytes n srv name options b w client fs arriving] r by metis
  have "0 < b" "0 < w" "reliable e" "writes_ok e" "fopen_ok e (upload_path name)"
    using r by (simp_all add: request_session_def)
  then obtain h' where "handle_client e fuel junk h = Inr (Done 0, h')" "disk h' = (disk h)(upload_path name \<mapsto> f)"
    "sent h' = sent h @ oack_sent (peer h) options @ (peer h, wire (ack_packet 0)) # acks_sent (peer h) w (block_count b f) 0"
    using upload [where e = e and f = f and junk = junk and fuel = fuel, OF _ _ _ h(2-11) _ h(12)] r h(13-15) arriving
    by auto
  then show ?thesis using tftp_handler_run [OF h(1)] h by fastforce
qed

section \<open>From one server to another\<close>

text \<open>The datagrams with data among what a handler has sent, and their arrival elsewhere.\<close>

definition data_part :: "tftp \<Rightarrow> (address \<times> byte list) list" where
  "data_part h = filter (\<lambda>(_, bs). take 2 (drop 2 bs) = DATA) (sent h)"

definition relay :: "address \<Rightarrow> (address \<times> byte list) list \<Rightarrow> recv_event list" where
  "relay a xs = map (\<lambda>(_, bs). Datagram a bs) xs"

lemma data_part_session:
  assumes "sent h = oack_sent client options @ data_sent client b f 0 n"
    and "length (oack_packet options) < 65534" and "b \<le> 65464"
  shows "relay a (data_part h) = data_events a b f 0 n"
proof -
  have "drop 2 (wire (oack_packet options)) = oack_packet options" by (rule drop_wire [OF assms(2)])
  then have "filter (\<lambda>(_, bs). take 2 (drop 2 bs) = DATA) (oack_sent client options) = []"
    by (simp add: oack_sent_def oack_packet_def OACK_def DATA_def)
  moreover have "take 2 (drop 2 (wire (data_packet b f k))) = DATA" for k
    using drop_wire [of "data_packet b f k"] assms(3) by (simp add: data_packet_def length_file_block)
  then have "filter (\<lambda>(_, bs). take 2 (drop 2 bs) = DATA) (data_sent client b f 0 n) = data_sent client b f 0 n"
    by (auto simp: data_sent_def intro!: filter_True)
  ultimately show ?thesis
    using assms(1) by (simp add: data_part_def relay_def data_sent_def data_events_def)
qed

lemma request_session_sizes:
  "request_session op ce e bytes n srv name options b w \<Longrightarrow>
    length (oack_packet options) < 65534 \<and> b \<le> 65464"
  using negotiated_range [of options 512 1 "int b" "int w"]
  by (auto simp: request_session_def oack_packet_def request_data_def)

section \<open>Two servers\<close>

text \<open>A world for the witnesses: a file of five bytes, blocks of two, windows of two.\<close>

definition lab_env :: tftp_env where
  "lab_env = \<lparr>stale_addr = (\<lambda>a. a), after_block = [0], junk_len = (\<lambda>_. 0), junk_data = (\<lambda>_. []),
     send_result = (\<lambda>_. Sent), fopen_ok = (\<lambda>_. True), write_ok = (\<lambda>_. True), disk_full = False\<rparr>"

definition lab_create_env :: create_env where
  "lab_create_env = \<lparr>usable = (\<lambda>n. 2 * n), socket_ret = 4, bind_ret = 0, getsockname_ok = True, new_port = 8080,
     sendto_ret = 6, handshake_ret = 6, heap_tail = [0],
     heap_packet = \<lparr>opcode = 0, pdata = [], ptail = [], data_len = 0, sender = (0, 0), raw = [], block_id = 0\<rparr>,
     heap_last = []\<rparr>"

definition lab_server :: tftp_server where
  "lab_server = \<lparr>tftp_socket = \<lparr>domain = AF_INET, service = SOCK_DGRAM, protocol = 0, interface_addr = 0, port = 69,
     backlog = 0, socket_fd = 3, server_routes = dictionary_constructor\<rparr>,
     is_allow_upload = True, upload_dir = ''upload''\<rparr>"

definition lab_options :: "(string \<times> string) list" where
  "lab_options = [(''blksize'', ''2''), (''windowsize'', ''2'')]"

definition lab_length :: nat where "lab_length = length (request_data ''a'' lab_options) + 4"

definition lab_request :: "byte list \<Rightarrow> byte list" where
  "lab_request op = wire (op @ request_data ''a'' lab_options)"

definition lab_file :: "byte list" where "lab_file = [1, 2, 3, 4, 5]"

definition lab_disk :: "string \<Rightarrow> byte list option" where "lab_disk = [upload_path ''a'' \<mapsto> lab_file]"

definition lab_acks :: "recv_event list" where
  "lab_acks = oack_acked (1, 2) RRQ lab_options @ acks (1, 2) 2 (block_count 2 lab_file) 0"

lemma lab_options_ok: "list_all option_ok lab_options" "negotiated lab_options (512, 1) = Some (2, 2)"
  by code_simp+

lemma lab_length_value: "length (request_data ''a'' lab_options) = 31"
  by code_simp

lemma lab_request_session:
  assumes "op = RRQ \<or> op = WRQ"
  shows "request_session op lab_create_env lab_env (lab_request op) lab_length lab_server ''a'' lab_options 2 2"
proof -
  have "length op = 2" using assms by auto
  then have "length (lab_request op) = lab_length"
    using length_wire [of "op @ request_data ''a'' lab_options"] by (simp add: lab_request_def lab_length_def lab_length_value)
  then have "take lab_length (lab_request op) = lab_request op" by simp
  then show ?thesis using lab_options_ok
    by (simp add: request_session_def lab_length_value handler_ready_def lab_create_env_def lab_server_def
        reliable_def lab_env_def lab_request_def lab_length_def NUL_def)
qed

lemma lab_read_session:
  "read_session lab_create_env lab_env (replicate 4 0) (lab_request RRQ) lab_length (1, 2) lab_server lab_disk lab_acks
     ''a'' lab_options 2 2 lab_file"
  by (simp add: read_session_def lab_request_session lab_disk_def lab_acks_def lab_file_def)

lemma lab_world: "writes_ok lab_env" "fopen_ok lab_env path" "is_allow_upload lab_server"
  by (simp_all add: writes_ok_def lab_env_def lab_server_def)

lemma lab_write_session:
  "write_session lab_create_env lab_env 9 (lab_request WRQ) lab_length lab_server Map.empty
     ''a'' lab_options 2 2 lab_file"
  by (simp add: write_session_def lab_request_session lab_world lab_file_def block_count_def window_count_def)

section \<open>Properties\<close>







text \<open>
  C37. Whatever a client sends, and whatever fails: a file that is there when the handler starts is there
  when it stops, with the same content, and without the permission to upload nothing is created.
\<close>

theorem tftp_never_overwrites:
  assumes "tftp_handler ce e fuel junk bytes n client srv fs arriving = Inr (Some (r, h), out)"
  shows "(\<forall>p c. fs p = Some c \<longrightarrow> disk h p = Some c) \<and> (\<not> is_allow_upload srv \<longrightarrow> disk h = fs)"
  using assms
proof (rule tftp_handler_cases)
  fix h0 q h1
  assume "handle_client e fuel junk h0 = Inr (q, h1)" and "disk h0 = fs"
    "allow_upload h0 = is_allow_upload srv" "disk h = disk h1"
  then show ?thesis using handle_client_safe [of e fuel junk h0 q h1] by (simp add: disk_safe_def)
qed

lemma tftp_never_overwrites_witness:
  "\<exists>h out. tftp_handler lab_create_env lab_env 0 (replicate 4 0) (lab_request RRQ) lab_length (1, 2) lab_server
      lab_disk lab_acks = Inr (Some (Done 0, h), out) \<and> disk h (upload_path ''a'') = Some lab_file"
proof -
  obtain h out where run: "tftp_handler lab_create_env lab_env 0 (replicate 4 0) (lab_request RRQ) lab_length (1, 2)
      lab_server lab_disk lab_acks = Inr (Some (Done 0, h), out)"
    using read_session_run [OF lab_read_session] by blast
  show ?thesis using tftp_never_overwrites [OF run] run by (auto simp: lab_disk_def)
qed



text \<open>
  C40. A handler for a read request does not loop: for every finite sequence of arrivals it returns,
  gives up, waits for the next datagram or faults, and the fuel of its loops is enough.
\<close>

theorem tftp_read_ends:
  assumes "tftp_handler ce e fuel junk bytes n client srv fs arriving = Inr (Some (r, h), out)"
    and "load16 (drop 2 bytes) = load16 RRQ"
  shows "r \<noteq> No_Fuel"
  using assms(1)
proof (rule tftp_handler_cases)
  fix h0 q h1
  assume "handle_client e fuel junk h0 = Inr (q, h1)" and "r = q" and "check_addr h0"
    and "\<exists>p. pending h0 = Some p \<and> sender p = peer h0 \<and> opcode p = load16 (drop 2 bytes)"
  then show ?thesis using handle_client_read_ends assms(2) by metis
qed

lemma tftp_read_ends_witness:
  "\<exists>r h out. tftp_handler lab_create_env lab_env 0 (replicate 4 0) (lab_request RRQ) lab_length (1, 2) lab_server
      lab_disk lab_acks = Inr (Some (r, h), out) \<and> r \<noteq> No_Fuel"
proof -
  obtain h out where run: "tftp_handler lab_create_env lab_env 0 (replicate 4 0) (lab_request RRQ) lab_length (1, 2)
      lab_server lab_disk lab_acks = Inr (Some (Done 0, h), out)"
    using read_session_run [OF lab_read_session] by blast
  have "drop 2 (lab_request RRQ) = RRQ @ request_data ''a'' lab_options"
    unfolding lab_request_def by (rule drop_wire) (simp add: lab_length_value)
  then have "load16 (drop 2 (lab_request RRQ)) = load16 RRQ" by (simp add: RRQ_def load16_def)
  then show ?thesis using tftp_read_ends [OF run] run by blast
qed



end
